(* ===== verification/Prelude.thy ===== *)
theory Prelude
  imports Main "HOL-Library.Word"
begin

text \<open>
  Shared ground of the development: the result type of code that can fail, the
  \<^verbatim>\<open>std::string\<close> operations the sources call (with their out-of-range behaviour), the
  \<^verbatim>\<open>std::unordered_map\<close> operations, the C string view of a buffer, integer parsing, and
  the list lemmas the component theories share.
  Strings are byte strings (\<^typ>\<open>char list\<close>), positions of type \<^verbatim>\<open>size_t\<close> are \<^typ>\<open>nat\<close>
  with \<open>npos\<close> as the largest value of 64 bits.
\<close>

section \<open>Results and errors\<close>

text \<open>
  What stops a C++ function before it returns: a standard exception that leaves it, an
  operation the standard leaves undefined, a failed \<^verbatim>\<open>assert\<close>, the use of a null pointer, or
  a call of \<^verbatim>\<open>exit\<close>.
\<close>

datatype cxx_error =
    OutOfRange
  | InvalidArgument
  | UndefinedBehaviour
  | AssertFailed
  | NullDeref
  | ExitProcess

type_synonym 'a res = "cxx_error + 'a"

definition bindR :: "'a res \<Rightarrow> ('a \<Rightarrow> 'b res) \<Rightarrow> 'b res" where
  "bindR r f = (case r of Inl e \<Rightarrow> Inl e | Inr x \<Rightarrow> f x)"

named_theorems res_simps \<open>evaluation of results\<close>
named_theorems str_simps \<open>evaluation of the string operations\<close>

lemma bindR_simps [simp, res_simps]:
  "bindR (Inr x) f = f x"
  "bindR (Inl e) f = Inl e"
  by (simp_all add: bindR_def)

lemma bindR_eq_Inr [simp]:
  "bindR r f = Inr y \<longleftrightarrow> (\<exists>x. r = Inr x \<and> f x = Inr y)"
  by (cases r) auto

lemma bindR_assoc: "bindR (bindR r f) g = bindR r (\<lambda>x. bindR (f x) g)"
  by (cases r) auto

section \<open>Machine integers\<close>

type_synonym u8 = "8 word"
type_synonym u16 = "16 word"
type_synonym u32 = "32 word"
type_synonym u64 = "64 word"

lemma unat_u32_less [simp]: "unat (w :: u32) < 2 ^ 32"
  using unsigned_less [of w, where ?'a = nat] by simp

lemma unat_of_nat_u32: "n < 2 ^ 32 \<Longrightarrow> unat (of_nat n :: u32) = n"
  by (simp add: unsigned_of_nat take_bit_eq_mod)

lemma unat_add_u32: "unat (a + b :: u32) = (unat a + unat b) mod 2 ^ 32"
  by (simp add: unat_word_ariths)

lemma unat_add_u32_small:
  "unat a + unat b < 2 ^ 32 \<Longrightarrow> unat (a + b :: u32) = unat a + unat b"
  by (simp add: unat_add_u32)

section \<open>Searching a list\<close>

fun index_of :: "('a \<Rightarrow> bool) \<Rightarrow> 'a list \<Rightarrow> nat option" where
  "index_of p [] = None"
| "index_of p (x # xs) = (if p x then Some 0 else map_option Suc (index_of p xs))"

lemma index_of_None: "index_of p xs = None \<longleftrightarrow> (\<forall>x \<in> set xs. \<not> p x)"
  by (induction xs) auto

lemma index_of_Some:
  "index_of p xs = Some i \<Longrightarrow> i < length xs \<and> p (xs ! i) \<and> i = length (takeWhile (\<lambda>x. \<not> p x) xs)"
  by (induction xs arbitrary: i) (auto split: if_splits)

lemma index_of_append:
  "(\<forall>x \<in> set xs. \<not> p x) \<Longrightarrow> index_of p (xs @ ys) = map_option (\<lambda>i. i + length xs) (index_of p ys)"
  by (induction xs) (auto simp: option.map_comp comp_def option.map_ident split: option.splits)

lemma index_of_hit: "(\<forall>x \<in> set xs. \<not> p x) \<Longrightarrow> p y \<Longrightarrow> index_of p (xs @ y # ys) = Some (length xs)"
  by (simp add: index_of_append)

section \<open>C++ strings\<close>

text \<open>\<^verbatim>\<open>std::string::npos\<close>, the value that \<^verbatim>\<open>-1\<close> converts to in a comparison with \<^verbatim>\<open>size_t\<close>.\<close>

definition npos :: nat where
  "npos = 2 ^ 64 - 1"

definition found_at :: "nat \<Rightarrow> nat option \<Rightarrow> nat" where
  "found_at pos r = (case r of None \<Rightarrow> npos | Some i \<Rightarrow> pos + i)"

text \<open>\<^verbatim>\<open>s.find_first_of(c, pos)\<close> (and \<^verbatim>\<open>s.find(c, pos)\<close>) for a one-character pattern, and
  \<^verbatim>\<open>s.find_first_not_of(c, pos)\<close>.\<close>

definition find_char :: "char \<Rightarrow> string \<Rightarrow> nat \<Rightarrow> nat" where
  "find_char c s pos = found_at pos (index_of (\<lambda>x. x = c) (drop pos s))"

definition find_first_not_of :: "char \<Rightarrow> string \<Rightarrow> nat \<Rightarrow> nat" where
  "find_first_not_of c s pos = found_at pos (index_of (\<lambda>x. x \<noteq> c) (drop pos s))"

text \<open>\<^verbatim>\<open>s.substr(pos, n)\<close> throws \<^verbatim>\<open>std::out_of_range\<close> when \<^verbatim>\<open>pos > s.size()\<close>.\<close>

definition substr :: "string \<Rightarrow> nat \<Rightarrow> nat \<Rightarrow> string res" where
  "substr s pos n = (if length s < pos then Inl OutOfRange else Inr (take n (drop pos s)))"

text \<open>
  \<^verbatim>\<open>s.copy(dst, n, pos)\<close> throws likewise; otherwise it writes at most \<open>n\<close> bytes over the
  front of the destination and leaves the rest of it as it was.
\<close>

definition overwrite :: "'a list \<Rightarrow> 'a list \<Rightarrow> 'a list" where
  "overwrite dst src = src @ drop (length src) dst"

definition str_copy :: "string \<Rightarrow> string \<Rightarrow> nat \<Rightarrow> nat \<Rightarrow> string res" where
  "str_copy dst s n pos =
     (if length s < pos then Inl OutOfRange else Inr (overwrite dst (take n (drop pos s))))"

text \<open>\<^verbatim>\<open>s.back()\<close> and \<^verbatim>\<open>s.pop_back()\<close> are undefined on the empty string.\<close>

definition str_back :: "string \<Rightarrow> char res" where
  "str_back s = (if s = [] then Inl UndefinedBehaviour else Inr (last s))"

text \<open>
  What a C function or the implicit conversion from \<^verbatim>\<open>const char*\<close> to \<^verbatim>\<open>std::string\<close> sees of a
  buffer: the bytes before the first NUL.
\<close>

abbreviation NUL :: char where "NUL \<equiv> CHR 0x00"

definition cstr :: "string \<Rightarrow> string" where
  "cstr s = takeWhile (\<lambda>c. c \<noteq> NUL) s"

text \<open>\<^verbatim>\<open>snprintf(buf, n, "%s", s)\<close>: at most \<open>n - 1\<close> bytes, and a terminating NUL.\<close>

definition snprintf_s :: "nat \<Rightarrow> string \<Rightarrow> string" where
  "snprintf_s n s = take (n - 1) (cstr s)"

lemma cstr_id [simp, str_simps]: "NUL \<notin> set s \<Longrightarrow> cstr s = s"
  unfolding cstr_def by (auto intro!: takeWhile_eq_all_conv [THEN iffD2])

lemma cstr_no_nul: "NUL \<notin> set (cstr s)"
  unfolding cstr_def by (auto dest: set_takeWhileD)

lemma cstr_nul: "NUL \<notin> set s \<Longrightarrow> cstr (s @ NUL # t) = s"
  unfolding cstr_def by (induction s) auto

lemma cstr_idem [simp]: "cstr (cstr s) = cstr s"
  by (simp add: cstr_no_nul)

lemma cstr_length: "length (cstr s) \<le> length s"
  by (simp add: cstr_def length_takeWhile_le)

lemma snprintf_length: "0 < n \<Longrightarrow> length (snprintf_s n s) < n"
  by (simp add: snprintf_s_def)

lemma snprintf_no_nul: "NUL \<notin> set (snprintf_s n s)"
  using cstr_no_nul by (auto simp: snprintf_s_def dest: in_set_takeD)

lemma snprintf_fits: "length s < n \<Longrightarrow> NUL \<notin> set s \<Longrightarrow> snprintf_s n s = s"
  by (simp add: snprintf_s_def)

lemma substr_in_range [simp, str_simps]:
  "pos \<le> length s \<Longrightarrow> substr s pos n = Inr (take n (drop pos s))"
  by (simp add: substr_def)

lemma substr_out [simp]: "length s < pos \<Longrightarrow> substr s pos n = Inl OutOfRange"
  by (simp add: substr_def)

lemma str_copy_out [simp]: "length s < pos \<Longrightarrow> str_copy dst s n pos = Inl OutOfRange"
  by (simp add: str_copy_def)

lemma str_copy_in_range [simp]:
  "pos \<le> length s \<Longrightarrow> str_copy dst s n pos = Inr (overwrite dst (take n (drop pos s)))"
  by (simp add: str_copy_def)

lemma overwrite_full [simp]: "length src = length dst \<Longrightarrow> overwrite dst src = src"
  by (simp add: overwrite_def)

lemma overwrite_length: "length src \<le> length dst \<Longrightarrow> length (overwrite dst src) = length dst"
  by (simp add: overwrite_def)

lemma find_char_hit:
  "c \<notin> set s \<Longrightarrow> find_char c (s @ c # t) 0 = length s"
proof -
  assume "c \<notin> set s"
  then have "\<forall>x \<in> set s. \<not> x = c" by blast
  from index_of_hit [OF this, of c t] show ?thesis by (simp add: find_char_def found_at_def)
qed

lemma find_char_miss: "c \<notin> set s \<Longrightarrow> find_char c s 0 = npos"
  using index_of_None [of "\<lambda>x. x = c" s] by (auto simp: find_char_def found_at_def split: option.splits)

section \<open>Decimal numbers\<close>

text \<open>\<^verbatim>\<open>%d\<close> of a non-negative number.\<close>

fun dec :: "nat \<Rightarrow> string" where
  "dec n = (if n < 10 then [char_of (n + 48)] else dec (n div 10) @ [char_of (n mod 10 + 48)])"

declare dec.simps [simp del]

text \<open>\<^verbatim>\<open>%d\<close> of any integer.\<close>

definition dec_int :: "int \<Rightarrow> string" where
  "dec_int i = (if i < 0 then ''-'' @ dec (nat (- i)) else dec (nat i))"

lemma dec_not_nil [simp]: "dec n \<noteq> []"
  by (subst dec.simps) simp

lemma char_of_digit: "n < 10 \<Longrightarrow> of_char (char_of (n + 48 :: nat) :: char) = (n + 48 :: nat)"
  by simp

definition is_digit :: "char \<Rightarrow> bool" where
  "is_digit c \<longleftrightarrow> 48 \<le> (of_char c :: nat) \<and> (of_char c :: nat) \<le> 57"

definition digit_val :: "char \<Rightarrow> nat" where
  "digit_val c = of_char c - 48"

lemma dec_digits: "\<forall>c \<in> set (dec n). is_digit c"
proof (induction n rule: dec.induct)
  case (1 n)
  show ?case
  proof (cases "n < 10")
    case True
    then show ?thesis by (subst dec.simps) (simp add: is_digit_def)
  next
    case False
    with 1 have "\<forall>c \<in> set (dec (n div 10)). is_digit c" by simp
    with False show ?thesis by (subst dec.simps) (auto simp: is_digit_def)
  qed
qed

lemma digit_not_nul: "is_digit c \<Longrightarrow> c \<noteq> NUL"
  by (auto simp: is_digit_def)

lemma dec_no_nul: "NUL \<notin> set (dec n)"
  using dec_digits digit_not_nul by blast

lemma dec_length:
  "n < 10 ^ Suc k \<Longrightarrow> length (dec n) \<le> Suc k"
proof (induction k arbitrary: n)
  case 0
  then show ?case by (subst dec.simps) simp
next
  case (Suc k)
  then have "n div 10 < 10 ^ Suc k" by (simp add: less_mult_imp_div_less mult.commute)
  from Suc.IH [OF this] show ?case by (subst dec.simps) simp
qed

text \<open>
  \<^verbatim>\<open>std::stoi\<close> in base 10: white space, an optional sign, digits; \<^verbatim>\<open>std::invalid_argument\<close>
  when there is no digit, \<^verbatim>\<open>std::out_of_range\<close> outside 32 bits; what follows the digits is
  ignored.
\<close>

definition is_space :: "char \<Rightarrow> bool" where
  "is_space c \<longleftrightarrow> c \<in> {CHR '' '', CHR 0x09, CHR 0x0A, CHR 0x0B, CHR 0x0C, CHR 0x0D}"

definition digits_val :: "string \<Rightarrow> nat" where
  "digits_val ds = foldl (\<lambda>n c. 10 * n + digit_val c) 0 ds"

definition stoi :: "string \<Rightarrow> int res" where
  "stoi s =
     (let t = dropWhile is_space (cstr s);
          neg = (t \<noteq> [] \<and> hd t = CHR ''-'');
          u = (if t \<noteq> [] \<and> (hd t = CHR ''-'' \<or> hd t = CHR ''+'') then tl t else t);
          ds = takeWhile is_digit u;
          v = (if neg then - int (digits_val ds) else int (digits_val ds))
      in if ds = [] then Inl InvalidArgument
         else if v < - (2 ^ 31) \<or> 2 ^ 31 \<le> v then Inl OutOfRange
         else Inr v)"

lemma digits_val_dec: "digits_val (dec n) = n"
proof (induction n rule: dec.induct)
  case (1 n)
  show ?case
  proof (cases "n < 10")
    case True
    then show ?thesis by (subst dec.simps) (simp add: digits_val_def digit_val_def)
  next
    case False
    with 1 have "digits_val (dec (n div 10)) = n div 10" by simp
    with False show ?thesis
      by (subst dec.simps) (simp add: digits_val_def digit_val_def)
  qed
qed

lemma stoi_digits:
  assumes "ds \<noteq> []" "\<forall>c \<in> set ds. is_digit c" "rest = [] \<or> \<not> is_digit (hd rest)"
    and "digits_val ds < 2 ^ 31" "NUL \<notin> set rest"
  shows "stoi (ds @ rest) = Inr (int (digits_val ds))"
proof -
  obtain d ds' where ds: "ds = d # ds'" using assms(1) by (cases ds) auto
  have d: "is_digit d" using assms(2) ds by simp
  then have "\<not> is_space d" "d \<noteq> CHR ''-''" "d \<noteq> CHR ''+''"
    by (auto simp: is_digit_def is_space_def)
  moreover have "cstr (ds @ rest) = ds @ rest"
    using assms(2,5) digit_not_nul by (intro cstr_id) auto
  moreover have "takeWhile is_digit (ds @ rest) = ds"
    using assms(2,3) by (cases rest) (auto simp: takeWhile_append)
  ultimately show ?thesis using assms(1,4) by (simp add: stoi_def ds Let_def)
qed

lemma stoi_dec: "n < 2 ^ 31 \<Longrightarrow> stoi (dec n) = Inr (int n)"
  using stoi_digits [of "dec n" "[]"] dec_digits [of n] by (simp add: digits_val_dec)

end
