(* ===== verification/UMap.thy ===== *)
theory UMap
  imports Prelude "HOL-Library.Multiset"
begin

text \<open>
  \<^verbatim>\<open>std::unordered_map\<close> as the sources use it: \<^verbatim>\<open>find\<close>, \<^verbatim>\<open>insert\<close> (which keeps the value of a
  key that is already there), \<^verbatim>\<open>operator[] =\<close> (which replaces it) and \<^verbatim>\<open>empty\<close>.
  A map is the list of its entries with distinct keys; the order of an iteration is not
  specified by the library, so the code that iterates takes the order as an argument.
  The locale \<open>first_wins\<close> is the contract of \<^verbatim>\<open>insert\<close>; its clients fill a map from a list.
\<close>

type_synonym ('k, 'v) umap = "('k \<times> 'v) list"

definition um_find :: "('k, 'v) umap \<Rightarrow> 'k \<Rightarrow> 'v option" where
  "um_find m k = map_of m k"

definition um_insert :: "('k, 'v) umap \<Rightarrow> 'k \<Rightarrow> 'v \<Rightarrow> ('k, 'v) umap" where
  "um_insert m k v = (case map_of m k of None \<Rightarrow> m @ [(k, v)] | Some _ \<Rightarrow> m)"

fun um_assign :: "('k, 'v) umap \<Rightarrow> 'k \<Rightarrow> 'v \<Rightarrow> ('k, 'v) umap" where
  "um_assign [] k v = [(k, v)]"
| "um_assign ((k', v') # m) k v =
     (if k' = k then (k, v) # m else (k', v') # um_assign m k v)"

definition um_ok :: "('k, 'v) umap \<Rightarrow> bool" where
  "um_ok m \<longleftrightarrow> distinct (map fst m)"

named_theorems umap_simps \<open>lookup after each operation of a map\<close>

lemma um_find_empty [umap_simps]: "um_find [] k = None"
  by (simp add: um_find_def)

lemma um_find_insert [umap_simps]:
  "um_find (um_insert m k v) k' =
     (if k' = k \<and> um_find m k = None then Some v else um_find m k')"
  by (auto simp: um_find_def um_insert_def map_of_append map_add_def split: option.splits)

lemma um_find_assign [umap_simps]:
  "um_find (um_assign m k v) k' = (if k' = k then Some v else um_find m k')"
  unfolding um_find_def by (induction m k v rule: um_assign.induct) auto

lemma um_ok_empty [simp]: "um_ok []"
  by (simp add: um_ok_def)

lemma um_ok_insert [simp]: "um_ok m \<Longrightarrow> um_ok (um_insert m k v)"
  by (auto simp: um_ok_def um_insert_def map_of_eq_None_iff split: option.splits)

lemma um_insert_not_empty [simp]: "um_insert m k v \<noteq> []"
  by (cases m) (simp_all add: um_insert_def split: option.split)

lemma um_assign_keys: "fst ` set (um_assign m k v) = insert k (fst ` set m)"
  by (induction m k v rule: um_assign.induct) auto

lemma um_ok_assign [simp]: "um_ok m \<Longrightarrow> um_ok (um_assign m k v)"
  unfolding um_ok_def
proof (induction m k v rule: um_assign.induct)
  case (1 k v)
  then show ?case by simp
next
  case (2 k' v' m k v)
  then show ?case using um_assign_keys [of m k v] by auto
qed

lemma um_find_in: "um_ok m \<Longrightarrow> um_find m k = Some v \<longleftrightarrow> (k, v) \<in> set m"
  by (simp add: um_find_def um_ok_def)

lemma um_find_mset:
  assumes "um_ok m" and "mset m' = mset m"
  shows "um_find m' k = um_find m k"
proof -
  have "set m' = set m" using assms(2) by (rule mset_eq_setD)
  moreover have "mset (map fst m') = mset (map fst m)" using assms(2) by simp
  then have "um_ok m'" using assms(1) unfolding um_ok_def by (metis mset_eq_imp_distinct_iff)
  ultimately show ?thesis using um_find_in [OF assms(1)] um_find_in [OF \<open>um_ok m'\<close>]
    by (metis option.exhaust)
qed

section \<open>The contract of an insert that keeps the first value\<close>

locale first_wins =
  fixes lookup :: "'m \<Rightarrow> 'k \<Rightarrow> 'v option"
    and ins :: "'m \<Rightarrow> 'k \<Rightarrow> 'v \<Rightarrow> 'm"
    and ok :: "'m \<Rightarrow> bool"
  assumes lookup_ins: "ok m \<Longrightarrow> lookup (ins m k v) k' =
      (if k' = k \<and> lookup m k = None then Some v else lookup m k')"
    and ok_ins: "ok m \<Longrightarrow> ok (ins m k v)"
begin

lemma ok_fold: "ok m \<Longrightarrow> ok (foldl (\<lambda>m (k, v). ins m k v) m kvs)"
  by (induction kvs arbitrary: m) (auto intro: ok_ins)

lemma lookup_fold:
  "ok m \<Longrightarrow> lookup (foldl (\<lambda>m (k, v). ins m k v) m kvs) k =
     (case lookup m k of None \<Rightarrow> map_of kvs k | Some v \<Rightarrow> Some v)"
proof (induction kvs arbitrary: m)
  case Nil
  then show ?case by (simp split: option.splits)
next
  case (Cons kv kvs)
  obtain a b where kv: "kv = (a, b)" by (cases kv)
  from Cons.prems have "ok (ins m a b)" by (rule ok_ins)
  from Cons.IH [OF this] Cons.prems show ?case
    by (auto simp: kv lookup_ins split: option.splits)
qed

lemma ins_idem: "ok m \<Longrightarrow> lookup (ins (ins m k v) k w) k' = lookup (ins m k v) k'"
  by (auto simp: lookup_ins ok_ins split: option.splits)

lemma lookup_fold_mono:
  "ok m \<Longrightarrow> lookup m k = Some v \<Longrightarrow> lookup (foldl (\<lambda>m (k, v). ins m k v) m kvs) k = Some v"
  by (simp add: lookup_fold)

end

interpretation um: first_wins um_find um_insert um_ok
  by unfold_locales (simp_all add: umap_simps)

end
