(* ===== verification/ConfigParse.thy ===== *)
theory ConfigParse
  imports UMap
begin

text \<open>
  \<^verbatim>\<open>include/rpc_config_parse.h\<close> and \<^verbatim>\<open>src/rpc_config_parse.cpp\<close>: the configuration parsers.
  The INI parser is modelled line by line with the exceptions and the undefined behaviour its
  string operations can reach; the JSON and YAML parsers are the stubs of the header.
\<close>

section \<open>Configuration items\<close>

text \<open>
  A \<^verbatim>\<open>boost::any\<close> holding a string or an integer; an integer type is its signedness and
  width, which \<^verbatim>\<open>any_cast\<close> compares.
\<close>

datatype any = AnyString string | AnyInt bool nat int

type_synonym config_items = "(string, any) umap"

abbreviation SP :: char where "SP \<equiv> CHR '' ''"
abbreviation LF :: char where "LF \<equiv> CHR 0x0A"
abbreviation CR :: char where "CR \<equiv> CHR 0x0D"

section \<open>TrimAllSpace\<close>

definition TrimAllSpace :: "string \<Rightarrow> string res" where
  "TrimAllSpace s =
     (let pos = find_first_not_of SP s 0;
          pos2 = find_char SP s pos;
          pos2 = (if pos2 = npos then length s else pos2)
      in substr s pos (pos2 - pos))"

definition blank :: "string \<Rightarrow> bool" where
  "blank s \<longleftrightarrow> (\<forall>c \<in> set s. c = SP)"

lemma blank_replicate: "blank s \<longleftrightarrow> s = replicate (length s) SP"
  by (induction s) (auto simp: blank_def)

lemma find_first_not_of_blank: "blank s \<Longrightarrow> find_first_not_of SP s 0 = npos"
  using index_of_None [of "\<lambda>x. x \<noteq> SP" s]
  by (auto simp: find_first_not_of_def found_at_def blank_def)

lemma find_first_not_of_hit:
  assumes "blank a" "c \<noteq> SP"
  shows "find_first_not_of SP (a @ c # b) 0 = length a"
  using index_of_hit [of a "\<lambda>x. x \<noteq> SP" c b] assms
  by (auto simp: find_first_not_of_def found_at_def blank_def)

lemma not_blank_split:
  assumes "\<not> blank s"
  obtains a c b where "s = a @ c # b" "blank a" "c \<noteq> SP"
proof -
  from assms have "\<exists>c \<in> set s. c \<noteq> SP" by (simp add: blank_def)
  then obtain a c b where "s = a @ c # b" "c \<noteq> SP" "\<forall>y \<in> set a. \<not> y \<noteq> SP"
    by (elim split_list_first_propE)
  then show thesis using that by (simp add: blank_def)
qed

lemma blank_find_iff:
  assumes "length s < npos"
  shows "find_first_not_of SP s 0 = npos \<longleftrightarrow> blank s"
proof
  assume npos: "find_first_not_of SP s 0 = npos"
  show "blank s"
  proof (rule ccontr)
    assume "\<not> blank s"
    then obtain a c b where s: "s = a @ c # b" "blank a" "c \<noteq> SP" by (rule not_blank_split)
    then have "find_first_not_of SP s 0 = length a" by (simp add: find_first_not_of_hit)
    with npos assms s show False by simp
  qed
qed (rule find_first_not_of_blank)

lemma TrimAllSpace_blank: "blank s \<Longrightarrow> length s < npos \<Longrightarrow> TrimAllSpace s = Inl OutOfRange"
  by (simp add: TrimAllSpace_def find_first_not_of_blank Let_def)

lemma TrimAllSpace_token:
  assumes "blank a" "t \<noteq> []" "SP \<notin> set t" "rest = [] \<or> hd rest = SP" "length (a @ t @ rest) < npos"
  shows "TrimAllSpace (a @ t @ rest) = Inr t"
proof -
  let ?s = "a @ t @ rest"
  obtain c t' where t: "t = c # t'" using assms(2) by (cases t) auto
  have pos: "find_first_not_of SP ?s 0 = length a"
    using find_first_not_of_hit [OF assms(1), of c "t' @ rest"] assms(3) by (auto simp: t)
  have "(if find_char SP ?s (length a) = npos then length ?s else find_char SP ?s (length a))
      = length a + length t"
  proof (cases rest)
    case Nil
    have "index_of (\<lambda>x. x = SP) t = None" using assms(3) by (auto simp: index_of_None)
    then show ?thesis by (simp add: find_char_def found_at_def Nil)
  next
    case (Cons d r)
    with assms(4) have d: "d = SP" by simp
    have "\<forall>x \<in> set t. \<not> x = SP" using assms(3) by blast
    from index_of_hit [OF this, of SP r] have "find_char SP ?s (length a) = length a + length t"
      by (simp add: find_char_def found_at_def Cons d)
    with assms(5) show ?thesis by simp
  qed
  then show ?thesis by (simp add: TrimAllSpace_def pos Let_def)
qed

text \<open>The token that a non-blank string is trimmed to: what stands before its second space run.\<close>

definition first_token :: "string \<Rightarrow> string" where
  "first_token s = takeWhile (\<lambda>c. c \<noteq> SP) (dropWhile (\<lambda>c. c = SP) s)"

lemma token_split:
  assumes "\<not> blank s"
  obtains a r where "s = a @ first_token s @ r" "blank a" "r = [] \<or> hd r = SP"
    "first_token s \<noteq> []" "SP \<notin> set (first_token s)"
proof
  let ?d = "dropWhile (\<lambda>c. c = SP) s"
  let ?a = "takeWhile (\<lambda>c. c = SP) s" and ?r = "dropWhile (\<lambda>c. c \<noteq> SP) ?d"
  show "s = ?a @ first_token s @ ?r" by (simp add: first_token_def)
  show "blank ?a" by (auto simp: blank_def dest: set_takeWhileD)
  show "?r = [] \<or> hd ?r = SP" using hd_dropWhile [of "\<lambda>c. c \<noteq> SP" ?d] by blast
  show "SP \<notin> set (first_token s)" by (auto simp: first_token_def dest: set_takeWhileD)
  have d: "?d \<noteq> []" using assms by (simp add: blank_def)
  then have "hd ?d \<noteq> SP" by (rule hd_dropWhile)
  with d show "first_token s \<noteq> []" by (cases ?d) (auto simp: first_token_def)
qed

lemma TrimAllSpace_eq:
  assumes "length s < npos"
  shows "TrimAllSpace s = (if blank s then Inl OutOfRange else Inr (first_token s))"
proof (cases "blank s")
  case True
  with assms show ?thesis by (simp add: TrimAllSpace_blank)
next
  case False
  then obtain a r where s: "s = a @ first_token s @ r" and ar: "blank a" "r = [] \<or> hd r = SP"
    and t: "first_token s \<noteq> []" "SP \<notin> set (first_token s)" by (rule token_split)
  have "length (a @ first_token s @ r) < npos" using assms s by metis
  with ar t have "TrimAllSpace (a @ first_token s @ r) = Inr (first_token s)"
    by (intro TrimAllSpace_token)
  with False s show ?thesis by metis
qed

section \<open>IniConfigParse::parse\<close>

text \<open>The lines \<^verbatim>\<open>std::getline\<close> yields: no line feed in any, none after a final line feed.\<close>

function getlines :: "string \<Rightarrow> string list" where
  "getlines s =
     (if s = [] then []
      else takeWhile (\<lambda>c. c \<noteq> LF) s # getlines (drop 1 (dropWhile (\<lambda>c. c \<noteq> LF) s)))"
  by pat_completeness auto
termination
proof (relation "measure length")
  fix s :: string
  assume "s \<noteq> []"
  then have "length (drop 1 (dropWhile (\<lambda>c. c \<noteq> LF) s)) < length s"
    using length_dropWhile_le [of "\<lambda>c. c \<noteq> LF" s] by (cases s) (auto simp: le_imp_less_Suc)
  then show "(drop 1 (dropWhile (\<lambda>c. c \<noteq> LF) s), s) \<in> measure length" by simp
qed simp

declare getlines.simps [simp del]

lemma getlines_Nil [simp]: "getlines [] = []"
  by (subst getlines.simps) simp

lemma getlines_line: "LF \<notin> set l \<Longrightarrow> getlines (l @ LF # s) = l # getlines s"
proof -
  assume "LF \<notin> set l"
  then have "takeWhile (\<lambda>c. c \<noteq> LF) (l @ LF # s) = l" "dropWhile (\<lambda>c. c \<noteq> LF) (l @ LF # s) = LF # s"
    by (induction l) auto
  then show ?thesis by (subst getlines.simps) simp
qed

lemma getlines_last: "LF \<notin> set l \<Longrightarrow> l \<noteq> [] \<Longrightarrow> getlines l = [l]"
proof -
  assume lf: "LF \<notin> set l" and ne: "l \<noteq> []"
  from lf have "takeWhile (\<lambda>c. c \<noteq> LF) l = l" and d: "dropWhile (\<lambda>c. c \<noteq> LF) l = []"
    by (induction l) auto
  with ne show ?thesis by (subst getlines.simps) (simp add: d)
qed

text \<open>Drop one end-of-line character; \<^verbatim>\<open>back()\<close> comes first and is undefined on \<^verbatim>\<open>""\<close>.\<close>

definition strip_eol :: "string \<Rightarrow> string res" where
  "strip_eol s = bindR (str_back s) (\<lambda>c. Inr (if c = LF \<or> c = CR then butlast s else s))"

text \<open>The body of the loop for one line.\<close>

definition ini_line :: "string \<Rightarrow> config_items \<Rightarrow> config_items res" where
  "ini_line line items =
     (if line = [LF] \<or> line = [CR, LF] then Inr items
      else let pos = find_first_not_of SP line 0
      in if pos = npos \<or> line ! pos = CHR ''#'' then Inr items
      else let pos2 = find_char CHR ''='' line 0
      in if pos2 = npos then Inr items
      else bindR (substr line 0 pos2) (\<lambda>key.
           bindR (strip_eol key) (\<lambda>key.
           if key = [] then Inr items
           else bindR (TrimAllSpace key) (\<lambda>key.
           bindR (substr line (pos2 + 1) npos) (\<lambda>val.
           bindR (strip_eol val) (\<lambda>val.
           bindR (if val \<noteq> [] then TrimAllSpace val else Inr val) (\<lambda>val.
           Inr (um_insert items key (AnyString val)))))))))"

fun ini_lines :: "string list \<Rightarrow> config_items \<Rightarrow> config_items res" where
  "ini_lines [] items = Inr items"
| "ini_lines (l # ls) items = bindR (ini_line l items) (ini_lines ls)"

definition IniConfigParse_parse :: "string \<Rightarrow> config_items \<Rightarrow> (bool \<times> config_items) res" where
  "IniConfigParse_parse data items =
     (if data = [] then Inr (False, items)
      else bindR (ini_lines (getlines data) items) (\<lambda>items. Inr (items \<noteq> [], items)))"

text \<open>The two stubs, and the virtual call.\<close>

definition JsonConfigParse_parse :: "string \<Rightarrow> config_items \<Rightarrow> (bool \<times> config_items) res" where
  "JsonConfigParse_parse data items = Inr (True, items)"

definition YamlConfigParse_parse :: "string \<Rightarrow> config_items \<Rightarrow> (bool \<times> config_items) res" where
  "YamlConfigParse_parse data items = Inr (True, items)"

datatype RpcConfigParse = IniConfigParse | JsonConfigParse | YamlConfigParse

fun RpcConfigParse_parse :: "RpcConfigParse \<Rightarrow> string \<Rightarrow> config_items \<Rightarrow> (bool \<times> config_items) res" where
  "RpcConfigParse_parse IniConfigParse = IniConfigParse_parse"
| "RpcConfigParse_parse JsonConfigParse = JsonConfigParse_parse"
| "RpcConfigParse_parse YamlConfigParse = YamlConfigParse_parse"

section \<open>What a line does\<close>

text \<open>A string without its last character when that ends a line.\<close>

definition strip1 :: "string \<Rightarrow> string" where
  "strip1 s = (if s \<noteq> [] \<and> (last s = LF \<or> last s = CR) then butlast s else s)"

lemma strip_eol_eq: "strip_eol s = (if s = [] then Inl UndefinedBehaviour else Inr (strip1 s))"
  by (simp add: strip_eol_def str_back_def strip1_def)

lemma strip1_length: "length (strip1 s) \<le> length s"
  by (simp add: strip1_def)

lemma strip1_id: "LF \<notin> set s \<Longrightarrow> CR \<notin> set s \<Longrightarrow> strip1 s = s"
  by (auto simp: strip1_def dest!: last_in_set)

definition comment_line :: "string \<Rightarrow> bool" where
  "comment_line l \<longleftrightarrow> (let t = dropWhile (\<lambda>c. c = SP) l in t = [] \<or> hd t = CHR ''#'')"

lemma find_first_not_of_nth:
  assumes "length l < npos"
  shows "find_first_not_of SP l 0 = npos \<or> l ! find_first_not_of SP l 0 = CHR ''#'' \<longleftrightarrow> comment_line l"
proof (cases "blank l")
  case True
  then show ?thesis
    by (simp add: find_first_not_of_blank comment_line_def) (simp add: blank_def)
next
  case False
  then obtain a c b where l: "l = a @ c # b" "blank a" "c \<noteq> SP" by (rule not_blank_split)
  then have "dropWhile (\<lambda>c. c = SP) (a @ c # b) = c # b" by (simp add: blank_def)
  moreover have "find_first_not_of SP (a @ c # b) 0 = length a"
    using l(2,3) by (rule find_first_not_of_hit)
  moreover have "length a \<noteq> npos" using assms l(1) by simp
  ultimately show ?thesis unfolding l(1) comment_line_def by simp
qed

lemma ini_line_comment: "length l < npos \<Longrightarrow> comment_line l \<Longrightarrow> ini_line l items = Inr items"
  using find_first_not_of_nth [of l] by (simp add: ini_line_def Let_def)

lemma ini_line_no_equals: "CHR ''='' \<notin> set l \<Longrightarrow> ini_line l items = Inr items"
  by (simp add: ini_line_def find_char_miss Let_def)

lemma ini_line_eq:
  assumes "CHR ''='' \<notin> set k" "\<not> comment_line (k @ CHR ''='' # v)" "length (k @ CHR ''='' # v) < npos"
  shows "ini_line (k @ CHR ''='' # v) items =
    (if k = [] then Inl UndefinedBehaviour
     else if strip1 k = [] then Inr items
     else if blank (strip1 k) then Inl OutOfRange
     else if v = [] then Inl UndefinedBehaviour
     else if strip1 v \<noteq> [] \<and> blank (strip1 v) then Inl OutOfRange
     else Inr (um_insert items (first_token (strip1 k)) (AnyString (first_token (strip1 v)))))"
proof -
  let ?l = "k @ CHR ''='' # v"
  have "CHR ''='' \<in> set ?l" by simp
  moreover have "CHR ''='' \<notin> set [LF]" "CHR ''='' \<notin> set [CR, LF]" by simp_all
  ultimately have l: "?l \<noteq> [LF]" "?l \<noteq> [CR, LF]" by metis+
  have c: "\<not> (find_first_not_of SP ?l 0 = npos \<or> ?l ! find_first_not_of SP ?l 0 = CHR ''#'')"
    using find_first_not_of_nth [OF assms(3)] assms(2) by simp
  have e: "find_char CHR ''='' ?l 0 = length k" using assms(1) by (rule find_char_hit)
  have n: "length k \<noteq> npos" "length v \<le> npos" using assms(3) by auto
  have ks: "length (strip1 k) < npos" "length (strip1 v) < npos"
    using strip1_length [of k] strip1_length [of v] assms(3) by auto
  have f: "first_token [] = []" by (simp add: first_token_def)
  show ?thesis
    using l c n by (auto simp: ini_line_def Let_def e strip_eol_eq TrimAllSpace_eq ks f)
qed

text \<open>What one line of an INI file does, for every line that is not a comment and has an equals
  sign: an empty key or an empty value is undefined behaviour (\<open>back()\<close> of an empty string), a key or
  a value of spaces only makes \<open>substr\<close> throw \<open>std::out_of_range\<close>, and otherwise the first tokens of
  the two sides are inserted unless the key is already there.\<close>

theorem ini_line_entry:
  assumes "CHR ''='' \<notin> set k" "\<not> comment_line (k @ CHR ''='' # v)" "length (k @ CHR ''='' # v) < npos"
  shows "ini_line (k @ CHR ''='' # v) items =
    (if k = [] then Inl UndefinedBehaviour
     else if strip1 k = [] then Inr items
     else if blank (strip1 k) then Inl OutOfRange
     else if v = [] then Inl UndefinedBehaviour
     else if strip1 v \<noteq> [] \<and> blank (strip1 v) then Inl OutOfRange
     else Inr (um_insert items (first_token (strip1 k)) (AnyString (first_token (strip1 v)))))"
  using assms by (rule ini_line_eq)

theorem ini_line_entry_witness:
  "ini_line (''log dir '' @ CHR ''='' # '' ../log/'') [] =
    (if ''log dir '' = [] then Inl UndefinedBehaviour
     else if strip1 ''log dir '' = [] then Inr []
     else if blank (strip1 ''log dir '') then Inl OutOfRange
     else if '' ../log/'' = [] then Inl UndefinedBehaviour
     else if strip1 '' ../log/'' \<noteq> [] \<and> blank (strip1 '' ../log/'') then Inl OutOfRange
     else Inr (um_insert [] (first_token (strip1 ''log dir '')) (AnyString (first_token (strip1 '' ../log/'')))))"
  by (rule ini_line_entry) (simp_all add: comment_line_def npos_def)

text \<open>Two lines a user can write stop the program: \<open>name=\<close> with nothing after the sign is
  undefined behaviour, and \<open>name= \<close> with only spaces after it throws \<open>std::out_of_range\<close>, for
  every name that starts with a visible character.\<close>

theorem ini_empty_value_fails:
  assumes "CHR ''='' \<notin> set k" "\<not> comment_line k" "LF \<notin> set k" "CR \<notin> set k"
    and "length k + n + 1 < npos"
  shows "ini_line (k @ ''='' @ replicate n SP) items =
    Inl (if n = 0 then UndefinedBehaviour else OutOfRange)"
proof -
  have k: "k \<noteq> []" using assms(2) by (auto simp: comment_line_def)
  have nb: "\<not> blank k" using assms(2) by (auto simp: comment_line_def blank_def)
  have "dropWhile (\<lambda>c. c = SP) (k @ t) = dropWhile (\<lambda>c. c = SP) k @ t" for t
    using nb by (auto simp: blank_def dropWhile_append1)
  then have c: "\<not> comment_line (k @ CHR ''='' # replicate n SP)"
    using assms(2) by (auto simp: comment_line_def hd_append)
  have s: "strip1 k = k" using assms(3,4) by (rule strip1_id)
  have v: "strip1 (replicate n SP) = replicate n SP" by (rule strip1_id) auto
  have "blank (replicate n SP)" by (simp add: blank_def)
  with ini_line_eq [OF assms(1) c] assms(5) k nb show ?thesis by (simp add: s v)
qed

theorem ini_empty_value_fails_witness:
  "ini_line (''log_dir'' @ ''='' @ replicate 0 SP) [] = Inl (if 0 = (0::nat) then UndefinedBehaviour else OutOfRange)"
  by (rule ini_empty_value_fails) (simp_all add: comment_line_def npos_def)

section \<open>Reading back a written file\<close>

text \<open>
  The INI files the program is meant to read: lines without an entry (comments, blank lines, text
  with no equals sign) and entries with spaces around key and value, each line perhaps ending in a
  carriage return. The last line has no line feed of its own, so a file that ends in one has a last
  line \<open>IniText []\<close>.
\<close>

definition ini_token :: "string \<Rightarrow> bool" where
  "ini_token t \<longleftrightarrow> t \<noteq> [] \<and> set t \<inter> {SP, LF, CR, NUL} = {}"

definition ini_key :: "string \<Rightarrow> bool" where
  "ini_key k \<longleftrightarrow> ini_token k \<and> CHR ''='' \<notin> set k \<and> hd k \<noteq> CHR ''#''"

datatype ini_part = IniText string | IniEntry nat string nat nat string nat bool

fun render_part :: "ini_part \<Rightarrow> string" where
  "render_part (IniText t) = t"
| "render_part (IniEntry a k b c v d cr) =
     (replicate a SP @ k @ replicate b SP) @ CHR ''='' # replicate c SP @ v @ replicate d SP @ (if cr then [CR] else [])"

abbreviation plain_entry :: "string \<Rightarrow> string \<Rightarrow> ini_part" where
  "plain_entry k v \<equiv> IniEntry 0 k 0 0 v 0 False"

fun part_ok :: "ini_part \<Rightarrow> bool" where
  "part_ok (IniText t) = (set t \<inter> {LF, NUL} = {} \<and> (comment_line t \<or> CHR ''='' \<notin> set t))"
| "part_ok (IniEntry a k b c v d cr) = (ini_key k \<and> ini_token v)"

fun part_entries :: "ini_part \<Rightarrow> (string \<times> string) list" where
  "part_entries (IniText t) = []"
| "part_entries (IniEntry a k b c v d cr) = [(k, v)]"

fun render_ini :: "ini_part list \<Rightarrow> string" where
  "render_ini [] = []"
| "render_ini [p] = render_part p"
| "render_ini (p # q # ps) = render_part p @ LF # render_ini (q # ps)"

definition ini_entries :: "ini_part list \<Rightarrow> (string \<times> string) list" where
  "ini_entries ps = concat (map part_entries ps)"

text \<open>A file that fits a string and has at least one entry.\<close>

definition ini_file :: "ini_part list \<Rightarrow> bool" where
  "ini_file ps \<longleftrightarrow> list_all part_ok ps \<and> ini_entries ps \<noteq> [] \<and> length (render_ini ps) < npos"

lemma ini_entries_simps [simp]: "ini_entries [] = []" "ini_entries (p # ps) = part_entries p @ ini_entries ps"
  by (simp_all add: ini_entries_def)

lemma part_entries_token: "(k, v) \<in> set (part_entries p) \<Longrightarrow> part_ok p \<Longrightarrow> ini_key k \<and> ini_token v"
  by (cases p) auto

lemma ini_entries_token: "(k, v) \<in> set (ini_entries ps) \<Longrightarrow> list_all part_ok ps \<Longrightarrow> ini_key k \<and> ini_token v"
  by (induction ps) (auto dest: part_entries_token)

lemma ini_file_token: "ini_file ps \<Longrightarrow> map_of (ini_entries ps) k = Some v \<Longrightarrow> ini_token v"
  by (auto simp: ini_file_def dest!: map_of_SomeD ini_entries_token)

lemma first_token_spaced:
  assumes "ini_token t"
  shows "first_token (replicate a SP @ t @ replicate b SP) = t"
proof -
  obtain c r where t: "t = c # r" "c \<noteq> SP" using assms by (cases t) (auto simp: ini_token_def)
  have "dropWhile (\<lambda>c. c = SP) (replicate a SP @ t @ replicate b SP) = t @ replicate b SP"
    by (subst dropWhile_append2) (simp_all add: t)
  moreover have "takeWhile (\<lambda>c. c \<noteq> SP) (t @ replicate b SP) = t"
    using assms by (subst takeWhile_append2) (auto simp: ini_token_def takeWhile_replicate)
  ultimately show ?thesis by (simp add: first_token_def)
qed

lemma not_blank_token: "ini_token t \<Longrightarrow> \<not> blank (a @ t @ b)"
  by (cases t) (auto simp: ini_token_def blank_def)

lemma strip1_value:
  assumes "ini_token v"
  shows "strip1 (replicate c SP @ v @ replicate d SP @ (if cr then [CR] else [])) = replicate c SP @ v @ replicate d SP"
proof (cases cr)
  case True
  then show ?thesis by (simp add: strip1_def butlast_append)
next
  case False
  have "LF \<notin> set (replicate c SP @ v @ replicate d SP)" "CR \<notin> set (replicate c SP @ v @ replicate d SP)"
    using assms by (auto simp: ini_token_def)
  from strip1_id [OF this] False show ?thesis by simp
qed

lemma ini_line_part:
  assumes "part_ok p" "length (render_part p) < npos"
  shows "ini_line (render_part p) items =
    Inr (foldl (\<lambda>m (k, v). um_insert m k v) items (map (\<lambda>(k, v). (k, AnyString v)) (part_entries p)))"
proof (cases p)
  case (IniText t)
  with assms show ?thesis by (auto simp: ini_line_comment ini_line_no_equals)
next
  case (IniEntry a k b c v d cr)
  let ?k = "replicate a SP @ k @ replicate b SP"
  let ?v = "replicate c SP @ v @ replicate d SP @ (if cr then [CR] else [])"
  have k: "ini_token k" "CHR ''='' \<notin> set k" "hd k \<noteq> CHR ''#''" "k \<noteq> []" and v: "ini_token v" "v \<noteq> []"
    using assms(1) by (auto simp: IniEntry ini_key_def ini_token_def)
  obtain x r where x: "k = x # r" "x \<noteq> SP" using k(1) by (cases k) (auto simp: ini_token_def)
  have eq: "CHR ''='' \<notin> set ?k" using k(2) by auto
  have "dropWhile (\<lambda>c. c = SP) (?k @ CHR ''='' # ?v) = k @ replicate b SP @ CHR ''='' # ?v"
    using x by (simp add: dropWhile_append)
  then have c: "\<not> comment_line (?k @ CHR ''='' # ?v)" using k(3) x by (simp add: comment_line_def)
  have s: "strip1 ?k = ?k" using k(1) by (intro strip1_id) (auto simp: ini_token_def)
  have l: "length (?k @ CHR ''='' # ?v) < npos" using assms(2) by (simp add: IniEntry)
  show ?thesis
    using ini_line_eq [OF eq c l, of items] k v not_blank_token [OF k(1)] not_blank_token [OF v(1)]
    by (simp add: IniEntry s strip1_value first_token_spaced)
qed

lemma part_no_lf: "part_ok p \<Longrightarrow> LF \<notin> set (render_part p) \<and> NUL \<notin> set (render_part p)"
  by (cases p) (auto simp: ini_key_def ini_token_def)

lemma render_no_nul: "list_all part_ok ps \<Longrightarrow> NUL \<notin> set (render_ini ps)"
  by (induction ps rule: render_ini.induct) (simp_all add: part_no_lf)

lemma ini_lines_rendered:
  assumes "list_all part_ok ps" "length (render_ini ps) < npos"
  shows "ini_lines (getlines (render_ini ps)) items =
    Inr (foldl (\<lambda>m (k, v). um_insert m k v) items (map (\<lambda>(k, v). (k, AnyString v)) (ini_entries ps)))"
  using assms
proof (induction ps arbitrary: items rule: render_ini.induct)
  case (2 p)
  show ?case
  proof (cases "render_part p = []")
    case True
    then have "part_entries p = []" by (cases p) auto
    with True show ?thesis by simp
  next
    case False
    with 2 part_no_lf [of p] ini_line_part [of p items] show ?thesis by (simp add: getlines_last)
  qed
next
  case (3 p q ps)
  then have "getlines (render_ini (p # q # ps)) = render_part p # getlines (render_ini (q # ps))"
    using part_no_lf [of p] by (simp add: getlines_line)
  with 3 ini_line_part [of p items] show ?case by simp
qed simp

lemma foldl_insert_not_empty:
  "m \<noteq> [] \<Longrightarrow> foldl (\<lambda>m (k, v). um_insert m k v) m kvs \<noteq> []"
  by (induction kvs rule: rev_induct) (simp_all add: case_prod_unfold)

lemma map_of_AnyString: "map_of (map (\<lambda>(k, v). (k, AnyString v)) kvs) k = map_option AnyString (map_of kvs k)"
  by (induction kvs) (simp_all add: case_prod_unfold)

lemma parse_render:
  assumes "ini_file ps" "um_ok items"
  shows "\<exists>m. IniConfigParse_parse (render_ini ps) items = Inr (True, m) \<and> um_ok m
    \<and> (\<forall>k. um_find m k =
          (case um_find items k of None \<Rightarrow> map_option AnyString (map_of (ini_entries ps) k) | Some v \<Rightarrow> Some v))"
proof -
  let ?kvs = "map (\<lambda>(k, v). (k, AnyString v)) (ini_entries ps)"
  let ?m = "foldl (\<lambda>m (k, v). um_insert m k v) items ?kvs"
  have ps: "list_all part_ok ps" "ini_entries ps \<noteq> []" "length (render_ini ps) < npos"
    using assms(1) by (simp_all add: ini_file_def)
  obtain k v kvs where kvs: "ini_entries ps = (k, v) # kvs" using ps(2) by (cases "ini_entries ps") auto
  have ne: "?m \<noteq> []" by (simp add: kvs foldl_insert_not_empty)
  have "render_ini ps \<noteq> []"
  proof
    assume "render_ini ps = []"
    with ini_lines_rendered [OF ps(1,3), of "[]"] have "foldl (\<lambda>m (k, v). um_insert m k v) [] ?kvs = []" by simp
    then show False by (simp add: kvs foldl_insert_not_empty)
  qed
  then have "IniConfigParse_parse (render_ini ps) items = Inr (True, ?m)"
    using ne ini_lines_rendered [OF ps(1,3), of items] by (simp add: IniConfigParse_parse_def)
  moreover have "um_ok ?m" using assms(2) by (rule um.ok_fold)
  ultimately show ?thesis
    using um.lookup_fold [OF assms(2), of ?kvs] by (simp add: map_of_AnyString split: option.split)
qed

text \<open>C22. Reading a written configuration gives its entries back, with comments, blank lines, spaces
  around keys and values, carriage returns, and with or without a final line feed: the parse
  succeeds, and a key looked up afterwards has the value it had before the parse, if any, and
  otherwise the value of its first entry.\<close>

theorem ini_parse_render:
  assumes "ini_file ps" "um_ok items"
  shows "\<exists>m. IniConfigParse_parse (render_ini ps) items = Inr (True, m) \<and> um_ok m
    \<and> (\<forall>k. um_find m k =
          (case um_find items k of None \<Rightarrow> map_option AnyString (map_of (ini_entries ps) k) | Some v \<Rightarrow> Some v))"
  using assms by (rule parse_render)

definition spaced_file :: "ini_part list" where
  "spaced_file = [IniText ''# a=b'', IniEntry 1 ''log_dir'' 2 1 ''../log/'' 3 True, IniText [CR],
     IniEntry 0 ''log_dir'' 0 0 ''/tmp/'' 0 False, IniText '''']"

theorem ini_parse_render_witness:
  "\<exists>m. IniConfigParse_parse (render_ini spaced_file) [] = Inr (True, m) \<and> um_ok m
    \<and> (\<forall>k. um_find m k = (case um_find [] k of
          None \<Rightarrow> map_option AnyString (map_of (ini_entries spaced_file) k) | Some v \<Rightarrow> Some v))"
  by (rule ini_parse_render)
    (simp_all add: spaced_file_def ini_file_def comment_line_def ini_key_def ini_token_def npos_def)

end
