(* ===== verification/Fifo.thy ===== *)
theory Fifo
  imports Prelude
begin

text \<open>
  The contract of a blocking queue, as a locale: \<open>put\<close> and \<open>take\<close> return \<open>None\<close> where the
  calling thread would block. Every operation of the sources' queues runs under the queue's
  mutex, so the executions of any number of threads are the sequences of completed
  operations; \<open>q_trace\<close> is the relation of such a sequence. The locale proves once that no
  element is lost, duplicated or reordered in any of them.
\<close>

datatype 'a q_event = Put 'a | Take 'a

fun puts :: "'a q_event list \<Rightarrow> 'a list" where
  "puts [] = []"
| "puts (Put x # es) = x # puts es"
| "puts (Take x # es) = puts es"

fun takes :: "'a q_event list \<Rightarrow> 'a list" where
  "takes [] = []"
| "takes (Put x # es) = takes es"
| "takes (Take x # es) = x # takes es"

inductive q_trace ::
  "('q \<Rightarrow> 'a \<Rightarrow> 'q option) \<Rightarrow> ('q \<Rightarrow> ('a \<times> 'q) option) \<Rightarrow> 'q \<Rightarrow> 'a q_event list \<Rightarrow> 'q \<Rightarrow> bool"
  for put tk where
  q_nil: "q_trace put tk q [] q"
| q_put: "put q x = Some q1 \<Longrightarrow> q_trace put tk q1 es q2 \<Longrightarrow> q_trace put tk q (Put x # es) q2"
| q_take: "tk q = Some (x, q1) \<Longrightarrow> q_trace put tk q1 es q2 \<Longrightarrow> q_trace put tk q (Take x # es) q2"

inductive_cases q_trace_nilE [elim!]: "q_trace put tk q [] q'"
inductive_cases q_trace_putE [elim]: "q_trace put tk q (Put x # es) q'"
inductive_cases q_trace_takeE [elim]: "q_trace put tk q (Take x # es) q'"

locale fifo =
  fixes put :: "'q \<Rightarrow> 'a \<Rightarrow> 'q option"
    and tk :: "'q \<Rightarrow> ('a \<times> 'q) option"
    and contents :: "'q \<Rightarrow> 'a list"
    and ok :: "'q \<Rightarrow> bool"
  assumes put_contents: "ok q \<Longrightarrow> put q x = Some q' \<Longrightarrow> ok q' \<and> contents q' = contents q @ [x]"
    and take_contents: "ok q \<Longrightarrow> tk q = Some (x, q') \<Longrightarrow> ok q' \<and> contents q = x # contents q'"
    and take_blocks: "ok q \<Longrightarrow> tk q = None \<longleftrightarrow> contents q = []"
begin

lemma trace_ok: "q_trace put tk q es q' \<Longrightarrow> ok q \<Longrightarrow> ok q'"
  by (induction rule: q_trace.induct) (auto dest: put_contents take_contents)

text \<open>Conservation: what was taken, then what is left, is what was there, then what was put.\<close>

lemma trace_conserves:
  "q_trace put tk q es q' \<Longrightarrow> ok q \<Longrightarrow> takes es @ contents q' = contents q @ puts es"
proof (induction rule: q_trace.induct)
  case (q_nil q)
  then show ?case by simp
next
  case (q_put q x q1 es q2)
  with put_contents [of q x q1] show ?case by simp
next
  case (q_take q x q1 es q2)
  with take_contents [of q x q1] show ?case by simp
qed

lemma trace_empty_conserves:
  "q_trace put tk q es q' \<Longrightarrow> ok q \<Longrightarrow> contents q = [] \<Longrightarrow> takes es @ contents q' = puts es"
  using trace_conserves [of q es q'] by simp

lemma take_enabled: "ok q \<Longrightarrow> contents q = x # xs \<Longrightarrow> \<exists>q'. tk q = Some (x, q') \<and> contents q' = xs"
  using take_blocks [of q] take_contents [of q] by (cases "tk q") auto

end

text \<open>A queue with a capacity: \<open>put\<close> blocks exactly when it is full, and never overfills it.\<close>

locale bounded_fifo = fifo put tk contents ok
  for put :: "'q \<Rightarrow> 'a \<Rightarrow> 'q option" and tk contents ok +
  fixes cap :: "'q \<Rightarrow> nat"
  assumes put_blocks: "ok q \<Longrightarrow> put q x = None \<longleftrightarrow> length (contents q) = cap q"
    and put_cap: "ok q \<Longrightarrow> put q x = Some q' \<Longrightarrow> cap q' = cap q"
    and take_cap: "ok q \<Longrightarrow> tk q = Some (x, q') \<Longrightarrow> cap q' = cap q"
    and ok_cap: "ok q \<Longrightarrow> length (contents q) \<le> cap q"
begin

lemma trace_cap: "q_trace put tk q es q' \<Longrightarrow> ok q \<Longrightarrow> cap q' = cap q"
proof (induction rule: q_trace.induct)
  case (q_nil q)
  then show ?case by simp
next
  case (q_put q x q1 es q2)
  then show ?case using put_cap [of q x q1] put_contents [of q x q1] by simp
next
  case (q_take q x q1 es q2)
  then show ?case using take_cap [of q x q1] take_contents [of q x q1] by simp
qed

lemma trace_bounded:
  assumes "q_trace put tk q es q'" and "ok q"
  shows "length (contents q') \<le> cap q"
  using ok_cap [OF trace_ok [OF assms]] trace_cap [OF assms] by simp

lemma never_stuck: "ok q \<Longrightarrow> 0 < cap q \<Longrightarrow> put q x \<noteq> None \<or> tk q \<noteq> None"
  using put_blocks [of q x] take_blocks [of q] by auto

end

end
