(* ===== verification/LogQueue.thy ===== *)
theory LogQueue
  imports Fifo
begin

text \<open>
  \<^verbatim>\<open>include/log/log_queue.h\<close>: the queue between the threads that log and the writer thread.
  First the operations as they act on the queue (each under \<^verbatim>\<open>_mutex\<close>), then the monitor
  itself: the consumer's \<^verbatim>\<open>_notEmpty.wait\<close> as it locks, evaluates its predicate, blocks and is
  woken, interleaved with the producers' \<^verbatim>\<open>push\<close>, their later \<^verbatim>\<open>notify_one\<close>, and the
  destructor, which does not take the mutex.
\<close>

section \<open>The queue\<close>

record 'a LogQueue =
  lq_que :: "'a list"
  lq_isExit :: bool

definition LogQueue_new :: "'a LogQueue" where
  "LogQueue_new = \<lparr>lq_que = [], lq_isExit = False\<rparr>"

definition LogQueue_push :: "'a LogQueue \<Rightarrow> 'a \<Rightarrow> 'a LogQueue" where
  "LogQueue_push q msg = q\<lparr>lq_que := lq_que q @ [msg]\<rparr>"

text \<open>The predicate \<^verbatim>\<open>_que.size() || _isExit\<close> of the wait.\<close>

definition LogQueue_ready :: "'a LogQueue \<Rightarrow> bool" where
  "LogQueue_ready q \<longleftrightarrow> lq_que q \<noteq> [] \<or> lq_isExit q"

text \<open>\<open>None\<close>: the caller blocks. \<open>d\<close> is \<^verbatim>\<open>T()\<close>, the value returned once the queue is exiting.\<close>

definition LogQueue_pop :: "'a \<Rightarrow> 'a LogQueue \<Rightarrow> ('a \<times> 'a LogQueue) option" where
  "LogQueue_pop d q =
     (if \<not> LogQueue_ready q then None
      else if lq_isExit q then Some (d, q)
      else Some (hd (lq_que q), q\<lparr>lq_que := tl (lq_que q)\<rparr>))"

text \<open>The destructor's write; its \<^verbatim>\<open>notify_one\<close> is a step of the monitor below.\<close>

definition LogQueue_exit :: "'a LogQueue \<Rightarrow> 'a LogQueue" where
  "LogQueue_exit q = q\<lparr>lq_isExit := True\<rparr>"

interpretation lq: fifo "\<lambda>q x. Some (LogQueue_push q x)" "LogQueue_pop d" lq_que
  "\<lambda>q. \<not> lq_isExit q" for d
  by unfold_locales
    (auto simp: LogQueue_push_def LogQueue_pop_def LogQueue_ready_def split: if_splits)

lemma pop_exiting: "lq_isExit q \<Longrightarrow> LogQueue_pop d q = Some (d, q)"
  by (simp add: LogQueue_pop_def LogQueue_ready_def)

section \<open>The monitor\<close>

text \<open>
  Where the consumer is in \<^verbatim>\<open>pop\<close>: outside it, holding the mutex with the predicate still to be
  evaluated, holding it after the predicate was false, asleep on \<^verbatim>\<open>_notEmpty\<close>, or woken and
  waiting for the mutex.
\<close>

datatype consumer_pc = Outside | Locked | PredFalse | Asleep | Woken

text \<open>
  \<open>m_notify\<close> counts the threads that have released the mutex (or, for the destructor, have
  set \<^verbatim>\<open>_isExit\<close>) and have their \<^verbatim>\<open>notify_one\<close> still to call. \<open>m_pushed\<close> and \<open>m_popped\<close>
  are the history of the completed calls.
\<close>

record 'a monitor =
  m_queue :: "'a LogQueue"
  m_pc :: consumer_pc
  m_notify :: nat
  m_pushed :: "'a list"
  m_popped :: "'a list"

definition monitor_init :: "'a monitor" where
  "monitor_init = \<lparr>m_queue = LogQueue_new, m_pc = Outside, m_notify = 0, m_pushed = [], m_popped = []\<rparr>"

definition mutex_free :: "'a monitor \<Rightarrow> bool" where
  "mutex_free s \<longleftrightarrow> m_pc s \<notin> {Locked, PredFalse}"

definition notify_one :: "consumer_pc \<Rightarrow> consumer_pc" where
  "notify_one p = (if p = Asleep then Woken else p)"

text \<open>The steps of producers and consumer while the queue is alive.\<close>

inductive live_step :: "'a \<Rightarrow> 'a monitor \<Rightarrow> 'a monitor \<Rightarrow> bool" for d where
  st_push: "mutex_free s \<Longrightarrow> live_step d s
     (s\<lparr>m_queue := LogQueue_push (m_queue s) x, m_notify := Suc (m_notify s), m_pushed := m_pushed s @ [x]\<rparr>)"
| st_notify: "m_notify s = Suc n \<Longrightarrow> live_step d s (s\<lparr>m_notify := n, m_pc := notify_one (m_pc s)\<rparr>)"
| st_lock: "m_pc s = Outside \<or> m_pc s = Woken \<Longrightarrow> live_step d s (s\<lparr>m_pc := Locked\<rparr>)"
| st_false: "m_pc s = Locked \<Longrightarrow> LogQueue_pop d (m_queue s) = None \<Longrightarrow> live_step d s (s\<lparr>m_pc := PredFalse\<rparr>)"
| st_sleep: "m_pc s = PredFalse \<Longrightarrow> live_step d s (s\<lparr>m_pc := Asleep\<rparr>)"
| st_spurious: "m_pc s = Asleep \<Longrightarrow> live_step d s (s\<lparr>m_pc := Woken\<rparr>)"
| st_return: "m_pc s = Locked \<Longrightarrow> LogQueue_pop d (m_queue s) = Some (x, q) \<Longrightarrow> live_step d s
     (s\<lparr>m_queue := q, m_pc := Outside, m_popped := m_popped s @ [x]\<rparr>)"

text \<open>With the destructor: it writes \<^verbatim>\<open>_isExit\<close> whoever holds the mutex.\<close>

inductive monitor_step :: "'a \<Rightarrow> 'a monitor \<Rightarrow> 'a monitor \<Rightarrow> bool" for d where
  st_live: "live_step d s t \<Longrightarrow> monitor_step d s t"
| st_destroy: "\<not> lq_isExit (m_queue s) \<Longrightarrow>
     monitor_step d s (s\<lparr>m_queue := LogQueue_exit (m_queue s), m_notify := Suc (m_notify s)\<rparr>)"

inductive live_reachable :: "'a \<Rightarrow> 'a monitor \<Rightarrow> bool" for d where
  live_start: "live_reachable d monitor_init"
| live_next: "live_reachable d s \<Longrightarrow> live_step d s t \<Longrightarrow> live_reachable d t"

inductive monitor_reachable :: "'a \<Rightarrow> 'a monitor \<Rightarrow> bool" for d where
  mon_start: "monitor_reachable d monitor_init"
| mon_next: "monitor_reachable d s \<Longrightarrow> monitor_step d s t \<Longrightarrow> monitor_reachable d t"

text \<open>
  The invariant: the queue is the part of what was pushed that was not popped; a consumer
  that saw the predicate false still sees an empty queue (the mutex keeps producers out); and
  a consumer asleep beside a non-empty queue has a \<^verbatim>\<open>notify_one\<close> still to come.
\<close>

definition monitor_inv :: "'a monitor \<Rightarrow> bool" where
  "monitor_inv s \<longleftrightarrow>
     \<not> lq_isExit (m_queue s)
     \<and> m_popped s @ lq_que (m_queue s) = m_pushed s
     \<and> (m_pc s = PredFalse \<longrightarrow> lq_que (m_queue s) = [])
     \<and> (m_pc s = Asleep \<and> lq_que (m_queue s) \<noteq> [] \<longrightarrow> 0 < m_notify s)"

lemmas monitor_defs = LogQueue_push_def LogQueue_pop_def LogQueue_ready_def LogQueue_exit_def
  LogQueue_new_def mutex_free_def notify_one_def

lemma monitor_inv_init: "monitor_inv monitor_init"
  by (simp add: monitor_inv_def monitor_init_def monitor_defs)

lemma live_step_inv: "live_step d s t \<Longrightarrow> monitor_inv s \<Longrightarrow> monitor_inv t"
  by (induction rule: live_step.induct)
    (auto simp: monitor_inv_def monitor_defs split: if_splits)

lemma live_reachable_inv: "live_reachable d s \<Longrightarrow> monitor_inv s"
  by (induction rule: live_reachable.induct) (auto intro: monitor_inv_init live_step_inv)

text \<open>C29. Every message leaves the log queue once and in order: in every interleaving of the
  logging threads with the consumer, what was popped followed by what is queued is what was
  pushed.\<close>

theorem log_queue_conserves:
  assumes "live_reachable d s"
  shows "m_popped s @ lq_que (m_queue s) = m_pushed s"
  using live_reachable_inv [OF assms] by (simp add: monitor_inv_def)

text \<open>C30. No wakeup is lost while the queue is alive: a consumer that sleeps although a message is
  queued always has a producer's \<open>notify_one\<close> still to come.\<close>

theorem log_queue_no_lost_wakeup:
  assumes "live_reachable d s" and "m_pc s = Asleep" and "lq_que (m_queue s) \<noteq> []"
  shows "\<exists>n t. m_notify s = Suc n \<and> live_step d s t \<and> m_pc t = Woken \<and> m_queue t = m_queue s"
proof -
  from live_reachable_inv [OF assms(1)] assms(2,3) obtain n where n: "m_notify s = Suc n"
    by (auto simp: monitor_inv_def gr0_conv_Suc)
  let ?t = "s\<lparr>m_notify := n, m_pc := notify_one (m_pc s)\<rparr>"
  have "live_step d s ?t" using n by (rule st_notify)
  moreover have "m_pc ?t = Woken" "m_queue ?t = m_queue s"
    using assms(2) by (simp_all add: notify_one_def)
  ultimately show ?thesis using n by blast
qed

text \<open>A run of the live queue: the consumer goes to sleep, then a producer pushes.\<close>

definition asleep_then_push :: "string monitor" where
  "asleep_then_push = \<lparr>m_queue = \<lparr>lq_que = [''m''], lq_isExit = False\<rparr>, m_pc = Asleep,
     m_notify = 1, m_pushed = [''m''], m_popped = []\<rparr>"

lemma asleep_reachable:
  "live_reachable d (monitor_init\<lparr>m_pc := Asleep\<rparr>)"
proof -
  let ?i = "monitor_init"
  have 1: "live_reachable d (?i\<lparr>m_pc := Locked\<rparr>)"
    by (rule live_next [OF live_start], rule st_lock) (simp add: monitor_init_def)
  have 2: "live_reachable d (?i\<lparr>m_pc := PredFalse\<rparr>)"
    using live_next [OF 1, OF st_false] by (simp add: monitor_init_def monitor_defs)
  show ?thesis
    using live_next [OF 2, OF st_sleep] by (simp add: monitor_init_def)
qed

lemma asleep_then_push_reachable: "live_reachable d asleep_then_push"
  using live_next [OF asleep_reachable [of d], OF st_push [where x = "''m''"]]
  by (simp add: monitor_init_def monitor_defs asleep_then_push_def)

theorem log_queue_conserves_witness:
  "m_popped asleep_then_push @ lq_que (m_queue asleep_then_push) = m_pushed asleep_then_push"
  by (rule log_queue_conserves [OF asleep_then_push_reachable [of "[]"]])

theorem log_queue_no_lost_wakeup_witness:
  "\<exists>n t. m_notify asleep_then_push = Suc n \<and> live_step [] asleep_then_push t
     \<and> m_pc t = Woken \<and> m_queue t = m_queue asleep_then_push"
  by (rule log_queue_no_lost_wakeup [OF asleep_then_push_reachable])
    (simp_all add: asleep_then_push_def)

section \<open>The destructor\<close>

lemma live_monitor_reachable: "live_reachable d s \<Longrightarrow> monitor_reachable d s"
  by (induction rule: live_reachable.induct) (auto intro: mon_start mon_next st_live)

text \<open>C31. The destructor sets \<open>_isExit\<close> without the mutex, so its wakeup can be lost: a
  reachable state has the queue exiting, no \<open>notify_one\<close> left to come, and the consumer asleep
  although the predicate it waits for is true.\<close>

theorem log_queue_destructor_lost_wakeup:
  "\<exists>s. monitor_reachable d s \<and> lq_isExit (m_queue s) \<and> LogQueue_ready (m_queue s)
     \<and> m_notify s = 0 \<and> m_pc s = Asleep"
proof -
  let ?e = "monitor_init\<lparr>m_queue := LogQueue_exit LogQueue_new\<rparr>"
  have 1: "live_reachable d (monitor_init\<lparr>m_pc := Locked\<rparr>)"
    by (rule live_next [OF live_start], rule st_lock) (simp add: monitor_init_def)
  have "live_reachable d (monitor_init\<lparr>m_pc := PredFalse\<rparr>)"
    using live_next [OF 1, OF st_false] by (simp add: monitor_init_def monitor_defs)
  then have 2: "monitor_reachable d (monitor_init\<lparr>m_pc := PredFalse\<rparr>)"
    by (rule live_monitor_reachable)
  have 3: "monitor_reachable d (?e\<lparr>m_pc := PredFalse, m_notify := 1\<rparr>)"
    using mon_next [OF 2, OF st_destroy] by (simp add: monitor_init_def monitor_defs)
  have 4: "monitor_reachable d (?e\<lparr>m_pc := PredFalse\<rparr>)"
    using mon_next [OF 3, OF st_live, OF st_notify [of _ 0]] by (simp add: monitor_init_def monitor_defs)
  have 5: "monitor_reachable d (?e\<lparr>m_pc := Asleep\<rparr>)"
    using mon_next [OF 4, OF st_live, OF st_sleep] by (simp add: monitor_init_def)
  show ?thesis
    by (rule exI, rule conjI, rule 5) (simp add: monitor_init_def monitor_defs)
qed

end
