(* ===== verification/Logger.thy ===== *)
theory Logger
  imports LogQueue
begin

text \<open>
  \<^verbatim>\<open>include/log/logger.h\<close> and \<^verbatim>\<open>src/log/logger.cpp\<close>: the logger singleton, the macros
  \<^verbatim>\<open>RPC_INFO\<close> and \<^verbatim>\<open>RPC_ERR\<close> with their fixed buffers, and the writer thread that the
  constructor starts, as a step relation over the log files. The directory's date
  (\<^verbatim>\<open>strftime\<close> of the current time) and which files \<^verbatim>\<open>fopen\<close> can open come from outside.
\<close>

section \<open>The logger object\<close>

datatype LogLevel = UNKNOW | INFO | ERROR

fun LogLevel_code :: "LogLevel \<Rightarrow> int" where
  "LogLevel_code UNKNOW = 0"
| "LogLevel_code INFO = 1"
| "LogLevel_code ERROR = 2"

record Logger =
  lg_logQue :: "string LogQueue"
  lg_level :: int
  lg_logPath :: string

text \<open>A static object: zero-initialised, with an empty queue and path.\<close>

definition Logger_new :: Logger where
  "Logger_new = \<lparr>lg_logQue = LogQueue_new, lg_level = 0, lg_logPath = []\<rparr>"

definition Logger_setLevel :: "Logger \<Rightarrow> int \<Rightarrow> Logger" where
  "Logger_setLevel l level =
     (if level < LogLevel_code UNKNOW \<or> level > LogLevel_code ERROR then l else l\<lparr>lg_level := level\<rparr>)"

definition Logger_getLevel :: "Logger \<Rightarrow> int" where
  "Logger_getLevel l = lg_level l"

definition Logger_setPath :: "Logger \<Rightarrow> string \<Rightarrow> Logger" where
  "Logger_setPath l path = l\<lparr>lg_logPath := path\<rparr>"

definition Logger_getPath :: "Logger \<Rightarrow> string" where
  "Logger_getPath l = lg_logPath l"

definition Logger_log :: "Logger \<Rightarrow> string \<Rightarrow> Logger" where
  "Logger_log l msg = l\<lparr>lg_logQue := LogQueue_push (lg_logQue l) msg\<rparr>"

definition level_ok :: "Logger \<Rightarrow> bool" where
  "level_ok l \<longleftrightarrow> lg_level l \<in> {0, 1, 2}"

lemma level_ok_setLevel: "level_ok l \<Longrightarrow> level_ok (Logger_setLevel l v)"
  by (auto simp: level_ok_def Logger_setLevel_def)

section \<open>The logging macros\<close>

text \<open>
  \<open>tag\<close> is \<^verbatim>\<open>INFO\<close> or \<^verbatim>\<open>ERROR\<close>; \<open>tm\<close> is the formatted time; \<open>msg\<close> is what the format
  and its arguments denote before any truncation. The message goes through a 512-byte buffer
  and then, with its prefix, through one of 1024 bytes. The result is the logger and what is
  printed on the standard output.
\<close>

fun level_tag :: "LogLevel \<Rightarrow> string" where
  "level_tag UNKNOW = []"
| "level_tag INFO = ''INFO''"
| "level_tag ERROR = ''ERROR''"

definition log_line :: "LogLevel \<Rightarrow> string \<Rightarrow> string \<Rightarrow> nat \<Rightarrow> string \<Rightarrow> string" where
  "log_line lv tm file line msg =
     (let formatBuf = snprintf_s 512 msg
      in snprintf_s 1024 (''['' @ tm @ ''][''  @ level_tag lv @ ''][''  @ file @ '' #'' @ dec line @ ''] '' @ formatBuf))"

definition RPC_LOG :: "LogLevel \<Rightarrow> string \<Rightarrow> string \<Rightarrow> nat \<Rightarrow> string \<Rightarrow> Logger \<Rightarrow> Logger \<times> string" where
  "RPC_LOG lv tm file line msg l =
     (let l = Logger_setLevel l (LogLevel_code lv);
          buf = log_line lv tm file line msg
      in (Logger_log l buf, buf))"

definition RPC_INFO :: "string \<Rightarrow> string \<Rightarrow> nat \<Rightarrow> string \<Rightarrow> Logger \<Rightarrow> Logger \<times> string" where
  "RPC_INFO = RPC_LOG INFO"

definition RPC_ERR :: "string \<Rightarrow> string \<Rightarrow> nat \<Rightarrow> string \<Rightarrow> Logger \<Rightarrow> Logger \<times> string" where
  "RPC_ERR = RPC_LOG ERROR"

text \<open>
  Components that log return the macro calls they make, level and formatted message, in order;
  \<open>log_all\<close> is their effect on the logger.
\<close>

type_synonym log_calls = "(LogLevel \<times> string) list"

fun log_all :: "string \<Rightarrow> string \<Rightarrow> nat \<Rightarrow> log_calls \<Rightarrow> Logger \<Rightarrow> Logger" where
  "log_all tm file line [] l = l"
| "log_all tm file line ((lv, m) # cs) l = log_all tm file line cs (fst (RPC_LOG lv tm file line m l))"

lemma log_line_bound: "length (log_line lv tm file line msg) < 1024"
  by (simp add: log_line_def Let_def snprintf_length)

lemma log_line_not_empty: "log_line lv tm file line msg \<noteq> []"
  by (simp add: log_line_def Let_def snprintf_s_def cstr_def)

lemma level_tag_length: "length (level_tag lv) \<le> 5"
  by (cases lv) simp_all

lemma level_tag_no_nul: "NUL \<notin> set (level_tag lv)"
  by (cases lv) simp_all

definition log_prefix :: "LogLevel \<Rightarrow> string \<Rightarrow> string \<Rightarrow> nat \<Rightarrow> string" where
  "log_prefix lv tm file line = ''['' @ tm @ ''][''  @ level_tag lv @ ''][''  @ file @ '' #'' @ dec line @ ''] ''"

lemma log_prefix_no_nul: "NUL \<notin> set (tm @ file) \<Longrightarrow> NUL \<notin> set (log_prefix lv tm file line)"
  using dec_no_nul level_tag_no_nul by (auto simp: log_prefix_def simp del: dec.simps)

lemma log_prefix_length:
  assumes "length tm \<le> 19" "length file \<le> 470" "line < 1000000"
  shows "length (log_prefix lv tm file line) \<le> 509"
  using assms dec_length [of line 5] level_tag_length [of lv] by (simp add: log_prefix_def)

lemma log_line_cut:
  assumes "NUL \<notin> set (tm @ file)"
  shows "log_line lv tm file line msg = take 1023 (log_prefix lv tm file line @ take 511 (cstr msg))"
proof -
  have "NUL \<notin> set (log_prefix lv tm file line @ take 511 (cstr msg))"
    using log_prefix_no_nul [OF assms] cstr_no_nul [of msg] by (auto dest: in_set_takeD)
  then show ?thesis by (simp add: log_line_def Let_def snprintf_s_def log_prefix_def del: take_append)
qed

lemma RPC_LOG_effect:
  "RPC_LOG lv tm file line msg l = (l', out) \<Longrightarrow>
     out = log_line lv tm file line msg \<and> lq_que (lg_logQue l') = lq_que (lg_logQue l) @ [out] \<and> lg_level l' = LogLevel_code lv"
  by (cases lv) (auto simp: RPC_LOG_def Let_def Logger_log_def Logger_setLevel_def LogQueue_push_def)

text \<open>C32. The log macros never overrun their buffers of 512 and 1024 bytes, whatever the length of the message, of
  the file name and of the line number: what is printed and queued is the prefix and the first 511 bytes of the message's C
  string, cut at 1023 bytes, and nothing else. With a time stamp of at most 19 bytes, a file name of at most 470 and a line
  number of at most 6 digits the second cut never happens, so a message of at most 511 bytes is logged whole. The level is set to
  the macro's own.\<close>

theorem rpc_log_whole_message:
  assumes "NUL \<notin> set (tm @ file)" "RPC_LOG lv tm file line msg l = (l', out)"
    and "prefix = ''['' @ tm @ ''][''  @ level_tag lv @ ''][''  @ file @ '' #'' @ dec line @ ''] ''"
  shows "lq_que (lg_logQue l') = lq_que (lg_logQue l) @ [out] \<and> lg_level l' = LogLevel_code lv
    \<and> out = take 1023 (prefix @ take 511 (cstr msg)) \<and> length out < 1024
    \<and> (length tm \<le> 19 \<and> length file \<le> 470 \<and> line < 1000000 \<longrightarrow> out = prefix @ take 511 (cstr msg)
         \<and> (length msg \<le> 511 \<and> NUL \<notin> set msg \<longrightarrow> out = prefix @ msg))"
proof -
  have p: "prefix = log_prefix lv tm file line" by (simp only: assms(3) log_prefix_def)
  have out: "out = take 1023 (prefix @ take 511 (cstr msg))"
    using RPC_LOG_effect [OF assms(2)] log_line_cut [OF assms(1)] by (simp only: p)
  moreover have "out = prefix @ take 511 (cstr msg)" if "length tm \<le> 19" "length file \<le> 470" "line < 1000000"
    unfolding out using log_prefix_length [OF that, of lv] by (intro take_all) (simp add: p)
  moreover have "take 511 (cstr msg) = msg" if "length msg \<le> 511" "NUL \<notin> set msg"
    using that by (simp add: cstr_id)
  moreover have "length out < 1024" by (simp add: out)
  ultimately show ?thesis using RPC_LOG_effect [OF assms(2)] by auto
qed

text \<open>A message of 600 bytes: the first 511 are logged.\<close>

theorem rpc_log_whole_message_witness:
  "\<exists>l' out. RPC_LOG ERROR ''2025-05-01 00:00:00'' ''src/rpc_config.cpp'' 64 (replicate 600 CHR ''x'') Logger_new = (l', out)
      \<and> lq_que (lg_logQue l') = [out] \<and> lg_level l' = 2
      \<and> out = ''[2025-05-01 00:00:00][ERROR][src/rpc_config.cpp #64] '' @ replicate 511 CHR ''x''"
proof -
  obtain l' out where r: "RPC_LOG ERROR ''2025-05-01 00:00:00'' ''src/rpc_config.cpp'' 64 (replicate 600 CHR ''x'') Logger_new = (l', out)"
    by fastforce
  have c: "cstr (replicate 600 CHR ''x'') = replicate 600 CHR ''x''" by (rule cstr_id) simp
  have d: "dec 64 = ''64''" by code_simp
  from rpc_log_whole_message [OF _ r refl] r show ?thesis by (simp add: c d Logger_new_def LogQueue_new_def)
qed

lemma log_all_queue:
  "lq_que (lg_logQue (log_all tm file line cs l)) =
     lq_que (lg_logQue l) @ map (\<lambda>(lv, m). log_line lv tm file line m) cs"
  by (induction cs arbitrary: l)
    (auto simp: RPC_LOG_def Let_def Logger_log_def Logger_setLevel_def LogQueue_push_def)

section \<open>The writer thread\<close>

text \<open>\<^verbatim>\<open>snprintf(fileName, 64, "%s/%s_rpc.log", path, date)\<close>.\<close>

definition log_file_name :: "string \<Rightarrow> string \<Rightarrow> string" where
  "log_file_name path date = snprintf_s 64 (cstr path @ ''/'' @ date @ ''_rpc.log'')"

text \<open>The writer's 64-byte name buffer holds the whole log file name exactly for directories of
  at most 44 bytes; for a longer one the date and suffix are cut, so every day's messages go to
  one file.\<close>

theorem log_file_name_fits_iff:
  assumes "NUL \<notin> set path" "NUL \<notin> set date" "length date = 10"
  shows "log_file_name path date = path @ ''/'' @ date @ ''_rpc.log'' \<longleftrightarrow> length path \<le> 44"
proof -
  have nul: "NUL \<notin> set (path @ ''/'' @ date @ ''_rpc.log'')" using assms by simp
  then have "log_file_name path date = take 63 (path @ ''/'' @ date @ ''_rpc.log'')"
    using assms(1) by (simp add: log_file_name_def snprintf_s_def)
  moreover have "take 63 xs = xs \<longleftrightarrow> length xs \<le> 63" for xs :: string
    by (metis length_take min.absorb_iff2 take_all nle_le)
  ultimately show ?thesis using assms(3) by (simp del: take_append)
qed

theorem log_file_name_fits_iff_witness:
  "log_file_name ''../log/'' ''2025-05-01'' = ''../log/'' @ ''/'' @ ''2025-05-01'' @ ''_rpc.log''
     \<longleftrightarrow> length ''../log/'' \<le> 44"
  by (rule log_file_name_fits_iff) simp_all

text \<open>
  Where the thread is: at the top of its loop, with a file open and about to \<^verbatim>\<open>pop\<close>, after
  the \<^verbatim>\<open>break\<close> (the open file is not closed), or past \<^verbatim>\<open>exit(-1)\<close>, which ends the process.
\<close>

datatype writer_pc = AtTop | FileOpen string | Stopped | ProcessExit

record log_sys =
  ls_logger :: Logger
  ls_date :: string
  ls_pc :: writer_pc
  ls_files :: "string \<Rightarrow> string"
  ls_logged :: "string list"
  ls_written :: "(string \<times> string) list"

definition log_sys_init :: "string \<Rightarrow> log_sys" where
  "log_sys_init date = \<lparr>ls_logger = Logger_new, ls_date = date, ls_pc = AtTop, ls_files = (\<lambda>_. []),
     ls_logged = [], ls_written = []\<rparr>"

text \<open>One step of the writer thread's loop body, as far as its next blocking call.\<close>

definition writer_open :: "(string \<Rightarrow> bool) \<Rightarrow> log_sys \<Rightarrow> log_sys" where
  "writer_open can_open s =
     (let fileName = log_file_name (Logger_getPath (ls_logger s)) (ls_date s)
      in if can_open fileName then s\<lparr>ls_pc := FileOpen fileName\<rparr> else s\<lparr>ls_pc := ProcessExit\<rparr>)"

definition writer_pop :: "string \<Rightarrow> log_sys \<Rightarrow> log_sys option" where
  "writer_pop f s =
     (case LogQueue_pop [] (lg_logQue (ls_logger s)) of
        None \<Rightarrow> None
      | Some (msg, q) \<Rightarrow>
          (let s = s\<lparr>ls_logger := (ls_logger s)\<lparr>lg_logQue := q\<rparr>\<rparr>
           in Some (if msg = [] then s\<lparr>ls_pc := Stopped\<rparr>
                    else s\<lparr>ls_pc := AtTop, ls_files := (ls_files s)(f := ls_files s f @ msg),
                           ls_written := ls_written s @ [(f, msg)]\<rparr>)))"

text \<open>The writer interleaved with the threads that log or set the path, and with the date.\<close>

inductive log_step :: "(string \<Rightarrow> bool) \<Rightarrow> log_sys \<Rightarrow> log_sys \<Rightarrow> bool" for can_open where
  ls_log: "ls_pc s \<noteq> ProcessExit \<Longrightarrow> log_step can_open s
     (s\<lparr>ls_logger := Logger_log (ls_logger s) msg, ls_logged := ls_logged s @ [msg]\<rparr>)"
| ls_setPath: "ls_pc s \<noteq> ProcessExit \<Longrightarrow> log_step can_open s (s\<lparr>ls_logger := Logger_setPath (ls_logger s) p\<rparr>)"
| ls_setLevel: "ls_pc s \<noteq> ProcessExit \<Longrightarrow> log_step can_open s (s\<lparr>ls_logger := Logger_setLevel (ls_logger s) v\<rparr>)"
| ls_midnight: "ls_pc s \<noteq> ProcessExit \<Longrightarrow> log_step can_open s (s\<lparr>ls_date := d\<rparr>)"
| ls_open: "ls_pc s = AtTop \<Longrightarrow> log_step can_open s (writer_open can_open s)"
| ls_pop: "ls_pc s = FileOpen f \<Longrightarrow> writer_pop f s = Some t \<Longrightarrow> log_step can_open s t"

inductive log_reachable :: "(string \<Rightarrow> bool) \<Rightarrow> string \<Rightarrow> log_sys \<Rightarrow> bool" for can_open d0 where
  lr_start: "log_reachable can_open d0 (log_sys_init d0)"
| lr_next: "log_reachable can_open d0 s \<Longrightarrow> log_step can_open s t \<Longrightarrow> log_reachable can_open d0 t"

text \<open>
  The message an ended writer popped last (the empty one) was not written. The invariant:
  written, that message, and queued messages make up the logged ones; each file holds the
  concatenation of what was written to it; only files that can be opened are written.
\<close>

definition writer_dropped :: "log_sys \<Rightarrow> string list" where
  "writer_dropped s = (if ls_pc s = Stopped then [[]] else [])"

definition log_inv :: "(string \<Rightarrow> bool) \<Rightarrow> log_sys \<Rightarrow> bool" where
  "log_inv can_open s \<longleftrightarrow>
     \<not> lq_isExit (lg_logQue (ls_logger s))
     \<and> map snd (ls_written s) @ writer_dropped s @ lq_que (lg_logQue (ls_logger s)) = ls_logged s
     \<and> (\<forall>f. ls_files s f = concat (map snd (filter (\<lambda>w. fst w = f) (ls_written s))))
     \<and> (\<forall>f. ls_pc s = FileOpen f \<longrightarrow> can_open f)
     \<and> (\<forall>w \<in> set (ls_written s). can_open (fst w) \<and> snd w \<noteq> [])"

lemmas log_defs = Logger_log_def Logger_setPath_def Logger_getPath_def Logger_setLevel_def
  LogQueue_push_def writer_dropped_def log_inv_def

lemma log_inv_init: "log_inv can_open (log_sys_init d)"
  by (simp add: log_defs log_sys_init_def Logger_new_def LogQueue_new_def)

lemma writer_pop_inv:
  assumes "log_inv can_open s" "ls_pc s = FileOpen f" "writer_pop f s = Some t"
  shows "log_inv can_open t"
proof -
  let ?q = "lg_logQue (ls_logger s)"
  from assms(3) obtain msg q where pop: "LogQueue_pop [] ?q = Some (msg, q)"
    by (auto simp: writer_pop_def split: option.splits)
  from assms(1) have "\<not> lq_isExit ?q" by (simp add: log_inv_def)
  with pop lq.take_contents [of ?q "[]" msg q] have "lq_que ?q = msg # lq_que q" "\<not> lq_isExit q"
    by auto
  with assms pop show ?thesis
    by (auto simp: writer_pop_def log_defs Let_def split: if_splits)
qed

lemma log_step_inv: "log_step can_open s t \<Longrightarrow> log_inv can_open s \<Longrightarrow> log_inv can_open t"
proof (induction rule: log_step.induct)
  case (ls_pop s f t)
  then show ?case by (blast intro: writer_pop_inv)
next
  case (ls_open s)
  then show ?case by (auto simp: writer_open_def log_defs Let_def)
qed (auto simp: log_defs)

lemma log_reachable_inv: "log_reachable can_open d s \<Longrightarrow> log_inv can_open s"
  by (induction rule: log_reachable.induct) (auto intro: log_inv_init log_step_inv)


text \<open>C33. No logged message is lost, duplicated or reordered on its way to the files, however the
  writer interleaves with the logging threads: while the writer runs, the messages written so far
  followed by the queue are the messages logged, and each file holds exactly what was written to
  it, in that order.\<close>

theorem log_messages_reach_files:
  assumes "log_reachable can_open d s" and "ls_pc s \<noteq> Stopped"
  shows "map snd (ls_written s) @ lq_que (lg_logQue (ls_logger s)) = ls_logged s
    \<and> (\<forall>f. ls_files s f = concat (map snd (filter (\<lambda>w. fst w = f) (ls_written s))))"
  using log_reachable_inv [OF assms(1)] assms(2) by (simp add: log_inv_def writer_dropped_def)

text \<open>The writer thread ends only on an empty message: as long as every logged message is
  non-empty, which the macros guarantee, it never stops.\<close>

theorem writer_stops_only_on_empty:
  assumes "log_reachable can_open d s" and "[] \<notin> set (ls_logged s)"
  shows "ls_pc s \<noteq> Stopped"
proof
  assume "ls_pc s = Stopped"
  with log_reachable_inv [OF assms(1)] have "[] \<in> set (ls_logged s)"
    by (auto simp: log_inv_def writer_dropped_def dest!: arg_cong [where f = set])
  with assms(2) show False by contradiction
qed

lemmas log_run_simps = log_sys_init_def Logger_new_def LogQueue_new_def log_defs
  writer_open_def writer_pop_def LogQueue_pop_def LogQueue_ready_def Let_def

text \<open>A run: a message is logged, the file of day \<open>d\<close> is opened, the date changes, and only
  then is the message taken and written.\<close>

definition stale_run :: "string \<Rightarrow> string \<Rightarrow> string \<Rightarrow> log_sys" where
  "stale_run d d' m = \<lparr>ls_logger = Logger_new, ls_date = d', ls_pc = AtTop,
     ls_files = (\<lambda>_. [])(log_file_name [] d := m), ls_logged = [m],
     ls_written = [(log_file_name [] d, m)]\<rparr>"

lemma stale_reachable:
  assumes "can_open (log_file_name [] d)" "m \<noteq> []"
  shows "log_reachable can_open d (stale_run d d' m)"
proof -
  let ?f = "log_file_name [] d"
  let ?s1 = "(log_sys_init d)\<lparr>ls_pc := FileOpen ?f\<rparr>"
  let ?s2 = "?s1\<lparr>ls_date := d'\<rparr>"
  let ?s3 = "?s2\<lparr>ls_logger := Logger_log Logger_new m, ls_logged := [m]\<rparr>"
  have 1: "log_reachable can_open d ?s1"
    using lr_next [OF lr_start, OF ls_open, of d can_open] assms(1) by (simp add: log_run_simps)
  have 2: "log_reachable can_open d ?s2"
    using lr_next [OF 1, OF ls_midnight] by (simp add: log_run_simps)
  have 3: "log_reachable can_open d ?s3"
    using lr_next [OF 2, OF ls_log] by (simp add: log_run_simps)
  have "log_step can_open ?s3 (stale_run d d' m)"
    by (rule ls_pop [of _ ?f]) (simp_all add: log_run_simps stale_run_def assms(2) fun_upd_def)
  with 3 show ?thesis by (rule lr_next)
qed

theorem log_messages_reach_files_witness:
  "map snd (ls_written (stale_run ''2025-05-01'' ''2025-05-02'' ''m''))
     @ lq_que (lg_logQue (ls_logger (stale_run ''2025-05-01'' ''2025-05-02'' ''m'')))
     = ls_logged (stale_run ''2025-05-01'' ''2025-05-02'' ''m'')
   \<and> (\<forall>f. ls_files (stale_run ''2025-05-01'' ''2025-05-02'' ''m'') f
        = concat (map snd (filter (\<lambda>w. fst w = f) (ls_written (stale_run ''2025-05-01'' ''2025-05-02'' ''m'')))))"
  by (rule log_messages_reach_files [where can_open = "\<lambda>_. True" and d = "''2025-05-01''"])
    (rule stale_reachable, simp_all add: stale_run_def)

theorem writer_stops_only_on_empty_witness:
  "ls_pc (stale_run ''2025-05-01'' ''2025-05-02'' ''m'') \<noteq> Stopped"
  by (rule writer_stops_only_on_empty [where can_open = "\<lambda>_. True" and d = "''2025-05-01''"])
    (rule stale_reachable, simp_all add: stale_run_def)

text \<open>The writer chooses its file before it waits for a message, so a message logged after
  midnight can go to the previous day's file: for any two dates a reachable state has written a
  message, logged on the second date, to the file of the first.\<close>

theorem log_date_is_stale:
  assumes "can_open (log_file_name [] d)" "m \<noteq> []"
  shows "\<exists>s t. log_reachable can_open d s \<and> ls_date s = d' \<and> ls_logged s = []
    \<and> log_step can_open s (s\<lparr>ls_logger := Logger_log (ls_logger s) m, ls_logged := [m]\<rparr>)
    \<and> log_step can_open (s\<lparr>ls_logger := Logger_log (ls_logger s) m, ls_logged := [m]\<rparr>) t
    \<and> ls_written t = [(log_file_name (Logger_getPath (ls_logger s)) d, m)]"
proof -
  let ?f = "log_file_name [] d"
  let ?s1 = "(log_sys_init d)\<lparr>ls_pc := FileOpen ?f\<rparr>"
  let ?s = "?s1\<lparr>ls_date := d'\<rparr>"
  let ?m = "?s\<lparr>ls_logger := Logger_log (ls_logger ?s) m, ls_logged := [m]\<rparr>"
  have 1: "log_reachable can_open d ?s1"
    using lr_next [OF lr_start, OF ls_open, of d can_open] assms(1) by (simp add: log_run_simps)
  have 2: "log_reachable can_open d ?s"
    using lr_next [OF 1, OF ls_midnight] by (simp add: log_run_simps)
  have 3: "log_step can_open ?s ?m"
    using ls_log [of ?s can_open m] by (simp add: log_run_simps)
  have 4: "log_step can_open ?m (stale_run d d' m)"
    by (rule ls_pop [of _ ?f]) (simp_all add: log_run_simps stale_run_def assms(2) fun_upd_def)
  have "ls_date ?s = d'" "ls_logged ?s = []"
    "ls_written (stale_run d d' m) = [(log_file_name (Logger_getPath (ls_logger ?s)) d, m)]"
    by (simp_all add: log_run_simps stale_run_def)
  with 2 3 4 show ?thesis by blast
qed

theorem log_date_is_stale_witness:
  "\<exists>s t. log_reachable (\<lambda>_. True) ''2025-05-01'' s \<and> ls_date s = ''2025-05-02'' \<and> ls_logged s = []
    \<and> log_step (\<lambda>_. True) s (s\<lparr>ls_logger := Logger_log (ls_logger s) ''m'', ls_logged := [''m'']\<rparr>)
    \<and> log_step (\<lambda>_. True) (s\<lparr>ls_logger := Logger_log (ls_logger s) ''m'', ls_logged := [''m'']\<rparr>) t
    \<and> ls_written t = [(log_file_name (Logger_getPath (ls_logger s)) ''2025-05-01'', ''m'')]"
  by (rule log_date_is_stale) simp_all

text \<open>The writer thread starts with the first use of the logger and opens its file with the
  path it finds then: where the root directory is not writable, it can end the process after the
  first message and before \<open>setPath\<close> is called, whatever directory is configured.\<close>

theorem log_startup_race:
  assumes "\<not> can_open (log_file_name [] d)"
  shows "\<exists>s. log_reachable can_open d s \<and> ls_logged s = [m]
    \<and> log_step can_open s (s\<lparr>ls_logger := Logger_setPath (ls_logger s) p\<rparr>)
    \<and> log_step can_open s (s\<lparr>ls_pc := ProcessExit\<rparr>)"
proof -
  let ?s = "(log_sys_init d)\<lparr>ls_logger := Logger_log Logger_new m, ls_logged := [m]\<rparr>"
  have 1: "log_reachable can_open d ?s"
    using lr_next [OF lr_start, OF ls_log] by (simp add: log_run_simps)
  have 2: "log_step can_open ?s (?s\<lparr>ls_logger := Logger_setPath (ls_logger ?s) p\<rparr>)"
    by (rule ls_setPath) (simp add: log_sys_init_def)
  have "log_step can_open ?s (writer_open can_open ?s)"
    by (rule ls_open) (simp add: log_sys_init_def)
  moreover have "writer_open can_open ?s = ?s\<lparr>ls_pc := ProcessExit\<rparr>"
    using assms by (simp add: log_run_simps)
  ultimately have 3: "log_step can_open ?s (?s\<lparr>ls_pc := ProcessExit\<rparr>)" by simp
  have "ls_logged ?s = [m]" by simp
  with 1 2 3 show ?thesis by blast
qed

theorem log_startup_race_witness:
  "\<exists>s. log_reachable (\<lambda>f. take 7 f = ''../log/'') ''2025-05-01'' s \<and> ls_logged s = [''m'']
    \<and> log_step (\<lambda>f. take 7 f = ''../log/'') s (s\<lparr>ls_logger := Logger_setPath (ls_logger s) ''../log/''\<rparr>)
    \<and> log_step (\<lambda>f. take 7 f = ''../log/'') s (s\<lparr>ls_pc := ProcessExit\<rparr>)"
  by (rule log_startup_race) (simp add: log_file_name_def snprintf_s_def cstr_def)

end
