(* ===== verification/Config.thy ===== *)
theory Config
  imports ConfigParse Logger
begin

text \<open>
  \<^verbatim>\<open>include/rpc_config.h\<close> and \<^verbatim>\<open>src/rpc_config.cpp\<close>: the configuration object, its loading
  from a file and its typed access. The file system is an argument: a path has a content and
  says whether reading it succeeds, or cannot be opened. \<open>err\<close> stands for the \<^verbatim>\<open>errno\<close> text of the log
  messages.
\<close>

datatype FileType = UNKNOW_FILE | INI_FILE | JSON_FILE | YAML_FILE

fun FileType_code :: "FileType \<Rightarrow> int" where
  "FileType_code UNKNOW_FILE = 0"
| "FileType_code INI_FILE = 1"
| "FileType_code JSON_FILE = 2"
| "FileType_code YAML_FILE = 3"

type_synonym file_system = "string \<Rightarrow> (string \<times> bool) option"

record RpcConfig =
  rc_f :: "(string \<times> bool) option"
  rc_configFile :: string
  rc_type :: int
  rc_configItem :: config_items
  rc_configParse :: "RpcConfigParse option"

definition s_configFileType :: "(int, RpcConfigParse) umap" where
  "s_configFileType = [(FileType_code INI_FILE, IniConfigParse), (FileType_code JSON_FILE, JsonConfigParse),
     (FileType_code YAML_FILE, YamlConfigParse)]"

text \<open>The two constructors (the one from \<^verbatim>\<open>const char*\<close> copies up to the NUL), and the destructor's close.\<close>

definition RpcConfig_new :: "string \<Rightarrow> int \<Rightarrow> RpcConfig" where
  "RpcConfig_new file ty = \<lparr>rc_f = None, rc_configFile = file, rc_type = ty, rc_configItem = [],
     rc_configParse = None\<rparr>"

definition RpcConfig_new_cstr :: "string \<Rightarrow> int \<Rightarrow> RpcConfig" where
  "RpcConfig_new_cstr file ty = RpcConfig_new (cstr file) ty"

definition RpcConfig_close :: "RpcConfig \<Rightarrow> RpcConfig" where
  "RpcConfig_close c = (if rc_f c \<noteq> None then c\<lparr>rc_f := None\<rparr> else c)"

definition RpcConfig_setFile :: "RpcConfig \<Rightarrow> string \<Rightarrow> int \<Rightarrow> RpcConfig" where
  "RpcConfig_setFile c file ty = c\<lparr>rc_f := None, rc_configFile := file, rc_type := ty\<rparr>"

definition RpcConfig_getFile :: "RpcConfig \<Rightarrow> string" where
  "RpcConfig_getFile c = rc_configFile c"

section \<open>Loading\<close>

definition open_error :: "string \<Rightarrow> string \<Rightarrow> string" where
  "open_error file err = cstr file @ '' open error! '' @ err @ '' '' @ [LF]"

definition RpcConfig_loadFile ::
  "file_system \<Rightarrow> string \<Rightarrow> RpcConfig \<Rightarrow> bool \<times> RpcConfig \<times> log_calls" where
  "RpcConfig_loadFile fs err c =
     (let c = (if rc_f c \<noteq> None then c\<lparr>rc_f := None\<rparr> else c)
      in if FileType_code UNKNOW_FILE \<ge> rc_type c \<or> rc_type c > FileType_code YAML_FILE
         then (False, c, [(ERROR, ''file type is invalid! '' @ [LF])])
         else let c = c\<lparr>rc_f := fs (rc_configFile c)\<rparr>
         in if rc_f c = None then (False, c, [(ERROR, open_error (rc_configFile c) err)])
         else (True, c\<lparr>rc_configParse := um_find s_configFileType (rc_type c)\<rparr>, []))"

text \<open>\<^verbatim>\<open>_configParse->parse\<close> takes a string made of \<^verbatim>\<open>file_data.data()\<close>, so it ends at the first NUL.\<close>

definition RpcConfig_loadConfigFromFile ::
  "string \<Rightarrow> RpcConfig \<Rightarrow> (bool \<times> RpcConfig \<times> log_calls) res" where
  "RpcConfig_loadConfigFromFile err c =
     (case rc_f c of
        None \<Rightarrow> Inr (False, c, [])
      | Some (file_data, readable) \<Rightarrow>
          if \<not> readable then Inr (False, c, [(ERROR, open_error (rc_configFile c) err)])
          else (case rc_configParse c of
             None \<Rightarrow> Inl NullDeref
           | Some p \<Rightarrow>
               bindR (RpcConfigParse_parse p (cstr file_data) (rc_configItem c)) (\<lambda>(ok, items).
                 let c = c\<lparr>rc_configItem := items\<rparr>
                 in if \<not> ok then Inr (False, c, [(ERROR, ''config load fail! '' @ [LF])])
                    else Inr (True, c, [(INFO, cstr (rc_configFile c) @ '' parse success! size= ''
                            @ dec (length file_data) @ '' '' @ [LF])]))))"

definition RpcConfig_load ::
  "file_system \<Rightarrow> string \<Rightarrow> RpcConfig \<Rightarrow> (bool \<times> RpcConfig \<times> log_calls) res" where
  "RpcConfig_load fs err c =
     (let (ok, c, log1) = RpcConfig_loadFile fs err c
      in if ok then bindR (RpcConfig_loadConfigFromFile err c) (\<lambda>(ok, c, log2). Inr (ok, c, log1 @ log2))
         else Inr (False, c, log1))"

section \<open>Access\<close>

definition RpcConfig_set :: "RpcConfig \<Rightarrow> string \<Rightarrow> any \<Rightarrow> RpcConfig" where
  "RpcConfig_set c key v = c\<lparr>rc_configItem := um_assign (rc_configItem c) key v\<rparr>"

text \<open>\<^verbatim>\<open>get<std::string>\<close>, and \<^verbatim>\<open>get<T>\<close> for an integer type of a signedness and width.\<close>

definition RpcConfig_get :: "RpcConfig \<Rightarrow> string \<Rightarrow> string" where
  "RpcConfig_get c key =
     (case um_find (rc_configItem c) key of
        None \<Rightarrow> []
      | Some (AnyString s) \<Rightarrow> s
      | Some (AnyInt _ _ _) \<Rightarrow> [])"

definition cast_int :: "bool \<Rightarrow> nat \<Rightarrow> int \<Rightarrow> int" where
  "cast_int sgnd w v = (if sgnd then signed_take_bit (w - 1) v else take_bit w v)"

definition RpcConfig_get_int :: "bool \<Rightarrow> nat \<Rightarrow> RpcConfig \<Rightarrow> string \<Rightarrow> int res" where
  "RpcConfig_get_int sgnd w c key =
     (case um_find (rc_configItem c) key of
        None \<Rightarrow> Inr 0
      | Some (AnyInt sgnd' w' v) \<Rightarrow> if sgnd' = sgnd \<and> w' = w then Inr v else Inr 0
      | Some (AnyString s) \<Rightarrow> bindR (stoi s) (\<lambda>v. Inr (cast_int sgnd w v)))"

text \<open>
  \<^verbatim>\<open>get<float>\<close>: no item is a floating number (nothing in the repository sets one), so a string is converted and
  anything else is zero. A float is its zero, its \<^verbatim>\<open>std::stof\<close> and what a stream prints of it.
\<close>

record 'f float_lib =
  fl_zero :: 'f
  fl_stof :: "string \<Rightarrow> 'f res"
  fl_show :: "'f \<Rightarrow> string"

definition RpcConfig_get_float :: "'f float_lib \<Rightarrow> RpcConfig \<Rightarrow> string \<Rightarrow> 'f res" where
  "RpcConfig_get_float fl c key =
     (case um_find (rc_configItem c) key of
        None \<Rightarrow> Inr (fl_zero fl)
      | Some (AnyInt _ _ _) \<Rightarrow> Inr (fl_zero fl)
      | Some (AnyString s) \<Rightarrow> fl_stof fl s)"

section \<open>Correctness\<close>

definition config_ok :: "RpcConfig \<Rightarrow> bool" where
  "config_ok c \<longleftrightarrow> um_ok (rc_configItem c)"

lemma config_ok_new: "config_ok (RpcConfig_new file ty)"
  by (simp add: config_ok_def RpcConfig_new_def)

lemma ini_line_shape:
  "ini_line l items = Inr m \<Longrightarrow> m = items \<or> (\<exists>k v. m = um_insert items k (AnyString v))"
  by (auto simp: ini_line_def Let_def split: if_splits)

lemma ini_lines_keep:
  "ini_lines ls items = Inr m \<Longrightarrow> um_find items k = Some v \<Longrightarrow> um_find m k = Some v"
proof (induction ls arbitrary: items)
  case (Cons l ls)
  then obtain m1 where "ini_line l items = Inr m1" "ini_lines ls m1 = Inr m" by auto
  moreover from ini_line_shape [OF this(1)] Cons.prems(2) have "um_find m1 k = Some v"
    by (auto simp: um_find_insert)
  ultimately show ?case by (intro Cons.IH)
qed simp

lemma ini_lines_ok: "ini_lines ls items = Inr m \<Longrightarrow> um_ok items \<Longrightarrow> um_ok m"
proof (induction ls arbitrary: items)
  case (Cons l ls)
  then obtain m1 where "ini_line l items = Inr m1" "ini_lines ls m1 = Inr m" by auto
  with Cons.IH [of m1] Cons.prems(2) ini_line_shape [of l items m1] show ?case by auto
qed simp

lemma parse_keep:
  "RpcConfigParse_parse p data items = Inr (ok, m) \<Longrightarrow> um_find items k = Some v \<Longrightarrow> um_find m k = Some v"
  by (cases p) (auto simp: IniConfigParse_parse_def JsonConfigParse_parse_def YamlConfigParse_parse_def
      split: if_splits dest: ini_lines_keep)

lemma parse_ok:
  "RpcConfigParse_parse p data items = Inr (ok, m) \<Longrightarrow> um_ok items \<Longrightarrow> um_ok m"
  by (cases p) (auto simp: IniConfigParse_parse_def JsonConfigParse_parse_def YamlConfigParse_parse_def
      split: if_splits dest: ini_lines_ok)

lemma loadFile_items: "RpcConfig_loadFile fs err c = (ok, c', lg) \<Longrightarrow> rc_configItem c' = rc_configItem c"
  by (auto simp: RpcConfig_loadFile_def Let_def split: if_splits)

lemma loadConfig_items:
  "RpcConfig_loadConfigFromFile err c = Inr (ok, c', lg) \<Longrightarrow>
     rc_configItem c' = rc_configItem c
     \<or> (\<exists>p data b. RpcConfigParse_parse p data (rc_configItem c) = Inr (b, rc_configItem c'))"
  by (force simp: RpcConfig_loadConfigFromFile_def Let_def split: option.splits if_splits prod.splits)

lemma load_items:
  assumes "RpcConfig_load fs err c = Inr (ok, c', lg)"
  shows "rc_configItem c' = rc_configItem c
     \<or> (\<exists>p data b. RpcConfigParse_parse p data (rc_configItem c) = Inr (b, rc_configItem c'))"
proof -
  obtain b c1 l1 where 1: "RpcConfig_loadFile fs err c = (b, c1, l1)" by (cases "RpcConfig_loadFile fs err c")
  from loadFile_items [OF this] have i: "rc_configItem c1 = rc_configItem c" .
  show ?thesis
    using assms loadConfig_items [of err c1] i by (auto simp: RpcConfig_load_def 1 split: if_splits)
qed

lemma config_ok_load: "RpcConfig_load fs err c = Inr (ok, c', lg) \<Longrightarrow> config_ok c \<Longrightarrow> config_ok c'"
  using load_items [of fs err c ok c' lg] parse_ok by (auto simp: config_ok_def)

lemma config_ok_set: "config_ok c \<Longrightarrow> config_ok (RpcConfig_set c k v)"
  by (simp add: config_ok_def RpcConfig_set_def)

text \<open>C26. Loading never changes an item that is already there: after a second \<open>load\<close> (with the same
  file edited, or another file set) every item of the first keeps its old value.\<close>

theorem reload_keeps_old_items:
  assumes "RpcConfig_load fs err (RpcConfig_setFile c file ty) = Inr (ok, c', lg)"
    and "um_find (rc_configItem c) k = Some v"
  shows "um_find (rc_configItem c') k = Some v"
  using load_items [OF assms(1)] assms(2) parse_keep by (auto simp: RpcConfig_setFile_def)

definition one_file :: "string \<Rightarrow> string \<Rightarrow> file_system" where
  "one_file f data = (\<lambda>p. if p = f then Some (data, True) else None)"

lemma load_ini:
  assumes "fs (rc_configFile c) = Some (data, True)" "rc_type c = FileType_code INI_FILE"
    and "IniConfigParse_parse (cstr data) (rc_configItem c) = Inr (ok, items)"
  shows "\<exists>c' lg. RpcConfig_load fs err c = Inr (ok, c', lg) \<and> rc_configItem c' = items"
proof -
  let ?c = "c\<lparr>rc_f := Some (data, True), rc_configParse := Some IniConfigParse\<rparr>"
  have "RpcConfig_loadFile fs err c = (True, ?c, [])"
    using assms(1,2) by (auto simp: RpcConfig_loadFile_def Let_def um_find_def s_configFileType_def)
  moreover obtain c' lg where "RpcConfig_loadConfigFromFile err ?c = Inr (ok, c', lg)" "rc_configItem c' = items"
    using assms(3) by (cases ok) (simp_all add: RpcConfig_loadConfigFromFile_def Let_def)
  ultimately show ?thesis by (simp add: RpcConfig_load_def)
qed

lemma load_then_get:
  assumes "ini_file ps" "fs file = Some (render_ini ps, True)"
  shows "\<exists>c lg. RpcConfig_load fs err (RpcConfig_new file (FileType_code INI_FILE)) = Inr (True, c, lg)
    \<and> config_ok c \<and> (\<forall>k. um_find (rc_configItem c) k = map_option AnyString (map_of (ini_entries ps) k))"
proof -
  let ?c0 = "RpcConfig_new file (FileType_code INI_FILE)"
  from parse_render [OF assms(1), of "[]"] obtain m where
    m: "IniConfigParse_parse (render_ini ps) [] = Inr (True, m)" and ok: "um_ok m"
    and find: "\<And>k. um_find m k = map_option AnyString (map_of (ini_entries ps) k)"
    by (auto simp: um_find_empty)
  have "cstr (render_ini ps) = render_ini ps" using render_no_nul [of ps] assms(1) by (simp add: ini_file_def)
  with m assms(2) have "\<exists>c lg. RpcConfig_load fs err ?c0 = Inr (True, c, lg) \<and> rc_configItem c = m"
    by (intro load_ini [where data = "render_ini ps"]) (simp_all only:, simp_all add: RpcConfig_new_def)
  with ok find show ?thesis
    by (auto simp: config_ok_def)
qed

lemma get_found: "um_find (rc_configItem c) k = map_option AnyString v \<Longrightarrow>
    RpcConfig_get c k = (case v of None \<Rightarrow> [] | Some s \<Rightarrow> s)"
  by (cases v) (simp_all add: RpcConfig_get_def)

lemma get_int_dec: "um_find (rc_configItem c) k = Some (AnyString (dec n)) \<Longrightarrow> n < 2 ^ 31 \<Longrightarrow>
    RpcConfig_get_int True 32 c k = Inr (int n)"
  by (simp add: RpcConfig_get_int_def stoi_dec cast_int_def signed_take_bit_int_eq_self)

section \<open>The shipped configuration\<close>

text \<open>\<^verbatim>\<open>default_conf.ini\<close>: its bytes (the comments are in UTF-8), and its lines as read by the parser.\<close>

definition default_conf_text :: string where
  "default_conf_text =
     ''# rpc'' @ [CHR 0xE8, CHR 0x8A, CHR 0x82, CHR 0xE7, CHR 0x82, CHR 0xB9] @ ''IP'' @ [LF]
     @ ''rpc_server_ip=192.168.77.136'' @ [LF]
     @ ''# rpc'' @ [CHR 0xE8, CHR 0x8A, CHR 0x82, CHR 0xE7, CHR 0x82, CHR 0xB9, CHR 0xE7, CHR 0xAB, CHR 0xAF, CHR 0xE5, CHR 0x8F, CHR 0xA3] @ [LF]
     @ ''rpc_server_port=8000'' @ [LF]
     @ ''# zk'' @ [CHR 0xE7, CHR 0x9A, CHR 0x84] @ ''IP'' @ [LF]
     @ ''zookeeper_ip=192.168.77.136'' @ [LF]
     @ ''# zk'' @ [CHR 0xE7, CHR 0x9A, CHR 0x84, CHR 0xE7, CHR 0xAB, CHR 0xAF, CHR 0xE5, CHR 0x8F, CHR 0xA3] @ [LF]
     @ ''zookeepr_port=2181'' @ [LF]
     @ ''# '' @ [CHR 0xE6, CHR 0x97, CHR 0xA5, CHR 0xE5, CHR 0xBF, CHR 0x97, CHR 0xE8, CHR 0xB7, CHR 0xAF, CHR 0xE5, CHR 0xBE, CHR 0x84] @ [LF]
     @ ''log_dir=../log/''"

definition default_conf :: "ini_part list" where
  "default_conf = [IniText (''# rpc'' @ [CHR 0xE8, CHR 0x8A, CHR 0x82, CHR 0xE7, CHR 0x82, CHR 0xB9] @ ''IP''),
     plain_entry ''rpc_server_ip'' ''192.168.77.136'',
     IniText (''# rpc'' @ [CHR 0xE8, CHR 0x8A, CHR 0x82, CHR 0xE7, CHR 0x82, CHR 0xB9, CHR 0xE7, CHR 0xAB, CHR 0xAF, CHR 0xE5, CHR 0x8F, CHR 0xA3]),
     plain_entry ''rpc_server_port'' ''8000'',
     IniText (''# zk'' @ [CHR 0xE7, CHR 0x9A, CHR 0x84] @ ''IP''),
     plain_entry ''zookeeper_ip'' ''192.168.77.136'',
     IniText (''# zk'' @ [CHR 0xE7, CHR 0x9A, CHR 0x84, CHR 0xE7, CHR 0xAB, CHR 0xAF, CHR 0xE5, CHR 0x8F, CHR 0xA3]),
     plain_entry ''zookeepr_port'' ''2181'',
     IniText (''# '' @ [CHR 0xE6, CHR 0x97, CHR 0xA5, CHR 0xE5, CHR 0xBF, CHR 0x97, CHR 0xE8, CHR 0xB7, CHR 0xAF, CHR 0xE5, CHR 0xBE, CHR 0x84]),
     plain_entry ''log_dir'' ''../log/'']"

lemma default_conf_written: "render_ini default_conf = default_conf_text"
  by (simp add: default_conf_def default_conf_text_def)

lemma default_conf_file: "ini_file default_conf"
  by (simp add: ini_file_def default_conf_def comment_line_def ini_key_def ini_token_def npos_def)

lemma default_conf_entries: "ini_entries default_conf =
  [(''rpc_server_ip'', ''192.168.77.136''), (''rpc_server_port'', ''8000''), (''zookeeper_ip'', ''192.168.77.136''),
   (''zookeepr_port'', ''2181''), (''log_dir'', ''../log/'')]"
  by (simp add: default_conf_def)

section \<open>Reloading and typed access\<close>

text \<open>A configuration holding one item, whose file is then edited.\<close>

definition edited_config :: RpcConfig where
  "edited_config = (RpcConfig_new ''c.ini'' 1)\<lparr>rc_configItem := [(''k'', AnyString ''old'')]\<rparr>"

lemma edited_load:
  "\<exists>c' lg. RpcConfig_load (one_file ''c.ini'' (render_ini [plain_entry ''k'' ''new''])) ''2''
     (RpcConfig_setFile edited_config ''c.ini'' (FileType_code INI_FILE)) = Inr (True, c', lg)"
proof -
  let ?c = "RpcConfig_setFile edited_config ''c.ini'' (FileType_code INI_FILE)"
  have ps: "ini_file [plain_entry ''k'' ''new'']"
    by (simp add: ini_file_def ini_key_def ini_token_def npos_def)
  have "cstr (render_ini [plain_entry ''k'' ''new'']) = render_ini [plain_entry ''k'' ''new'']"
    using ps render_no_nul by (simp add: ini_file_def)
  moreover obtain m where "IniConfigParse_parse (render_ini [plain_entry ''k'' ''new'']) (rc_configItem ?c) = Inr (True, m)"
    using parse_render [OF ps, of "rc_configItem ?c"]
    by (auto simp: RpcConfig_setFile_def edited_config_def um_ok_def)
  ultimately show ?thesis
    using load_ini [of "one_file ''c.ini'' (render_ini [plain_entry ''k'' ''new''])" ?c "render_ini [plain_entry ''k'' ''new'']" True m "''2''"]
    by (auto simp: one_file_def RpcConfig_setFile_def)
qed

theorem reload_keeps_old_items_witness:
  "\<exists>c' lg. RpcConfig_load (one_file ''c.ini'' (render_ini [plain_entry ''k'' ''new''])) ''2''
     (RpcConfig_setFile edited_config ''c.ini'' (FileType_code INI_FILE)) = Inr (True, c', lg)
   \<and> um_find (rc_configItem c') ''k'' = Some (AnyString ''old'')"
proof -
  obtain c' lg where l: "RpcConfig_load (one_file ''c.ini'' (render_ini [plain_entry ''k'' ''new''])) ''2''
     (RpcConfig_setFile edited_config ''c.ini'' (FileType_code INI_FILE)) = Inr (True, c', lg)"
    using edited_load by blast
  have "um_find (rc_configItem edited_config) ''k'' = Some (AnyString ''old'')"
    by (simp add: edited_config_def um_find_def)
  from reload_keeps_old_items [OF l this] l show ?thesis by blast
qed

text \<open>An item written in decimal reads back as the number: as an \<open>int32_t\<close> for every value below
  2^31, as a \<open>uint16_t\<close> reduced modulo 65536; what \<open>set\<close> stored, \<open>get\<close> returns at the same type,
  and an item that is not a number makes \<open>get\<close> throw \<open>std::invalid_argument\<close>.\<close>

theorem config_get_int_decimal:
  assumes "n < 2 ^ 31"
  shows "RpcConfig_get_int True 32 (RpcConfig_set c key (AnyString (dec n))) key = Inr (int n)
    \<and> RpcConfig_get_int False 16 (RpcConfig_set c key (AnyString (dec n))) key = Inr (int (n mod 65536))
    \<and> RpcConfig_get_int sgnd w (RpcConfig_set c key (AnyInt sgnd w v)) key = Inr v
    \<and> RpcConfig_get_int sgnd w (RpcConfig_set c key (AnyString [])) key = Inl InvalidArgument"
proof -
  have "signed_take_bit 31 (int n) = int n"
    using assms by (intro signed_take_bit_int_eq_self) simp_all
  moreover have "take_bit 16 (int n) = int (n mod 65536)" by (simp add: take_bit_eq_mod zmod_int)
  moreover have "stoi [] = Inl InvalidArgument" by (simp add: stoi_def)
  ultimately show ?thesis
    by (simp add: RpcConfig_get_int_def RpcConfig_set_def um_find_assign stoi_dec [OF assms] cast_int_def)
qed

theorem config_get_int_decimal_witness:
  "RpcConfig_get_int True 32 (RpcConfig_set edited_config ''k'' (AnyString (dec 70000))) ''k'' = Inr (int 70000)
    \<and> RpcConfig_get_int False 16 (RpcConfig_set edited_config ''k'' (AnyString (dec 70000))) ''k'' = Inr (int (70000 mod 65536))
    \<and> RpcConfig_get_int True 32 (RpcConfig_set edited_config ''k'' (AnyInt True 32 5)) ''k'' = Inr 5
    \<and> RpcConfig_get_int True 32 (RpcConfig_set edited_config ''k'' (AnyString [])) ''k'' = Inl InvalidArgument"
  by (rule config_get_int_decimal) simp

end
