(* ===== verification/Application.thy ===== *)
theory Application
  imports Config
begin

text \<open>
  \<^verbatim>\<open>include/kit_rpc_application.h\<close> and \<^verbatim>\<open>src/kit_rpc_application.cpp\<close>: the application
  singleton, its initialisation from the command line, and its configuration. The results of
  \<^verbatim>\<open>getopt\<close>, option letter and argument, are an argument of \<open>Init\<close>; what it does to the logger
  is returned in order.
\<close>

datatype logger_op = LogCall LogLevel string | SetPath string

definition log_ops :: "log_calls \<Rightarrow> logger_op list" where
  "log_ops cs = map (\<lambda>(lv, m). LogCall lv m) cs"

text \<open>The object is static, so \<^verbatim>\<open>_isInit\<close> starts as false and \<^verbatim>\<open>_config\<close> as null.\<close>

record KitRpcApplication =
  app_config :: "RpcConfig option"
  app_isInit :: bool

definition KitRpcApplication_new :: KitRpcApplication where
  "KitRpcApplication_new = \<lparr>app_config = None, app_isInit = False\<rparr>"

text \<open>The \<^verbatim>\<open>getopt\<close> loop: the last \<^verbatim>\<open>-i\<close> wins, and anything else ends the process.\<close>

fun app_options :: "(char \<times> string) list \<Rightarrow> string \<Rightarrow> string res" where
  "app_options [] config_file = Inr config_file"
| "app_options ((c, optarg) # os) config_file =
     (if c = CHR ''i'' then app_options os (cstr optarg) else Inl ExitProcess)"

definition KitRpcApplication_Init ::
  "file_system \<Rightarrow> string \<Rightarrow> nat \<Rightarrow> (char \<times> string) list \<Rightarrow> KitRpcApplication \<Rightarrow>
     (KitRpcApplication \<times> logger_op list) res" where
  "KitRpcApplication_Init fs err argc opts app =
     (if argc < 2 then Inl ExitProcess
      else bindR (app_options opts []) (\<lambda>config_file.
           bindR (RpcConfig_load fs err (RpcConfig_new config_file (FileType_code INI_FILE))) (\<lambda>(ok, c, lg).
             if \<not> ok then Inl ExitProcess
             else let log_path = RpcConfig_get c ''log_dir''
                  in Inr (app\<lparr>app_config := Some c, app_isInit := True\<rparr>,
                          log_ops lg @ [SetPath (if length log_path \<noteq> 0 then log_path else ''../log/'')]))))"

definition KitRpcApplication_setConfig ::
  "file_system \<Rightarrow> string \<Rightarrow> RpcConfig option \<Rightarrow> KitRpcApplication \<Rightarrow> (KitRpcApplication \<times> logger_op list) res" where
  "KitRpcApplication_setConfig fs err config app =
     (if \<not> app_isInit app then Inr (app, [])
      else case config of
        None \<Rightarrow> Inl NullDeref
      | Some c \<Rightarrow> bindR (RpcConfig_load fs err c) (\<lambda>(ok, c, lg).
          Inr (app\<lparr>app_config := Some c\<rparr>,
               log_ops lg @ (if \<not> ok then [LogCall ERROR (''rpc config load fail! '' @ [LF])] else []))))"

definition KitRpcApplication_getConfig :: "KitRpcApplication \<Rightarrow> RpcConfig option" where
  "KitRpcApplication_getConfig app = (if \<not> app_isInit app then None else app_config app)"

text \<open>\<^verbatim>\<open>k.getConfig()->get(key)\<close> as the components call it.\<close>

definition app_get :: "KitRpcApplication \<Rightarrow> string \<Rightarrow> string res" where
  "app_get app key =
     (case KitRpcApplication_getConfig app of None \<Rightarrow> Inl NullDeref | Some c \<Rightarrow> Inr (RpcConfig_get c key))"

text \<open>\<^verbatim>\<open>k.getConfig()->get<int>(key)\<close>.\<close>

definition app_get_int :: "KitRpcApplication \<Rightarrow> string \<Rightarrow> int res" where
  "app_get_int app key =
     (case KitRpcApplication_getConfig app of None \<Rightarrow> Inl NullDeref | Some c \<Rightarrow> RpcConfig_get_int True 32 c key)"

section \<open>Invariant\<close>

definition app_ok :: "KitRpcApplication \<Rightarrow> bool" where
  "app_ok app \<longleftrightarrow> (if app_isInit app then (\<exists>c. app_config app = Some c \<and> config_ok c) else app_config app = None)"

lemma app_ok_new: "app_ok KitRpcApplication_new"
  by (simp add: app_ok_def KitRpcApplication_new_def)

lemma app_ok_Init: "KitRpcApplication_Init fs err argc opts app = Inr (app', ops) \<Longrightarrow> app_ok app'"
  by (auto simp: KitRpcApplication_Init_def app_ok_def Let_def
      dest: config_ok_load [OF _ config_ok_new] split: if_splits)

lemma app_ok_setConfig:
  "KitRpcApplication_setConfig fs err cfg app = Inr (app', ops) \<Longrightarrow> app_ok app \<Longrightarrow>
     (\<forall>c. cfg = Some c \<longrightarrow> config_ok c) \<Longrightarrow> app_ok app'"
  by (auto simp: KitRpcApplication_setConfig_def app_ok_def dest: config_ok_load split: if_splits option.splits)

text \<open>
  The calls of a program on the singleton, ended by the first that exits, throws or faults.
\<close>

datatype app_call = CallInit nat "(char \<times> string) list" | CallSetConfig "RpcConfig option"

definition app_step ::
  "file_system \<Rightarrow> string \<Rightarrow> KitRpcApplication \<times> logger_op list \<Rightarrow> app_call \<Rightarrow> (KitRpcApplication \<times> logger_op list) res" where
  "app_step fs err st call =
     (case call of
        CallInit argc opts \<Rightarrow> bindR (KitRpcApplication_Init fs err argc opts (fst st)) (\<lambda>(a, ops). Inr (a, snd st @ ops))
      | CallSetConfig cfg \<Rightarrow> bindR (KitRpcApplication_setConfig fs err cfg (fst st)) (\<lambda>(a, ops). Inr (a, snd st @ ops)))"

fun app_run ::
  "file_system \<Rightarrow> string \<Rightarrow> KitRpcApplication \<times> logger_op list \<Rightarrow> app_call list \<Rightarrow> (KitRpcApplication \<times> logger_op list) res" where
  "app_run fs err st [] = Inr st"
| "app_run fs err st (c # cs) = bindR (app_step fs err st c) (\<lambda>st. app_run fs err st cs)"

definition call_ok :: "app_call \<Rightarrow> bool" where
  "call_ok call = (case call of CallSetConfig (Some c) \<Rightarrow> config_ok c | _ \<Rightarrow> True)"

lemma app_step_ok:
  assumes "app_step fs err st call = Inr st'" "app_ok (fst st)" "call_ok call"
  shows "app_ok (fst st')"
  using assms app_ok_Init app_ok_setConfig [of fs err _ "fst st"]
  by (cases call) (auto simp: app_step_def call_ok_def split: option.splits)

lemma app_run_ok:
  "app_run fs err st cs = Inr st' \<Longrightarrow> app_ok (fst st) \<Longrightarrow> (\<forall>c \<in> set cs. call_ok c) \<Longrightarrow> app_ok (fst st')"
proof (induction cs arbitrary: st)
  case (Cons c cs)
  from Cons.prems(1) obtain st1 where 1: "app_step fs err st c = Inr st1" "app_run fs err st1 cs = Inr st'"
    by auto
  from app_step_ok [OF 1(1)] Cons.prems 1(2) show ?case by (intro Cons.IH) auto
qed simp

text \<open>After any sequence of \<open>Init\<close> and \<open>setConfig\<close> calls that returns, the singleton has a
  well-formed configuration exactly when it was initialised: \<open>getConfig\<close> is null before \<open>Init\<close> and
  never after it, so the components' \<open>getConfig()->get\<close> faults before it and never after.\<close>

theorem app_config_present:
  assumes "app_run fs err (KitRpcApplication_new, []) cs = Inr (app, ops)" "\<forall>c \<in> set cs. call_ok c"
  shows "(app_isInit app \<longleftrightarrow> (\<exists>c. KitRpcApplication_getConfig app = Some c \<and> config_ok c))
    \<and> (app_get app key = Inl NullDeref \<longleftrightarrow> \<not> app_isInit app)"
proof -
  have "app_ok app" using app_run_ok [OF assms(1)] assms(2) app_ok_new by simp
  then show ?thesis
    by (auto simp: app_ok_def app_get_def KitRpcApplication_getConfig_def split: if_splits)
qed

lemma init_from_file:
  assumes "ini_file ps" "fs file = Some (render_ini ps, True)" "NUL \<notin> set file" "2 \<le> argc"
  shows "\<exists>app' c m. KitRpcApplication_Init fs err argc [(CHR ''i'', file)] app = Inr (app',
      [LogCall INFO m, SetPath (case map_of (ini_entries ps) ''log_dir'' of None \<Rightarrow> ''../log/'' | Some p \<Rightarrow> p)])
    \<and> app_isInit app' \<and> app_config app' = Some c
    \<and> (\<forall>k. um_find (rc_configItem c) k = map_option AnyString (map_of (ini_entries ps) k))"
proof -
  let ?c0 = "RpcConfig_new file (FileType_code INI_FILE)"
  from load_then_get [of ps fs "file" err, OF assms(1,2)] obtain c lg where
    l: "RpcConfig_load fs err ?c0 = Inr (True, c, lg)"
    and g: "\<And>k. um_find (rc_configItem c) k = map_option AnyString (map_of (ini_entries ps) k)" by auto
  from l obtain m where lg: "lg = [(INFO, m)]"
    by (auto simp: RpcConfig_load_def RpcConfig_loadFile_def RpcConfig_loadConfigFromFile_def Let_def
        split: if_splits option.splits prod.splits)
  have p: "map_of (ini_entries ps) ''log_dir'' = Some v \<Longrightarrow> v \<noteq> []" for v
    using ini_file_token [OF assms(1)] by (auto simp: ini_token_def)
  show ?thesis
    using l g get_found [OF g, of "''log_dir''"] p assms(3,4)
    by (auto simp: KitRpcApplication_Init_def lg log_ops_def Let_def split: option.splits)
qed

lemma app_get_found:
  assumes "app_isInit app" "app_config app = Some c" "\<forall>k. um_find (rc_configItem c) k = map_option AnyString (map_of kvs k)"
  shows "app_get app k = Inr (case map_of kvs k of None \<Rightarrow> [] | Some v \<Rightarrow> v)"
  using assms get_found [of c k "map_of kvs k"] by (simp add: app_get_def KitRpcApplication_getConfig_def)

text \<open>\<open>Init\<close> with \<open>-i file\<close> on a readable INI file with an entry succeeds: the configuration
  holds the file's items, the log directory is the configured \<open>log_dir\<close> or \<open>../log/\<close>, and the logger is
  used once (the load's \<open>RPC_INFO\<close>) before its path is set.\<close>

theorem app_init_from_file:
  assumes "ini_file ps" "fs file = Some (render_ini ps, True)" "NUL \<notin> set file" "2 \<le> argc"
  shows "\<exists>app' m. KitRpcApplication_Init fs err argc [(CHR ''i'', file)] app = Inr (app',
      [LogCall INFO m, SetPath (case map_of (ini_entries ps) ''log_dir'' of None \<Rightarrow> ''../log/'' | Some p \<Rightarrow> p)])
    \<and> app_isInit app'
    \<and> (\<forall>k. app_get app' k = Inr (case map_of (ini_entries ps) k of None \<Rightarrow> [] | Some v \<Rightarrow> v))"
proof -
  from init_from_file [of ps fs "file" argc err app, OF assms] app_get_found show ?thesis by blast
qed

theorem app_init_from_file_witness:
  "\<exists>app' m. KitRpcApplication_Init (one_file ''c.ini'' (render_ini [plain_entry ''zookeeper_ip'' ''127.0.0.1''])) ''2'' 3
      [(CHR ''i'', ''c.ini'')] KitRpcApplication_new = Inr (app',
      [LogCall INFO m, SetPath (case map_of (ini_entries [plain_entry ''zookeeper_ip'' ''127.0.0.1'']) ''log_dir'' of None \<Rightarrow> ''../log/'' | Some p \<Rightarrow> p)])
    \<and> app_isInit app'
    \<and> (\<forall>k. app_get app' k = Inr (case map_of (ini_entries [plain_entry ''zookeeper_ip'' ''127.0.0.1'']) k of None \<Rightarrow> [] | Some v \<Rightarrow> v))"
  by (rule app_init_from_file) (simp_all add: ini_file_def ini_key_def ini_token_def npos_def one_file_def)

theorem app_config_present_witness:
  "(app_isInit KitRpcApplication_new \<longleftrightarrow>
       (\<exists>c. KitRpcApplication_getConfig KitRpcApplication_new = Some c \<and> config_ok c))
    \<and> (app_get KitRpcApplication_new ''rpc_server_ip'' = Inl NullDeref \<longleftrightarrow> \<not> app_isInit KitRpcApplication_new)"
  by (rule app_config_present [where cs = "[CallSetConfig None]" and ops = "[]"])
    (simp_all add: app_step_def KitRpcApplication_setConfig_def KitRpcApplication_new_def call_ok_def)

end
