(* ===== verification/Zookeeper.thy ===== *)
theory Zookeeper
  imports Application
begin

text \<open>
  \<^verbatim>\<open>include/zookeeper/zookeeper_cli.h\<close> and \<^verbatim>\<open>src/zookeeper/zookeeper_cli.cpp\<close>: the client of
  the naming service. The ZooKeeper C library is not part of the repository: its calls are an
  argument of the model (a record of functions over an abstract service state \<open>'z\<close>), and what
  the properties need of it is the hypothesis \<open>zk_laws\<close>. \<open>start\<close> is modelled twice: as the
  function its caller sees, and as the two threads (caller and watcher) that share its
  semaphore.
\<close>

section \<open>The ZooKeeper calls\<close>

datatype zk_code = ZOK | ZNONODE | ZERROR int

fun zk_code_int :: "zk_code \<Rightarrow> int" where
  "zk_code_int ZOK = 0"
| "zk_code_int ZNONODE = - 101"
| "zk_code_int (ZERROR e) = e"

text \<open>Return codes and effects; \<^verbatim>\<open>zoo_get\<close> fills at most the buffer length it is given.\<close>

record 'z zoo_api =
  zoo_exists :: "'z \<Rightarrow> string \<Rightarrow> zk_code"
  zoo_create :: "'z \<Rightarrow> string \<Rightarrow> string \<Rightarrow> int \<Rightarrow> 'z \<times> zk_code"
  zoo_get :: "'z \<Rightarrow> string \<Rightarrow> nat \<Rightarrow> zk_code \<times> string"
  zoo_delete :: "'z \<Rightarrow> string \<Rightarrow> 'z \<times> zk_code"

text \<open>How a connection attempt ends: \<^verbatim>\<open>zookeeper_init\<close> fails, no connection within 3 seconds, or connected.\<close>

datatype zk_conn = InitFails | NoConnection | Connected

definition ZOO_EPHEMERAL :: int where
  "ZOO_EPHEMERAL = 1"

section \<open>ZkClient\<close>

text \<open>The client is its handle: the service it is connected to, or null.\<close>

record ZkClient =
  zk_handle :: "string option"

definition ZkClient_new :: ZkClient where
  "ZkClient_new = \<lparr>zk_handle = None\<rparr>"

definition ZkClient_host :: "KitRpcApplication \<Rightarrow> string res" where
  "ZkClient_host k =
     bindR (app_get k ''zookeeper_ip'') (\<lambda>ip.
     bindR (app_get k ''zookeepr_port'') (\<lambda>port. Inr (ip @ '':'' @ port)))"

definition ZkClient_start :: "(string \<Rightarrow> zk_conn) \<Rightarrow> KitRpcApplication \<Rightarrow> ZkClient \<Rightarrow> ZkClient res" where
  "ZkClient_start connect k cli =
     bindR (ZkClient_host k) (\<lambda>host.
       case connect (cstr host) of
         InitFails \<Rightarrow> Inl ExitProcess
       | NoConnection \<Rightarrow> Inl ExitProcess
       | Connected \<Rightarrow> Inr (cli\<lparr>zk_handle := Some (cstr host)\<rparr>))"

text \<open>The destructor closes the handle, if there is one: the handles closed.\<close>

definition ZkClient_delete :: "ZkClient \<Rightarrow> string list" where
  "ZkClient_delete cli = (case zk_handle cli of Some h \<Rightarrow> [h] | None \<Rightarrow> [])"

definition ZkClient_createNode ::
  "'z zoo_api \<Rightarrow> string \<Rightarrow> string \<Rightarrow> int \<Rightarrow> 'z \<Rightarrow> bool \<times> 'z \<times> log_calls" where
  "ZkClient_createNode api path data state z =
     (if zoo_exists api z (cstr path) = ZNONODE
      then case zoo_create api z (cstr path) data state of
          (z', res) \<Rightarrow>
            if res \<noteq> ZOK then (False, z', [(ERROR, ''zookeeper create path node err! path= '' @ cstr path @ [LF])])
            else (True, z', [(INFO, ''zookeeper create path node success! '' @ cstr path @ [LF])])
      else (True, z, []))"

text \<open>
  The data comes back in a zeroed buffer of 128 bytes and is then read as a C string: 128 bytes
  with no NUL among them run past the buffer.
\<close>

definition ZkClient_getNodeData ::
  "'z zoo_api \<Rightarrow> string \<Rightarrow> 'z \<Rightarrow> (string \<times> log_calls) res" where
  "ZkClient_getNodeData api path z =
     (if zoo_exists api z (cstr path) = ZNONODE
      then Inr ([], [(ERROR, ''zookeeper path node not exists! '' @ cstr path @ '' '' @ [LF])])
      else case zoo_get api z (cstr path) 128 of
          (res, d) \<Rightarrow>
            if res \<noteq> ZOK then Inr ([], [(ERROR, ''zookeeper get path data error! res='' @ dec_int (zk_code_int res) @ '', '' @ cstr path @ '' '' @ [LF])])
            else let path_buffer = overwrite (replicate 128 NUL) (take 128 d)
                 in if NUL \<notin> set path_buffer then Inl UndefinedBehaviour
                    else Inr (cstr path_buffer, []))"

definition ZkClient_deleteNode :: "'z zoo_api \<Rightarrow> string \<Rightarrow> 'z \<Rightarrow> 'z \<times> log_calls" where
  "ZkClient_deleteNode api path z =
     (case zoo_delete api z (cstr path) of
        (z', res) \<Rightarrow> (z', if res \<noteq> ZOK then [(ERROR, ''zookeeper delete path node error! '' @ dec_int (zk_code_int res) @ [LF])] else []))"

section \<open>What a healthy service does\<close>

text \<open>
  Paths as the service accepts them: components after slashes, printable and neither empty nor
  a dot or two, under 2^16 bytes altogether.
\<close>

definition zk_parent :: "string \<Rightarrow> string" where
  "zk_parent p = rev (tl (dropWhile (\<lambda>c. c \<noteq> CHR ''/'') (rev p)))"

definition zk_name :: "string \<Rightarrow> string" where
  "zk_name p = rev (takeWhile (\<lambda>c. c \<noteq> CHR ''/'') (rev p))"

definition zk_name_ok :: "string \<Rightarrow> bool" where
  "zk_name_ok n \<longleftrightarrow> n \<noteq> [] \<and> n \<noteq> ''.'' \<and> n \<noteq> ''..'' \<and> list_all (\<lambda>c. 32 \<le> (of_char c :: nat) \<and> (of_char c :: nat) < 127) n"

lemma zk_parent_shorter: "CHR ''/'' \<in> set p \<Longrightarrow> length (zk_parent p) < length p"
proof -
  assume "CHR ''/'' \<in> set p"
  then have "dropWhile (\<lambda>c. c \<noteq> CHR ''/'') (rev p) \<noteq> []" by (simp add: dropWhile_eq_Nil_conv)
  moreover have "length (dropWhile (\<lambda>c. c \<noteq> CHR ''/'') (rev p)) \<le> length p"
    using length_dropWhile_le [of _ "rev p"] by simp
  ultimately show ?thesis by (cases "dropWhile (\<lambda>c. c \<noteq> CHR ''/'') (rev p)") (simp_all add: zk_parent_def)
qed

function zk_components_ok :: "string \<Rightarrow> bool" where
  "zk_components_ok p =
     (if CHR ''/'' \<in> set p
      then zk_name_ok (zk_name p) \<and> (zk_parent p = [] \<or> zk_components_ok (zk_parent p)) else False)"
  by pat_completeness auto
termination by (relation "measure length") (auto intro: zk_parent_shorter)

declare zk_components_ok.simps [simp del]

definition zk_path_ok :: "string \<Rightarrow> bool" where
  "zk_path_ok p \<longleftrightarrow> zk_components_ok p \<and> length p < 2 ^ 16"

lemma name_no_nul: "zk_name_ok n \<Longrightarrow> NUL \<notin> set n"
  by (auto simp: zk_name_ok_def list_all_iff)

lemma path_split:
  assumes "CHR ''/'' \<in> set p"
  shows "p = zk_parent p @ CHR ''/'' # zk_name p"
proof -
  let ?P = "\<lambda>c. c \<noteq> CHR ''/''"
  have d: "dropWhile ?P (rev p) \<noteq> []" using assms by (simp add: dropWhile_eq_Nil_conv)
  then obtain c t where t: "dropWhile ?P (rev p) = c # t" by (cases "dropWhile ?P (rev p)") auto
  then have c: "c = CHR ''/''" using hd_dropWhile [OF d] by simp
  have "rev p = takeWhile ?P (rev p) @ CHR ''/'' # t"
    using takeWhile_dropWhile_id [of ?P "rev p"] unfolding t c by simp
  from arg_cong [where f = rev, OF this]
  have "p = rev t @ CHR ''/'' # rev (takeWhile ?P (rev p))"
    by (simp only: rev_rev_ident rev_append rev.simps append.simps append_assoc)
  then show ?thesis by (simp only: zk_parent_def zk_name_def t list.sel)
qed

lemma components_no_nul: "zk_components_ok p \<Longrightarrow> NUL \<notin> set p"
proof (induction p rule: zk_components_ok.induct)
  case (1 p)
  from "1.prems" have s: "CHR ''/'' \<in> set p" and n: "zk_name_ok (zk_name p)"
    and r: "zk_parent p = [] \<or> zk_components_ok (zk_parent p)"
    by (simp_all add: zk_components_ok.simps [of p] split: if_splits)
  have "NUL \<notin> set (zk_parent p)" using r "1.IH" [OF s] by auto
  then have "NUL \<notin> set (zk_parent p @ CHR ''/'' # zk_name p)" using name_no_nul [OF n] by simp
  then show ?case using path_split [OF s] by simp
qed

lemma path_no_nul: "zk_path_ok p \<Longrightarrow> NUL \<notin> set p"
  by (simp add: zk_path_ok_def components_no_nul)

text \<open>A path that is not there can be created under the root or under a node that is not ephemeral.\<close>

definition zk_can_create :: "(string \<Rightarrow> string option) \<Rightarrow> (string \<Rightarrow> bool) \<Rightarrow> string \<Rightarrow> bool" where
  "zk_can_create nodes eph p \<longleftrightarrow> nodes p = None \<and> zk_path_ok p
     \<and> (zk_parent p = [] \<or> nodes (zk_parent p) \<noteq> None \<and> \<not> eph (zk_parent p))"

text \<open>
  The interface the client is written against: \<open>nodes\<close> are the service's paths and data, \<open>eph\<close>
  says which are ephemeral. \<^verbatim>\<open>zoo_exists\<close> tells whether a path is there, \<^verbatim>\<open>zoo_create\<close> adds
  one with data far below the service's limit, \<^verbatim>\<open>zoo_get\<close> copies the data up to the buffer's
  length, \<^verbatim>\<open>zoo_delete\<close> removes a node without children that is not the service's own.
\<close>

locale naming_service =
  fixes api :: "'z zoo_api"
    and nodes :: "'z \<Rightarrow> string \<Rightarrow> string option"
    and eph :: "'z \<Rightarrow> string \<Rightarrow> bool"
  assumes exists_path: "zk_path_ok p \<Longrightarrow> zoo_exists api z p = (if nodes z p = None then ZNONODE else ZOK)"
    and create_path: "zk_can_create (nodes z) (eph z) p \<Longrightarrow> length d < 2 ^ 16 \<Longrightarrow> fl \<in> {0, ZOO_EPHEMERAL} \<Longrightarrow>
      \<exists>z'. zoo_create api z p d fl = (z', ZOK) \<and> nodes z' = (nodes z)(p \<mapsto> d)
        \<and> eph z' = (eph z)(p := fl = ZOO_EPHEMERAL)"
    and get_path: "zk_path_ok p \<Longrightarrow> nodes z p = Some d \<Longrightarrow> zoo_get api z p n = (ZOK, take n d)"
    and delete_path: "zk_path_ok p \<Longrightarrow> nodes z p \<noteq> None \<Longrightarrow> \<forall>q. nodes z q \<noteq> None \<longrightarrow> zk_parent q \<noteq> p \<Longrightarrow>
      take 10 p \<noteq> ''/zookeeper'' \<Longrightarrow> \<exists>z'. zoo_delete api z p = (z', ZOK) \<and> nodes z' = (nodes z)(p := None)"
begin

lemma createNode_there:
  "zk_path_ok path \<Longrightarrow> nodes z path \<noteq> None \<Longrightarrow> ZkClient_createNode api path data st z = (True, z, [])"
  using path_no_nul [of path] exists_path [of path z] by (auto simp: ZkClient_createNode_def)

lemma createNode_new:
  assumes "zk_can_create (nodes z) (eph z) path" "length data < 2 ^ 16" "st \<in> {0, ZOO_EPHEMERAL}"
  shows "\<exists>z' lg. ZkClient_createNode api path data st z = (True, z', lg)
    \<and> nodes z' = (nodes z)(path \<mapsto> data) \<and> eph z' = (eph z)(path := st = ZOO_EPHEMERAL)"
proof -
  have ok: "zk_path_ok path" and new: "nodes z path = None" using assms(1) by (simp_all add: zk_can_create_def)
  from create_path [OF assms] obtain z' where
    "zoo_create api z path data st = (z', ZOK)" "nodes z' = (nodes z)(path \<mapsto> data)" "eph z' = (eph z)(path := st = ZOO_EPHEMERAL)"
    by blast
  then show ?thesis using new path_no_nul [OF ok] by (simp add: ZkClient_createNode_def exists_path [OF ok])
qed

lemma getNodeData_missing:
  assumes "zk_path_ok path" "nodes z path = None"
  shows "\<exists>lg. ZkClient_getNodeData api path z = Inr ([], lg)"
  using assms path_no_nul [OF assms(1)] by (simp add: ZkClient_getNodeData_def exists_path)

lemma getNodeData_there:
  assumes "zk_path_ok path" "nodes z path = Some d"
  shows "ZkClient_getNodeData api path z =
    (let path_buffer = overwrite (replicate 128 NUL) (take 128 d)
     in if NUL \<notin> set path_buffer then Inl UndefinedBehaviour else Inr (cstr path_buffer, []))"
  using assms path_no_nul [OF assms(1)] by (simp add: ZkClient_getNodeData_def exists_path get_path Let_def)

lemma deleteNode_there:
  assumes "zk_path_ok path" "nodes z path \<noteq> None" "\<forall>q. nodes z q \<noteq> None \<longrightarrow> zk_parent q \<noteq> path"
    and "take 10 path \<noteq> ''/zookeeper''"
  shows "\<exists>z'. ZkClient_deleteNode api path z = (z', []) \<and> nodes z' = (nodes z)(path := None)"
proof -
  from delete_path [OF assms] obtain z' where "zoo_delete api z path = (z', ZOK)" "nodes z' = (nodes z)(path := None)"
    by blast
  then show ?thesis using path_no_nul [OF assms(1)] by (simp add: ZkClient_deleteNode_def)
qed

end

text \<open>The same contract as a predicate on a service, for the hypotheses of properties.\<close>

definition zk_laws :: "'z zoo_api \<Rightarrow> ('z \<Rightarrow> string \<Rightarrow> string option) \<Rightarrow> ('z \<Rightarrow> string \<Rightarrow> bool) \<Rightarrow> bool" where
  "zk_laws api nodes eph \<longleftrightarrow>
     (\<forall>z p. zk_path_ok p \<longrightarrow> zoo_exists api z p = (if nodes z p = None then ZNONODE else ZOK))
     \<and> (\<forall>z p d fl. zk_can_create (nodes z) (eph z) p \<longrightarrow> length d < 2 ^ 16 \<longrightarrow> fl \<in> {0, ZOO_EPHEMERAL} \<longrightarrow>
          (\<exists>z'. zoo_create api z p d fl = (z', ZOK) \<and> nodes z' = (nodes z)(p \<mapsto> d)
            \<and> eph z' = (eph z)(p := fl = ZOO_EPHEMERAL)))
     \<and> (\<forall>z p d n. zk_path_ok p \<longrightarrow> nodes z p = Some d \<longrightarrow> zoo_get api z p n = (ZOK, take n d))
     \<and> (\<forall>z p. zk_path_ok p \<longrightarrow> nodes z p \<noteq> None \<longrightarrow> (\<forall>q. nodes z q \<noteq> None \<longrightarrow> zk_parent q \<noteq> p) \<longrightarrow>
          take 10 p \<noteq> ''/zookeeper'' \<longrightarrow> (\<exists>z'. zoo_delete api z p = (z', ZOK) \<and> nodes z' = (nodes z)(p := None)))"

lemma zk_laws_locale: "zk_laws api nodes eph \<longleftrightarrow> naming_service api nodes eph"
  unfolding zk_laws_def naming_service_def by (intro iffI conjI allI impI; elim conjE; blast)

lemmas zk_createNode_there = naming_service.createNode_there [OF iffD1 [OF zk_laws_locale]]
  and zk_createNode_new = naming_service.createNode_new [OF iffD1 [OF zk_laws_locale]]
  and zk_getNodeData_missing = naming_service.getNodeData_missing [OF iffD1 [OF zk_laws_locale]]
  and zk_deleteNode_there = naming_service.deleteNode_there [OF iffD1 [OF zk_laws_locale]]
  and zk_getNodeData_there = naming_service.getNodeData_there [OF iffD1 [OF zk_laws_locale]]

text \<open>A service held in memory: each path with its data and whether it is ephemeral.\<close>

type_synonym mem_service = "(string, string \<times> bool) umap"

definition mem_nodes :: "mem_service \<Rightarrow> string \<Rightarrow> string option" where
  "mem_nodes z p = map_option fst (um_find z p)"

definition mem_eph :: "mem_service \<Rightarrow> string \<Rightarrow> bool" where
  "mem_eph z p = (case um_find z p of None \<Rightarrow> False | Some (d, e) \<Rightarrow> e)"

definition mem_zoo :: "mem_service zoo_api" where
  "mem_zoo = \<lparr>
     zoo_exists = (\<lambda>z p. if um_find z p = None then ZNONODE else ZOK),
     zoo_create = (\<lambda>z p d fl. if zk_can_create (mem_nodes z) (mem_eph z) p
        then (um_insert z p (d, fl = ZOO_EPHEMERAL), ZOK) else (z, ZERROR 1)),
     zoo_get = (\<lambda>z p n. case um_find z p of None \<Rightarrow> (ZNONODE, []) | Some (d, e) \<Rightarrow> (ZOK, take n d)),
     zoo_delete = (\<lambda>z p. if um_find z p = None then (z, ZNONODE) else (filter (\<lambda>kv. fst kv \<noteq> p) z, ZOK))\<rparr>"

lemma um_find_filter: "um_find (filter (\<lambda>kv. fst kv \<noteq> p) z) = (um_find z)(p := None)"
  unfolding um_find_def by (induction z) auto

interpretation mem: naming_service mem_zoo mem_nodes mem_eph
  by unfold_locales
    (auto simp: mem_zoo_def mem_nodes_def mem_eph_def zk_can_create_def um_find_insert um_find_filter fun_eq_iff)

lemma mem_zoo_laws: "zk_laws mem_zoo mem_nodes mem_eph"
  by (simp add: zk_laws_locale mem.naming_service_axioms)

section \<open>The operations on a healthy service\<close>

lemma overwrite_zero_buffer:
  "length d < n \<Longrightarrow> NUL \<notin> set d \<Longrightarrow>
     NUL \<in> set (overwrite (replicate n NUL) d) \<and> cstr (overwrite (replicate n NUL) d) = d"
proof -
  assume d: "length d < n" "NUL \<notin> set d"
  then have "overwrite (replicate n NUL) d = d @ NUL # replicate (n - Suc (length d)) NUL"
    by (auto simp: overwrite_def replicate_Suc [symmetric] Suc_diff_Suc simp del: replicate_Suc)
  with d cstr_nul [of d] show ?thesis by simp
qed

lemma getNodeData_healthy:
  assumes "zk_laws api nodes eph" "zk_path_ok path" "nodes z path = Some d" "NUL \<notin> set d" "length d < 128"
  shows "ZkClient_getNodeData api path z = Inr (d, [])"
  using assms overwrite_zero_buffer [of d 128] by (simp add: zk_getNodeData_there [where nodes = nodes] Let_def)

text \<open>C17. On a healthy service, creating a node and reading it back returns the node's data: the
  data just written for a new path, the data already there for an existing one, which
  \<open>createNode\<close> leaves unchanged while still answering \<open>true\<close>.\<close>

theorem createNode_then_getNodeData:
  assumes "zk_laws api nodes eph" "zk_path_ok path" "nodes z path = None \<longrightarrow> zk_can_create (nodes z) (eph z) path"
    and "st \<in> {0, ZOO_EPHEMERAL}" "NUL \<notin> set data" "length data < 128"
    and "\<forall>d. nodes z path = Some d \<longrightarrow> NUL \<notin> set d \<and> length d < 128"
  shows "\<exists>z' lg. ZkClient_createNode api path data st z = (True, z', lg)
    \<and> ZkClient_getNodeData api path z' = Inr (case nodes z path of None \<Rightarrow> data | Some d \<Rightarrow> d, [])"
proof (cases "nodes z path")
  case None
  from zk_createNode_new [OF assms(1) _ _ assms(4), of z path data] None assms(3,6) obtain z' lg where
    "ZkClient_createNode api path data st z = (True, z', lg)" "nodes z' path = Some data" by auto
  with None getNodeData_healthy [OF assms(1,2) _ assms(5,6)] show ?thesis by auto
next
  case (Some d)
  with assms(7) have "NUL \<notin> set d" "length d < 128" by auto
  with Some getNodeData_healthy [OF assms(1,2) Some] zk_createNode_there [OF assms(1,2), of z] show ?thesis by auto
qed

theorem createNode_then_getNodeData_witness:
  "\<exists>z' lg. ZkClient_createNode mem_zoo ''/S'' ''h:1'' 0 [] = (True, z', lg)
    \<and> ZkClient_getNodeData mem_zoo ''/S'' z' = Inr (case mem_nodes [] ''/S'' of None \<Rightarrow> ''h:1'' | Some d \<Rightarrow> d, [])"
proof (rule createNode_then_getNodeData [OF mem_zoo_laws])
  show "zk_path_ok ''/S''"
    by (simp add: zk_path_ok_def zk_components_ok.simps zk_name_def zk_parent_def zk_name_ok_def)
  then show "mem_nodes [] ''/S'' = None \<longrightarrow> zk_can_create (mem_nodes []) (mem_eph []) ''/S''"
    by (simp add: zk_can_create_def zk_parent_def)
qed (simp_all add: mem_nodes_def um_find_def)

text \<open>A service error is reported as success: when \<open>zoo_exists\<close> fails with anything but
  \<open>ZNONODE\<close> (a lost connection, for example), \<open>createNode\<close> answers \<open>true\<close> without calling
  \<open>zoo_create\<close> and without a log line.\<close>

theorem createNode_error_is_success:
  assumes "zoo_exists api z (cstr path) = ZERROR e"
  shows "ZkClient_createNode api path data st z = (True, z, [])"
  using assms by (simp add: ZkClient_createNode_def)

theorem createNode_error_is_success_witness:
  "ZkClient_createNode (mem_zoo\<lparr>zoo_exists := (\<lambda>_ _. ZERROR (- 4))\<rparr>) ''/S'' ''h:1'' 0 [] = (True, [], [])"
  by (rule createNode_error_is_success [where e = "- 4"]) simp

text \<open>Node data of 128 bytes or more with no NUL in its first 128 bytes makes \<open>getNodeData\<close> read
  past its buffer.\<close>

theorem getNodeData_overread:
  assumes "zk_laws api nodes eph" "zk_path_ok path" "nodes z path = Some d" "128 \<le> length d" "NUL \<notin> set (take 128 d)"
  shows "ZkClient_getNodeData api path z = Inl UndefinedBehaviour"
  using assms by (simp add: zk_getNodeData_there [where nodes = nodes] overwrite_def Let_def)

theorem getNodeData_overread_witness:
  "ZkClient_getNodeData mem_zoo ''/S'' [(''/S'', replicate 128 CHR ''x'', False)] = Inl UndefinedBehaviour"
  by (rule getNodeData_overread [OF mem_zoo_laws])
    (auto simp: mem_nodes_def um_find_def zk_path_ok_def zk_components_ok.simps zk_name_def zk_parent_def zk_name_ok_def)

section \<open>The threads of start\<close>

text \<open>
  \<open>start\<close> calls \<^verbatim>\<open>zookeeper_init\<close> with a null context, initialises a semaphore on its stack,
  stores its address as the context and waits on it; the library's watcher thread calls
  \<open>watcher\<close> for each session event, from the moment \<^verbatim>\<open>zookeeper_init\<close> returns, also after
  \<open>start\<close> has returned.
\<close>

datatype start_pc = BeforeInit | Inited | Waiting | Returned | Exited

datatype fault = PostNull | PostDangling

text \<open>
  What the library delivers to the watcher: whether the event's type is \<^verbatim>\<open>ZOO_SESSION_EVENT\<close> and
  whether the session's state is \<^verbatim>\<open>ZOO_CONNECTED_STATE\<close>. \<open>zs_delivered\<close> is the library's own record of
  its deliveries, made before the callback runs and whatever the callback does.
\<close>

record session_event =
  ev_session :: bool
  ev_connected :: bool

record start_sys =
  zs_pc :: start_pc
  zs_context :: bool
  zs_sem :: nat
  zs_log :: log_calls
  zs_fault :: "fault option"
  zs_delivered :: "session_event list"

definition start_init :: start_sys where
  "start_init = \<lparr>zs_pc = BeforeInit, zs_context = False, zs_sem = 0, zs_log = [], zs_fault = None, zs_delivered = []\<rparr>"

text \<open>\<^verbatim>\<open>sem_post\<close> of the handle's context: null before \<^verbatim>\<open>zoo_set_context\<close>, in a dead stack frame once \<open>start\<close> has returned.\<close>

definition post_context :: "start_sys \<Rightarrow> start_sys" where
  "post_context s =
     (if \<not> zs_context s then s\<lparr>zs_fault := Some PostNull\<rparr>
      else if zs_pc s = Returned then s\<lparr>zs_fault := Some PostDangling\<rparr>
      else s\<lparr>zs_sem := Suc (zs_sem s)\<rparr>)"

definition watcher :: "session_event \<Rightarrow> start_sys \<Rightarrow> start_sys" where
  "watcher e s =
     (if ev_session e
      then if ev_connected e
           then post_context (s\<lparr>zs_log := zs_log s @ [(INFO, ''zookeeper client connect success! '' @ [LF])]\<rparr>)
           else s
      else s)"

inductive start_step :: "start_sys \<Rightarrow> start_sys \<Rightarrow> bool" where
  zs_init: "zs_fault s = None \<Longrightarrow> zs_pc s = BeforeInit \<Longrightarrow> start_step s (s\<lparr>zs_pc := Inited\<rparr>)"
| zs_init_fails: "zs_fault s = None \<Longrightarrow> zs_pc s = BeforeInit \<Longrightarrow>
     start_step s (s\<lparr>zs_pc := Exited, zs_log := zs_log s @ [(ERROR, ''zookeeper_init error! '' @ [LF])]\<rparr>)"
| zs_set_context: "zs_fault s = None \<Longrightarrow> zs_pc s = Inited \<Longrightarrow> start_step s (s\<lparr>zs_pc := Waiting, zs_context := True\<rparr>)"
| zs_wait: "zs_fault s = None \<Longrightarrow> zs_pc s = Waiting \<Longrightarrow> zs_sem s = Suc n \<Longrightarrow>
     start_step s (s\<lparr>zs_pc := Returned, zs_sem := n\<rparr>)"
| zs_timeout: "zs_fault s = None \<Longrightarrow> zs_pc s = Waiting \<Longrightarrow> zs_sem s = 0 \<Longrightarrow>
     start_step s (s\<lparr>zs_pc := Exited, zs_log := zs_log s @ [(ERROR, ''zookeeper client connect timeout!'' @ [LF])]\<rparr>)"
| zs_event: "zs_fault s = None \<Longrightarrow> zs_pc s \<in> {Inited, Waiting, Returned} \<Longrightarrow>
     start_step s (watcher e (s\<lparr>zs_delivered := zs_delivered s @ [e]\<rparr>))"

inductive start_reachable :: "start_sys \<Rightarrow> bool" where
  sr_init: "start_reachable start_init"
| sr_step: "start_reachable s \<Longrightarrow> start_step s t \<Longrightarrow> start_reachable t"

text \<open>The deliveries that say the session is connected.\<close>

definition connected_event :: session_event where
  "connected_event = \<lparr>ev_session = True, ev_connected = True\<rparr>"









lemma inited_reachable: "start_reachable (start_init\<lparr>zs_pc := Inited\<rparr>)"
  using sr_step [OF sr_init zs_init] by (simp add: start_init_def)

definition returned_sys :: start_sys where
  "returned_sys = start_init\<lparr>zs_pc := Returned, zs_context := True, zs_delivered := [connected_event],
     zs_log := [(INFO, ''zookeeper client connect success! '' @ [LF])]\<rparr>"

lemma returned_reachable: "start_reachable returned_sys"
proof -
  have 1: "start_reachable (start_init\<lparr>zs_pc := Waiting, zs_context := True\<rparr>)"
    using sr_step [OF inited_reachable zs_set_context] by (simp add: start_init_def)
  have 2: "start_reachable (start_init\<lparr>zs_pc := Waiting, zs_context := True, zs_sem := 1, zs_delivered := [connected_event],
      zs_log := [(INFO, ''zookeeper client connect success! '' @ [LF])]\<rparr>)"
    using sr_step [OF 1 zs_event [where e = connected_event]]
    by (simp add: start_init_def watcher_def post_context_def connected_event_def)
  show ?thesis using sr_step [OF 2 zs_wait [where n = 0]] by (simp add: start_init_def returned_sys_def)
qed


text \<open>C19. Both windows can be hit: a connection established before \<open>zoo_set_context\<close> makes the
  watcher post a null semaphore, and a session that reconnects after \<open>start\<close> has returned makes it
  post the semaphore of a stack frame that is gone.\<close>

theorem start_watcher_races:
  "(\<exists>s. start_reachable s \<and> zs_fault s = Some PostNull)
    \<and> (\<exists>s. start_reachable s \<and> zs_fault s = Some PostDangling)"
proof
  let ?n = "watcher connected_event (start_init\<lparr>zs_pc := Inited, zs_delivered := [connected_event]\<rparr>)"
  have "start_reachable ?n"
    using sr_step [OF inited_reachable zs_event [where e = connected_event]] by (simp add: start_init_def)
  then show "\<exists>s. start_reachable s \<and> zs_fault s = Some PostNull"
    by (rule exI [where x = ?n, OF conjI]) (simp add: watcher_def post_context_def connected_event_def start_init_def)
  let ?d = "watcher connected_event (returned_sys\<lparr>zs_delivered := [connected_event, connected_event]\<rparr>)"
  have "start_reachable ?d"
    using sr_step [OF returned_reachable zs_event [where e = connected_event]] by (simp add: returned_sys_def start_init_def)
  then show "\<exists>s. start_reachable s \<and> zs_fault s = Some PostDangling"
    by (rule exI [where x = ?d, OF conjI])
      (simp add: watcher_def post_context_def connected_event_def returned_sys_def start_init_def)
qed

end
