(* ===== verification/Wire.thy ===== *)
theory Wire
  imports Prelude
begin

text \<open>
  The bytes on the wire: a 32-bit length in the machine's (little-endian) order, the
  serialized \<open>RpcHeader\<close> of \<^verbatim>\<open>api/proto/common/rpc_header.proto\<close>, and the arguments.
  The serializer that \<^verbatim>\<open>protoc\<close> generates is not in the repository: it is an argument of the
  components that use it, with the contract \<open>header_codec\<close>. The protobuf wire format of the
  message is given here as the instance of that contract.
\<close>

section \<open>A 32-bit integer as four bytes\<close>

definition u32_bytes :: "u32 \<Rightarrow> string" where
  "u32_bytes w =
     (let n = unat w in
       [char_of n, char_of (n div 256), char_of (n div 256 div 256), char_of (n div 256 div 256 div 256)])"

definition bytes_u32 :: "string \<Rightarrow> u32" where
  "bytes_u32 s = of_nat (foldr (\<lambda>c n. of_char c + 256 * n) s 0)"

lemma u32_bytes_length [simp]: "length (u32_bytes w) = 4"
  by (simp add: u32_bytes_def Let_def)

lemma of_char_div_step: "(of_char (char_of (n :: nat) :: char) :: nat) + 256 * (n div 256) = n"
  by simp

lemma bytes_u32_roundtrip: "bytes_u32 (u32_bytes w) = w"
proof -
  let ?n = "unat w"
  have "?n < 4294967296" using unat_u32_less [of w] by simp
  then have "?n div 256 div 256 div 256 < 256" by (simp add: div_mult2_eq [symmetric])
  then have "(of_char (char_of (?n div 256 div 256 div 256) :: char) :: nat) = ?n div 256 div 256 div 256" by simp
  then have "foldr (\<lambda>c n. of_char c + 256 * n) (u32_bytes w) 0 = ?n"
    by (simp only: u32_bytes_def Let_def foldr.simps comp_def id_def of_char_div_step mult_0_right add_0_right)
  then show ?thesis by (simp add: bytes_u32_def)
qed

lemma bytes_u32_zero: "bytes_u32 (replicate 4 NUL) = 0"
proof -
  have "replicate 4 NUL = [NUL, NUL, NUL, NUL]" by (simp add: numeral_eq_Suc)
  then show ?thesis by (simp only: bytes_u32_def foldr.simps) simp
qed

lemma nul_char_of: "NUL = char_of n \<longleftrightarrow> n mod 256 = (0 :: nat)"
  using char_of_eq_iff [of n NUL] by (auto simp: take_bit_eq_mod)

section \<open>The header\<close>

record RpcHeader =
  rh_service_name :: string
  rh_method_name :: string
  rh_args_size :: u32

text \<open>\<^verbatim>\<open>SerializePartialToString\<close> and \<^verbatim>\<open>ParseFromString\<close>, \<open>None\<close> where they answer false.\<close>

record header_format =
  hf_serialize :: "RpcHeader \<Rightarrow> string option"
  hf_parse :: "string \<Rightarrow> RpcHeader option"

definition frame :: "string \<Rightarrow> string \<Rightarrow> string" where
  "frame head_str args_str = u32_bytes (of_nat (length head_str)) @ head_str @ args_str"

text \<open>What the components rely on: a header that serializes is what its bytes parse to.\<close>

locale header_codec =
  fixes serialize :: "RpcHeader \<Rightarrow> string option"
    and parse :: "string \<Rightarrow> RpcHeader option"
    and good :: "RpcHeader \<Rightarrow> bool"
  assumes parse_serialize: "good h \<Longrightarrow> serialize h = Some s \<Longrightarrow> parse s = Some h"
    and serialize_good: "good h \<Longrightarrow> serialize h \<noteq> None"
begin

lemma serialize_inj: "good h \<Longrightarrow> good h' \<Longrightarrow> serialize h = serialize h' \<Longrightarrow> h = h'"
  using parse_serialize serialize_good by (metis option.exhaust option.inject)

lemma serialized: "good h \<Longrightarrow> \<exists>s. serialize h = Some s \<and> parse s = Some h"
  using parse_serialize serialize_good by blast

end

text \<open>The same contract as a predicate on a format, for the hypotheses of properties.\<close>

definition codec_ok :: "header_format \<Rightarrow> (RpcHeader \<Rightarrow> bool) \<Rightarrow> bool" where
  "codec_ok hf good \<longleftrightarrow>
     (\<forall>h. good h \<longrightarrow> (case hf_serialize hf h of None \<Rightarrow> False | Some s \<Rightarrow> hf_parse hf s = Some h))"

lemma codec_ok_locale:
  "codec_ok hf good \<longleftrightarrow> header_codec (hf_serialize hf) (hf_parse hf) good"
  unfolding codec_ok_def header_codec_def by (auto split: option.splits)

section \<open>The protobuf wire format\<close>

text \<open>
  Base-128 varints, and fields of the two wire types the messages use. Fields other than the
  expected ones are skipped and the last occurrence of one counts, as the format prescribes;
  group and fixed-width wire types are rejected, and over-long varints are accepted.
\<close>

fun varint :: "nat \<Rightarrow> string" where
  "varint n = (if n < 128 then [char_of n] else char_of (n mod 128 + 128) # varint (n div 128))"

declare varint.simps [simp del]

fun unvarint :: "string \<Rightarrow> (nat \<times> string) option" where
  "unvarint [] = None"
| "unvarint (c # cs) =
     (if (of_char c :: nat) < 128 then Some (of_char c, cs)
      else case unvarint cs of None \<Rightarrow> None | Some (n, r) \<Rightarrow> Some (of_char c - 128 + 128 * n, r))"

lemma unvarint_varint: "unvarint (varint n @ r) = Some (n, r)"
proof (induction n rule: varint.induct)
  case (1 n)
  show ?case
  proof (cases "n < 128")
    case True
    then show ?thesis by (subst varint.simps) simp
  next
    case False
    with 1 have "unvarint (varint (n div 128) @ r) = Some (n div 128, r)" by simp
    moreover from False have "varint n = char_of (n mod 128 + 128) # varint (n div 128)"
      by (subst varint.simps) simp
    moreover have "(of_char (char_of (n mod 128 + 128) :: char) :: nat) = n mod 128 + 128"
      by (simp del: of_nat_add)
    ultimately show ?thesis by simp
  qed
qed

lemma unvarint_shorter: "unvarint s = Some (n, r) \<Longrightarrow> length r < length s"
  by (induction s arbitrary: n r) (fastforce split: if_splits option.splits)+

datatype wire_val = VarInt nat | Bytes string

fun put_field :: "nat \<times> wire_val \<Rightarrow> string" where
  "put_field (f, VarInt n) = varint (8 * f) @ varint n"
| "put_field (f, Bytes s) = varint (8 * f + 2) @ varint (length s) @ s"

definition put_fields :: "(nat \<times> wire_val) list \<Rightarrow> string" where
  "put_fields fs = concat (map put_field fs)"

function get_fields :: "string \<Rightarrow> (nat \<times> wire_val) list option" where
  "get_fields s =
     (if s = [] then Some []
      else case unvarint s of
        None \<Rightarrow> None
      | Some (tag, r) \<Rightarrow>
          if tag div 8 = 0 then None
          else if tag mod 8 = 0 then
            (case unvarint r of None \<Rightarrow> None
             | Some (n, r') \<Rightarrow> map_option (Cons (tag div 8, VarInt n)) (get_fields r'))
          else if tag mod 8 = 2 then
            (case unvarint r of None \<Rightarrow> None
             | Some (n, r') \<Rightarrow> if length r' < n then None
                 else map_option (Cons (tag div 8, Bytes (take n r'))) (get_fields (drop n r')))
          else None)"
  by auto

termination
  by (relation "measure length") (auto dest!: unvarint_shorter)

declare get_fields.simps [simp del]

lemma varint_not_nil [simp]: "varint n \<noteq> []"
  by (subst varint.simps) simp

lemma get_put_fields: "\<forall>(f, v) \<in> set fs. 0 < f \<Longrightarrow> get_fields (put_fields fs) = Some fs"
proof (induction fs)
  case Nil
  then show ?case by (simp add: put_fields_def get_fields.simps)
next
  case (Cons x fs)
  obtain f v where x: "x = (f, v)" by (cases x)
  with Cons have f: "0 < f" and ih: "get_fields (concat (map put_field fs)) = Some fs"
    by (auto simp: put_fields_def)
  then show ?case
  proof (cases v)
    case (VarInt n)
    show ?thesis unfolding put_fields_def x VarInt
      by (subst get_fields.simps) (simp add: unvarint_varint f ih)
  next
    case (Bytes s)
    have "(8 * f + 2) div 8 = f" "(8 * f + 2) mod 8 = 2" by presburger+
    then show ?thesis unfolding put_fields_def x Bytes
      by (subst get_fields.simps) (simp add: unvarint_varint f ih)
  qed
qed

definition bytes_field :: "nat \<Rightarrow> (nat \<times> wire_val) list \<Rightarrow> string" where
  "bytes_field f fs = foldl (\<lambda>a (g, v). if g = f then (case v of Bytes s \<Rightarrow> s | _ \<Rightarrow> a) else a) [] fs"

definition int_field :: "nat \<Rightarrow> (nat \<times> wire_val) list \<Rightarrow> nat" where
  "int_field f fs = foldl (\<lambda>a (g, v). if g = f then (case v of VarInt n \<Rightarrow> n | _ \<Rightarrow> a) else a) 0 fs"

text \<open>Fields with their default value are not written.\<close>

definition put_bytes :: "nat \<Rightarrow> string \<Rightarrow> (nat \<times> wire_val) list" where
  "put_bytes f s = (if s = [] then [] else [(f, Bytes s)])"

definition put_int :: "nat \<Rightarrow> nat \<Rightarrow> (nat \<times> wire_val) list" where
  "put_int f n = (if n = 0 then [] else [(f, VarInt n)])"

lemmas field_simps = bytes_field_def int_field_def put_bytes_def put_int_def

definition proto_serialize :: "RpcHeader \<Rightarrow> string option" where
  "proto_serialize h = Some (put_fields
     (put_bytes 1 (rh_service_name h) @ put_bytes 2 (rh_method_name h) @ put_int 3 (unat (rh_args_size h))))"

definition proto_parse :: "string \<Rightarrow> RpcHeader option" where
  "proto_parse s = map_option (\<lambda>fs. \<lparr>rh_service_name = bytes_field 1 fs, rh_method_name = bytes_field 2 fs,
     rh_args_size = of_nat (int_field 3 fs)\<rparr>) (get_fields s)"

definition proto_format :: header_format where
  "proto_format = \<lparr>hf_serialize = proto_serialize, hf_parse = proto_parse\<rparr>"

lemma proto_roundtrip: "proto_serialize h = Some s \<Longrightarrow> proto_parse s = Some h"
proof -
  assume s: "proto_serialize h = Some s"
  let ?fs = "put_bytes 1 (rh_service_name h) @ put_bytes 2 (rh_method_name h) @ put_int 3 (unat (rh_args_size h))"
  have "get_fields (put_fields ?fs) = Some ?fs"
    by (rule get_put_fields) (auto simp: field_simps split: if_splits)
  with s have "get_fields s = Some ?fs" by (simp add: proto_serialize_def)
  then show ?thesis
    by (cases h) (auto simp: proto_parse_def field_simps unat_eq_zero)
qed

interpretation proto: header_codec proto_serialize proto_parse "\<lambda>h. True"
  by unfold_locales (auto intro: proto_roundtrip simp: proto_serialize_def)

lemma proto_codec_ok: "codec_ok proto_format (\<lambda>h. True)"
  using proto.header_codec_axioms by (simp add: codec_ok_locale proto_format_def)

section \<open>Frames\<close>

lemma frame_parts:
  assumes "length head_str < 2 ^ 32"
  shows "take 4 (frame head_str args_str @ rest) = u32_bytes (of_nat (length head_str))"
    and "drop 4 (frame head_str args_str @ rest) = head_str @ args_str @ rest"
    and "length (frame head_str args_str) = 4 + length head_str + length args_str"
  by (simp_all add: frame_def)

lemma bytes_u32_frame: "length hs < 2 ^ 32 \<Longrightarrow> unat (bytes_u32 (u32_bytes (of_nat (length hs)))) = length hs"
  by (simp add: bytes_u32_roundtrip unat_of_nat_u32)

end
