(* ===== verification/Servers.thy ===== *)
theory Servers
  imports Prelude
begin

text \<open>
  What \<^verbatim>\<open>include/muduo/net/TcpServer.h\<close> and \<^verbatim>\<open>TcpClient.h\<close> define: the callbacks a server and a
  client are given before they are started, and their accessors. The members that are only
  declared (\<^verbatim>\<open>setThreadNum\<close>, \<^verbatim>\<open>start\<close>, \<^verbatim>\<open>connect\<close>) are in the binary library: that they were called,
  and in what order, is kept with the object. Callbacks are values of any type \<open>'cb\<close>; \<open>None\<close> is
  what the constructor put there.
\<close>

datatype server_call = SetThreadNum nat | StartServer

record 'cb TcpServer =
  ts_addr :: "string \<times> u16"
  ts_name :: string
  ts_connectionCallback :: "'cb option"
  ts_messageCallback :: "'cb option"
  ts_writeCompleteCallback :: "'cb option"
  ts_threadInitCallback :: "'cb option"
  ts_calls :: "server_call list"

text \<open>The address is that of the \<^verbatim>\<open>InetAddress\<close> it is constructed with.\<close>

definition TcpServer_new :: "string \<times> u16 \<Rightarrow> string \<Rightarrow> 'cb TcpServer" where
  "TcpServer_new listenAddr nameArg = \<lparr>ts_addr = listenAddr, ts_name = nameArg, ts_connectionCallback = None,
     ts_messageCallback = None, ts_writeCompleteCallback = None, ts_threadInitCallback = None, ts_calls = []\<rparr>"

definition ts_setThreadInitCallback :: "'cb \<Rightarrow> 'cb TcpServer \<Rightarrow> 'cb TcpServer" where
  "ts_setThreadInitCallback cb s = s\<lparr>ts_threadInitCallback := Some cb\<rparr>"

definition ts_setConnectionCallback :: "'cb \<Rightarrow> 'cb TcpServer \<Rightarrow> 'cb TcpServer" where
  "ts_setConnectionCallback cb s = s\<lparr>ts_connectionCallback := Some cb\<rparr>"

definition ts_setMessageCallback :: "'cb \<Rightarrow> 'cb TcpServer \<Rightarrow> 'cb TcpServer" where
  "ts_setMessageCallback cb s = s\<lparr>ts_messageCallback := Some cb\<rparr>"

definition ts_setWriteCompleteCallback :: "'cb \<Rightarrow> 'cb TcpServer \<Rightarrow> 'cb TcpServer" where
  "ts_setWriteCompleteCallback cb s = s\<lparr>ts_writeCompleteCallback := Some cb\<rparr>"

definition server_called :: "server_call \<Rightarrow> 'cb TcpServer \<Rightarrow> 'cb TcpServer" where
  "server_called call s = s\<lparr>ts_calls := ts_calls s @ [call]\<rparr>"

text \<open>The client; its connection is the one its mutex guards.\<close>

record ('cb, 'conn) TcpClient =
  cl_name :: string
  cl_connectionCallback :: "'cb option"
  cl_messageCallback :: "'cb option"
  cl_writeCompleteCallback :: "'cb option"
  cl_retry :: bool
  cl_connection :: "'conn option"

definition cl_connection_of :: "('cb, 'conn) TcpClient \<Rightarrow> 'conn option" where
  "cl_connection_of c = cl_connection c"

definition cl_retries :: "('cb, 'conn) TcpClient \<Rightarrow> bool" where
  "cl_retries c = cl_retry c"

definition cl_enableRetry :: "('cb, 'conn) TcpClient \<Rightarrow> ('cb, 'conn) TcpClient" where
  "cl_enableRetry c = c\<lparr>cl_retry := True\<rparr>"

definition cl_setConnectionCallback :: "'cb \<Rightarrow> ('cb, 'conn) TcpClient \<Rightarrow> ('cb, 'conn) TcpClient" where
  "cl_setConnectionCallback cb c = c\<lparr>cl_connectionCallback := Some cb\<rparr>"

definition cl_setMessageCallback :: "'cb \<Rightarrow> ('cb, 'conn) TcpClient \<Rightarrow> ('cb, 'conn) TcpClient" where
  "cl_setMessageCallback cb c = c\<lparr>cl_messageCallback := Some cb\<rparr>"

definition cl_setWriteCompleteCallback :: "'cb \<Rightarrow> ('cb, 'conn) TcpClient \<Rightarrow> ('cb, 'conn) TcpClient" where
  "cl_setWriteCompleteCallback cb c = c\<lparr>cl_writeCompleteCallback := Some cb\<rparr>"

end
