(* ===== verification/Provider.thy ===== *)
theory Provider
  imports Zookeeper Wire Servers
begin

text \<open>
  \<^verbatim>\<open>include/rpc_provider.h\<close> and \<^verbatim>\<open>src/rpc_provider.cpp\<close>: the table of published services, the
  registration of their methods with ZooKeeper, the parsing of the bytes that arrive on a
  connection, the dispatch of each request and the reply. The header's serializer, the
  services' generated code (request parsers, response serializers, \<open>CallMethod\<close>) and the
  connection are outside the repository: the first two are arguments, and what is done to the
  connection is returned as events in order.
\<close>

section \<open>Services and the provider\<close>

record MethodDescriptor =
  md_name :: string
  md_full_name :: string

text \<open>
  A \<^verbatim>\<open>google::protobuf::Service\<close>: its descriptor, its message classes and \<open>CallMethod\<close>, which
  returns what the handler printed and, when it ran \<open>done\<close>, the response it had filled in.
\<close>

record ('q, 'p) GPService =
  sd_name :: string
  sd_methods :: "MethodDescriptor list"
  sv_parse_request :: "MethodDescriptor \<Rightarrow> string \<Rightarrow> 'q option"
  sv_CallMethod :: "MethodDescriptor \<Rightarrow> 'q \<Rightarrow> string \<times> 'p option"
  sv_serialize :: "MethodDescriptor \<Rightarrow> 'p \<Rightarrow> string option"

record ('q, 'p) ServiceInfo =
  si_service :: "('q, 'p) GPService"
  si_methodsMap :: "(string, MethodDescriptor) umap"

text \<open>The callbacks \<open>run\<close> gives the server, all of them on the provider itself.\<close>

datatype pv_callback = CbOnConnection | CbOnMessage | CbOnWriteComplete

record ('q, 'p) Provide =
  pv_server :: "pv_callback TcpServer"
  pv_servicesMap :: "(string, ('q, 'p) ServiceInfo) umap"

definition Provide_new :: "string \<Rightarrow> u16 \<Rightarrow> string \<Rightarrow> ('q, 'p) Provide" where
  "Provide_new ip port name = \<lparr>pv_server = TcpServer_new (ip, port) name, pv_servicesMap = []\<rparr>"

definition pv_ip :: "('q, 'p) Provide \<Rightarrow> string" where
  "pv_ip p = fst (ts_addr (pv_server p))"

definition pv_port :: "('q, 'p) Provide \<Rightarrow> u16" where
  "pv_port p = snd (ts_addr (pv_server p))"

definition Provide_notifyService :: "('q, 'p) GPService \<Rightarrow> ('q, 'p) Provide \<Rightarrow> ('q, 'p) Provide" where
  "Provide_notifyService service p =
     (let service_info = \<lparr>si_service = service,
            si_methodsMap = foldl (\<lambda>m (k, d). um_insert m k d) [] (map (\<lambda>d. (md_name d, d)) (sd_methods service))\<rparr>
      in p\<lparr>pv_servicesMap := um_insert (pv_servicesMap p) (sd_name service) service_info\<rparr>)"

section \<open>Requests\<close>

text \<open>
  What a handler does to the outside. \<open>PvSend\<close> carries what \<^verbatim>\<open>conn->send\<close> is called with: the bytes
  and their number, which the call narrows from \<^verbatim>\<open>size_t\<close> to \<^verbatim>\<open>int\<close>. The bytes come from \<^verbatim>\<open>SerializePartialToString\<close>,
  which refuses messages of \<^verbatim>\<open>2^31\<close> bytes and more (the result \<open>None\<close> of \<open>sv_serialize\<close>), so the number is kept.
\<close>

datatype pv_event = PvLog LogLevel string | PvOut string | PvSend string | PvShutdown

definition Provide_onConnection :: "string \<Rightarrow> pv_event list" where
  "Provide_onConnection peer = [PvLog INFO (''Provide::onConnection status change: '' @ cstr peer @ '' '' @ [LF])]"

definition Provide_onWriteComplete :: "string \<Rightarrow> pv_event list" where
  "Provide_onWriteComplete peer = [PvLog INFO (''resp ==> '' @ cstr peer @ '' send ok '' @ [LF])]"

definition Provide_sendRpcResponse :: "string option \<Rightarrow> pv_event list" where
  "Provide_sendRpcResponse serialized =
     (case serialized of
        None \<Rightarrow> [PvLog ERROR (''Serialize Response error!'' @ [LF])]
      | Some resp_str \<Rightarrow> [PvSend resp_str]) @ [PvShutdown]"

definition Provide_handleRpcRequest :: "('q, 'p) Provide \<Rightarrow> RpcHeader \<Rightarrow> string \<Rightarrow> pv_event list" where
  "Provide_handleRpcRequest p head args_str =
     (case um_find (pv_servicesMap p) (rh_service_name head) of
        None \<Rightarrow> [PvLog ERROR (cstr (rh_service_name head) @ '' dont exist!'' @ [LF])]
      | Some service_info \<Rightarrow>
          case um_find (si_methodsMap service_info) (rh_method_name head) of
            None \<Rightarrow> [PvLog ERROR (cstr (rh_service_name head) @ ''.'' @ cstr (rh_method_name head) @ '' dont exist!'' @ [LF])]
          | Some method \<Rightarrow>
              let service = si_service service_info
              in case sv_parse_request service method args_str of
                   None \<Rightarrow> [PvLog ERROR (cstr (rh_service_name head) @ ''.'' @ cstr (rh_method_name head)
                              @ '' args parse error!'' @ [LF])]
                 | Some request \<Rightarrow>
                     case sv_CallMethod service method request of
                       (out, response) \<Rightarrow> PvOut out #
                         (case response of None \<Rightarrow> []
                          | Some r \<Rightarrow> Provide_sendRpcResponse (sv_serialize service method r)))"

section \<open>The message loop\<close>

text \<open>How one pass of the loop's body ends: on to the next position, the early return, or a throw.\<close>

datatype pass_end = Next u32 | Leave | Throw cxx_error

text \<open>\<^verbatim>\<open>len\<close> and the sizes are 32-bit and wrap; the sizes are not checked against the data.\<close>

definition onMessage_pass ::
  "header_format \<Rightarrow> ('q, 'p) Provide \<Rightarrow> string \<Rightarrow> u32 \<Rightarrow> pv_event list \<times> pass_end" where
  "onMessage_pass hf p data len =
     (case str_copy (replicate 4 NUL) data 4 (unat len) of
        Inl e \<Rightarrow> ([], Throw e)
      | Inr size_bytes \<Rightarrow>
          let header_size = bytes_u32 size_bytes; len = len + 4
          in case str_copy (replicate (unat header_size) NUL) data (unat header_size) (unat len) of
               Inl e \<Rightarrow> ([], Throw e)
             | Inr head_str \<Rightarrow>
                 let len = len + header_size
                 in case hf_parse hf head_str of
                      None \<Rightarrow> ([PvLog ERROR (''parse rpc header error! header_size= '' @ dec (unat header_size) @ '' '' @ [LF])], Leave)
                    | Some head \<Rightarrow>
                        let args_size = rh_args_size head;
                            args_str = replicate (unat args_size) NUL
                        in if 0 < args_size
                           then case str_copy args_str data (unat args_size) (unat len) of
                                  Inl e \<Rightarrow> ([], Throw e)
                                | Inr args_str \<Rightarrow> (Provide_handleRpcRequest p head args_str, Next (len + args_size))
                           else (Provide_handleRpcRequest p head args_str, Next len))"

text \<open>\<^verbatim>\<open>while(len < data.size())\<close>, with fuel: \<open>None\<close> when it is not enough.\<close>

fun onMessage_loop ::
  "nat \<Rightarrow> header_format \<Rightarrow> ('q, 'p) Provide \<Rightarrow> string \<Rightarrow> u32 \<Rightarrow> (pv_event list \<times> cxx_error option) option" where
  "onMessage_loop 0 hf p data len = None"
| "onMessage_loop (Suc fuel) hf p data len =
     (if unat len < length data
      then case onMessage_pass hf p data len of
             (evs, Next len') \<Rightarrow> map_option (\<lambda>(evs', r). (evs @ evs', r)) (onMessage_loop fuel hf p data len')
           | (evs, Leave) \<Rightarrow> Some (evs, None)
           | (evs, Throw e) \<Rightarrow> Some (evs, Some e)
      else Some ([], None))"

definition Provide_onMessage ::
  "nat \<Rightarrow> header_format \<Rightarrow> ('q, 'p) Provide \<Rightarrow> string \<Rightarrow> (pv_event list \<times> cxx_error option) option" where
  "Provide_onMessage fuel hf p data = onMessage_loop fuel hf p data 0"

section \<open>Registration\<close>

text \<open>
  The iteration order of the two hash maps is not specified: \<open>run\<close> takes the order, each
  service with the order of its methods, and \<open>iteration_of\<close> says which orders are possible.
\<close>

definition iteration_of ::
  "('q, 'p) Provide \<Rightarrow> (('q, 'p) ServiceInfo \<times> MethodDescriptor list) list \<Rightarrow> bool" where
  "iteration_of p order \<longleftrightarrow>
     mset (map fst order) = mset (map snd (pv_servicesMap p))
     \<and> (\<forall>(si, ms) \<in> set order. mset ms = mset (map snd (si_methodsMap si)))"

definition service_path :: "('q, 'p) GPService \<Rightarrow> string" where
  "service_path s = ''/'' @ sd_name s"

definition method_path :: "('q, 'p) GPService \<Rightarrow> MethodDescriptor \<Rightarrow> string" where
  "method_path s m = service_path s @ ''/'' @ md_name m"

definition create_error :: "bool \<Rightarrow> log_calls" where
  "create_error ok = (if \<not> ok then [(ERROR, ''zookeeper createNode error'' @ [LF])] else [])"

fun register_methods ::
  "'z zoo_api \<Rightarrow> string \<Rightarrow> ('q, 'p) GPService \<Rightarrow> MethodDescriptor list \<Rightarrow> 'z \<Rightarrow> 'z \<times> log_calls" where
  "register_methods api host s [] z = (z, [])"
| "register_methods api host s (m # ms) z =
     (case ZkClient_createNode api (method_path s m) host ZOO_EPHEMERAL z of
        (ok, z1, lg) \<Rightarrow>
          case register_methods api host s ms z1 of
            (z2, lg2) \<Rightarrow> (z2, lg @ create_error ok
               @ (INFO, [CHR 0x09, CHR 0x09] @ '' ===>'' @ cstr (md_full_name m) @ '' '' @ [LF]) # lg2))"

fun register_services ::
  "'z zoo_api \<Rightarrow> string \<Rightarrow> (('q, 'p) ServiceInfo \<times> MethodDescriptor list) list \<Rightarrow> 'z \<Rightarrow> 'z \<times> log_calls" where
  "register_services api host [] z = (z, [])"
| "register_services api host ((si, ms) # rest) z =
     (let s = si_service si
      in case ZkClient_createNode api (service_path s) [] 0 z of
           (ok, z1, lg) \<Rightarrow>
             case register_methods api host s ms z1 of
               (z2, lg2) \<Rightarrow>
                 case register_services api host rest z2 of
                   (z3, lg3) \<Rightarrow> (z3, (INFO, cstr (sd_name s) @ '' server start!'' @ [LF]) # lg @ create_error ok @ lg2 @ lg3))"

definition Provide_host :: "KitRpcApplication \<Rightarrow> string res" where
  "Provide_host k =
     bindR (app_get k ''rpc_server_ip'') (\<lambda>ip.
     bindR (app_get k ''rpc_server_port'') (\<lambda>port. Inr (ip @ '':'' @ port)))"

text \<open>What \<open>run\<close> does to the server before and after the registration; \<open>cores\<close> is what
  \<^verbatim>\<open>hardware_concurrency\<close> returns.\<close>

definition server_setup :: "nat \<Rightarrow> pv_callback TcpServer \<Rightarrow> pv_callback TcpServer" where
  "server_setup cores s =
     ts_setWriteCompleteCallback CbOnWriteComplete
       (ts_setMessageCallback CbOnMessage
         (ts_setConnectionCallback CbOnConnection (server_called (SetThreadNum cores) s)))"

text \<open>\<open>run\<close> up to the event loop: the provider and the naming service as the loop finds them, and the
  log calls; with no configuration, no connection or no ZooKeeper it does not get there.\<close>

definition Provide_run ::
  "nat \<Rightarrow> 'z zoo_api \<Rightarrow> (string \<Rightarrow> zk_conn) \<Rightarrow> KitRpcApplication \<Rightarrow>
     (('q, 'p) ServiceInfo \<times> MethodDescriptor list) list \<Rightarrow> ('q, 'p) Provide \<Rightarrow> 'z \<Rightarrow>
     (('q, 'p) Provide \<times> 'z \<times> log_calls) res" where
  "Provide_run cores api connect k order p z =
     (let server = server_setup cores (pv_server p)
      in bindR (Provide_host k) (\<lambda>host.
         bindR (ZkClient_start connect k ZkClient_new) (\<lambda>cli.
           case register_services api host order z of
             (z, lg) \<Rightarrow> Inr (p\<lparr>pv_server := server_called StartServer server\<rparr>, z, lg))))"

text \<open>The provider in its event loop.\<close>

definition running :: "nat \<Rightarrow> ('q, 'p) Provide \<Rightarrow> ('q, 'p) Provide" where
  "running cores p = p\<lparr>pv_server := server_called StartServer (server_setup cores (pv_server p))\<rparr>"

lemma running_tables [simp]:
  "pv_servicesMap (running cores p) = pv_servicesMap p" "pv_ip (running cores p) = pv_ip p" "pv_port (running cores p) = pv_port p"
  by (simp_all add: running_def pv_ip_def pv_port_def server_setup_def server_called_def ts_setWriteCompleteCallback_def
      ts_setMessageCallback_def ts_setConnectionCallback_def)

text \<open>Data that reaches the server goes to \<open>onMessage\<close> once the callback is set and the server started.\<close>

definition serving :: "('q, 'p) Provide \<Rightarrow> bool" where
  "serving p \<longleftrightarrow> StartServer \<in> set (ts_calls (pv_server p)) \<and> ts_messageCallback (pv_server p) = Some CbOnMessage"

lemma running_callbacks:
  "ts_connectionCallback (pv_server (running cores p)) = Some CbOnConnection"
  "ts_messageCallback (pv_server (running cores p)) = Some CbOnMessage"
  "ts_writeCompleteCallback (pv_server (running cores p)) = Some CbOnWriteComplete"
  "ts_calls (pv_server (running cores p)) = ts_calls (pv_server p) @ [SetThreadNum cores, StartServer]"
  by (simp_all add: running_def server_setup_def server_called_def ts_setWriteCompleteCallback_def
      ts_setMessageCallback_def ts_setConnectionCallback_def)

lemma running_serves [simp]: "serving (running cores p)"
  by (simp add: serving_def running_callbacks)

end
