(* ===== verification/ProviderLoop.thy ===== *)
theory ProviderLoop
  imports Provider
begin

text \<open>
  What \<open>Provide::onMessage\<close> does with the bytes of one read: complete frames are handled in
  order; a message that is cut in the middle is not kept for the next read but thrown out of,
  or completed with zero bytes; and sizes that wrap the 32-bit position make the loop run
  forever.
\<close>

section \<open>Reading at a position\<close>

lemma bytes_u32_read:
  "bytes_u32 (overwrite (replicate 4 NUL) (take 4 (u32_bytes w @ rest))) = w"
  by (simp add: bytes_u32_roundtrip)

lemma overwrite_pad: "overwrite (replicate n x) (take n s) = take n s @ replicate (n - length s) x"
  by (simp add: overwrite_def min_def)

text \<open>A complete frame in the middle of the data is read, handled, and left behind.\<close>

lemma pass_reads:
  assumes parses: "hf_parse hf hs = Some head" and len: "length pre + 4 + length hs < 2 ^ 32"
  shows "onMessage_pass hf p (pre @ u32_bytes (of_nat (length hs)) @ hs @ tail) (of_nat (length pre)) =
    (Provide_handleRpcRequest p head
       (overwrite (replicate (unat (rh_args_size head)) NUL) (take (unat (rh_args_size head)) tail)),
     Next (of_nat (length pre + 4 + length hs) + rh_args_size head))"
proof -
  have pos: "length hs < 2 ^ 32" "length pre < 2 ^ 32" "length pre + 4 < 2 ^ 32"
    using len by simp_all
  have u: "unat (of_nat (length pre) :: u32) = length pre" "unat (of_nat (length pre) + 4 :: u32) = length pre + 4"
    "unat (of_nat (length pre) + 4 + of_nat (length hs) :: u32) = length pre + 4 + length hs"
    "unat (of_nat (length hs) :: u32) = length hs"
    using unat_of_nat_u32 [OF pos(1)] unat_of_nat_u32 [OF pos(2)] unat_of_nat_u32 [OF pos(3)]
      unat_of_nat_u32 [OF len] by simp_all
  show ?thesis
  proof (cases "rh_args_size head = 0")
    case True
    then show ?thesis
      by (simp add: onMessage_pass_def u Let_def bytes_u32_roundtrip parses overwrite_def)
  next
    case False
    then have "0 < rh_args_size head" by (simp add: word_gt_0)
    then show ?thesis
      by (simp add: onMessage_pass_def u Let_def bytes_u32_roundtrip parses)
  qed
qed

lemma frame_end: "length args = unat (rh_args_size head) \<Longrightarrow>
    of_nat (length pre + 4 + length hs) + rh_args_size head = (of_nat (length (pre @ frame hs args)) :: u32)"
  by (simp add: frame_def ac_simps)

lemma pass_complete:
  assumes "hf_parse hf hs = Some head" "length args = unat (rh_args_size head)"
    and "length pre + length (frame hs args) < 2 ^ 32"
  shows "onMessage_pass hf p (pre @ frame hs args @ rest) (of_nat (length pre)) =
    (Provide_handleRpcRequest p head args, Next (of_nat (length (pre @ frame hs args))))"
proof -
  have "length pre + 4 + length hs < 2 ^ 32" using assms(3) by (simp add: frame_def)
  from pass_reads [OF assms(1) this, of p "args @ rest"] show ?thesis
    unfolding frame_end [OF assms(2)] assms(2) [symmetric] by (simp add: frame_def)
qed

text \<open>A frame at the end of the data whose arguments are cut is read with zero bytes for the rest.\<close>

lemma pass_cut_args:
  assumes "hf_parse hf hs = Some head" "length args = unat (rh_args_size head)"
    and "length pre + length (frame hs args) < 2 ^ 32" "k \<le> length args"
  shows "onMessage_pass hf p (pre @ take (4 + length hs + k) (frame hs args)) (of_nat (length pre)) =
    (Provide_handleRpcRequest p head (take k args @ replicate (length args - k) NUL),
     Next (of_nat (length (pre @ frame hs args))))"
proof -
  have l: "length pre + 4 + length hs < 2 ^ 32" using assms(3) by (simp add: frame_def)
  have "take (4 + length hs + k) (frame hs args) = u32_bytes (of_nat (length hs)) @ hs @ take k args"
    by (simp add: frame_def)
  with pass_reads [OF assms(1) l, of p "take k args"] show ?thesis
    unfolding frame_end [OF assms(2)] assms(2) [symmetric]
    using assms(4) by (simp add: overwrite_def min_absorb1 min_absorb2)
qed

section \<open>Batches of complete requests\<close>

definition request_bytes :: "header_format \<Rightarrow> RpcHeader \<times> string \<Rightarrow> string" where
  "request_bytes hf r = frame (the (hf_serialize hf (fst r))) (snd r)"

definition batch :: "header_format \<Rightarrow> (RpcHeader \<times> string) list \<Rightarrow> string" where
  "batch hf rs = concat (map (request_bytes hf) rs)"

definition request_ok :: "(RpcHeader \<Rightarrow> bool) \<Rightarrow> RpcHeader \<times> string \<Rightarrow> bool" where
  "request_ok good r \<longleftrightarrow> good (fst r) \<and> length (snd r) = unat (rh_args_size (fst r))"

definition handled :: "('q, 'p) Provide \<Rightarrow> (RpcHeader \<times> string) list \<Rightarrow> pv_event list" where
  "handled p rs = concat (map (\<lambda>(h, args). Provide_handleRpcRequest p h args) rs)"

lemma batch_simps [simp]:
  "batch hf [] = []" "batch hf (r # rs) = request_bytes hf r @ batch hf rs"
  "handled p [] = []" "handled p (r # rs) = Provide_handleRpcRequest p (fst r) (snd r) @ handled p rs"
  by (simp_all add: batch_def handled_def split: prod.split)

lemma request_parses:
  assumes "codec_ok hf good" "request_ok good r"
  shows "hf_parse hf (the (hf_serialize hf (fst r))) = Some (fst r)"
proof -
  have "header_codec (hf_serialize hf) (hf_parse hf) good"
    using assms(1) by (simp add: codec_ok_locale)
  from header_codec.serialized [OF this, of "fst r"] assms(2) show ?thesis
    by (auto simp: request_ok_def)
qed

lemma loop_batch:
  assumes "codec_ok hf good" "\<forall>r \<in> set rs. request_ok good r"
    and "length pre + length (batch hf rs) < 2 ^ 32"
  shows "onMessage_loop (length rs + fuel) hf p (pre @ batch hf rs @ rest) (of_nat (length pre)) =
    map_option (\<lambda>(evs, r). (handled p rs @ evs, r))
      (onMessage_loop fuel hf p (pre @ batch hf rs @ rest) (of_nat (length (pre @ batch hf rs))))"
  using assms(2,3)
proof (induction rs arbitrary: pre)
  case Nil
  then show ?case by (simp add: option.map_id0 [unfolded id_def] split_def)
next
  case (Cons r rs)
  let ?hs = "the (hf_serialize hf (fst r))"
  have r: "hf_parse hf ?hs = Some (fst r)" "length (snd r) = unat (rh_args_size (fst r))"
    using request_parses [OF assms(1)] Cons.prems by (auto simp: request_ok_def)
  have l: "length pre + length (frame ?hs (snd r)) < 2 ^ 32"
    using Cons.prems(2) by (simp add: request_bytes_def)
  note pass = pass_complete [OF r l, of p "batch hf rs @ rest"]
  have u: "unat (of_nat (length pre) :: u32) = length pre"
    by (rule unat_of_nat_u32) (use l in simp)
  from Cons.IH [of "pre @ request_bytes hf r"] Cons.prems
  have ih: "onMessage_loop (length rs + fuel) hf p (pre @ request_bytes hf r @ batch hf rs @ rest)
      (of_nat (length (pre @ request_bytes hf r))) =
    map_option (\<lambda>(evs, r). (handled p rs @ evs, r))
      (onMessage_loop fuel hf p (pre @ request_bytes hf r @ batch hf rs @ rest)
        (of_nat (length (pre @ request_bytes hf r @ batch hf rs))))" by simp
  have "length pre < length (pre @ request_bytes hf r @ batch hf rs @ rest)"
    by (simp add: request_bytes_def frame_def)
  with pass ih show ?case
    by (simp add: u request_bytes_def option.map_comp comp_def split_def del: of_nat_add of_nat_Suc length_append)
qed

lemma loop_end: "length data < 2 ^ 32 \<Longrightarrow> onMessage_loop (Suc fuel) hf p data (of_nat (length data)) = Some ([], None)"
  by (simp add: unat_of_nat_u32)

lemma onMessage_batch_rest:
  assumes "codec_ok hf good" "\<forall>r \<in> set rs. request_ok good r" "length (batch hf rs) < 2 ^ 32"
    and "length rs < fuel"
  shows "\<exists>fuel'. Provide_onMessage fuel hf p (batch hf rs @ rest) =
    map_option (\<lambda>(evs, r). (handled p rs @ evs, r))
      (onMessage_loop (Suc fuel') hf p (batch hf rs @ rest) (of_nat (length (batch hf rs))))"
proof -
  from assms(4) obtain fuel' where "fuel = length rs + Suc fuel'"
    by (metis add_Suc_right less_iff_Suc_add)
  with loop_batch [OF assms(1,2), of "[]" "Suc fuel'" p rest] assms(3) show ?thesis
    by (auto simp: Provide_onMessage_def simp del: onMessage_loop.simps)
qed

lemma onMessage_batch_all:
  assumes "codec_ok hf good" "\<forall>r \<in> set rs. request_ok good r" "length (batch hf rs) < 2 ^ 32"
    and "length rs < fuel"
  shows "Provide_onMessage fuel hf p (batch hf rs) = Some (handled p rs, None)"
proof -
  from onMessage_batch_rest [OF assms, of p "[]"] obtain fuel' where
    "Provide_onMessage fuel hf p (batch hf rs) = map_option (\<lambda>(evs, r). (handled p rs @ evs, r))
      (onMessage_loop (Suc fuel') hf p (batch hf rs) (of_nat (length (batch hf rs))))" by auto
  then show ?thesis by (simp only: loop_end [OF assms(3)]) simp
qed

text \<open>C2. A read that holds complete requests is answered request by request, in order: the loop
  returns, with fuel for one pass more than there are requests, after exactly the handler's
  effects on each header and argument string, for any serializer that round-trips.\<close>

theorem onMessage_handles_batch:
  assumes "codec_ok hf good" "\<forall>r \<in> set rs. request_ok good r" "length (batch hf rs) < 2 ^ 32"
    and "length rs < fuel"
  shows "Provide_onMessage fuel hf p (batch hf rs) = Some (handled p rs, None)"
  by (rule onMessage_batch_all [OF assms])

definition echo_header :: RpcHeader where
  "echo_header = \<lparr>rh_service_name = ''Echo'', rh_method_name = ''Say'', rh_args_size = 2\<rparr>"

text \<open>A service for the instances: it answers the bytes it was sent.\<close>

definition echo_service :: "(string, string) GPService" where
  "echo_service = \<lparr>sd_name = ''Echo'', sd_methods = [\<lparr>md_name = ''Say'', md_full_name = ''demo.Echo.Say''\<rparr>],
     sv_parse_request = (\<lambda>m s. if s = ''bad'' then None else Some s),
     sv_CallMethod = (\<lambda>m s. (''say'', Some s)),
     sv_serialize = (\<lambda>m s. Some s)\<rparr>"

definition echo_provider :: "(string, string) Provide" where
  "echo_provider = Provide_notifyService echo_service (Provide_new ''127.0.0.1'' 8080 ''unknow'')"

lemma echo_handle:
  "Provide_handleRpcRequest echo_provider \<lparr>rh_service_name = ''Echo'', rh_method_name = ''Say'', rh_args_size = n\<rparr> args =
    (if args = ''bad'' then [PvLog ERROR (''Echo.Say args parse error!'' @ [LF])]
     else [PvOut ''say'', PvSend args, PvShutdown])"
  by (simp add: Provide_handleRpcRequest_def echo_provider_def echo_service_def Provide_notifyService_def
      Provide_new_def Let_def um_find_def um_insert_def Provide_sendRpcResponse_def cstr_def)

lemma echo_length: "length (request_bytes proto_format (echo_header, args)) = 17 + length args"
  by (simp add: request_bytes_def frame_def proto_format_def proto_serialize_def
      put_fields_def field_simps varint.simps echo_header_def)

lemma echo_ok: "length args = 2 \<Longrightarrow> request_ok (\<lambda>h. True) (echo_header, args)"
  by (simp add: request_ok_def echo_header_def)

theorem onMessage_handles_batch_witness:
  "Provide_onMessage 3 proto_format echo_provider (batch proto_format [(echo_header, ''hi''), (echo_header, ''yo'')])
     = Some (handled echo_provider [(echo_header, ''hi''), (echo_header, ''yo'')], None)"
  by (rule onMessage_handles_batch [OF proto_codec_ok])
    (simp_all add: echo_length echo_ok)

lemma onMessage_batch_short:
  assumes "codec_ok hf good" "\<forall>r \<in> set rs. request_ok good r" "length (batch hf rs) + 4 < 2 ^ 32"
    and "length rs < fuel" "0 < length tail" "length tail < 4"
  shows "Provide_onMessage fuel hf p (batch hf rs @ tail) = Some (handled p rs, Some OutOfRange)"
proof -
  let ?n = "length (batch hf rs)"
  have n: "?n < 2 ^ 32" using assms(3) by simp
  from onMessage_batch_rest [OF assms(1,2) n assms(4), of p tail] obtain fuel' where
    eq: "Provide_onMessage fuel hf p (batch hf rs @ tail) = map_option (\<lambda>(evs, r). (handled p rs @ evs, r))
      (onMessage_loop (Suc fuel') hf p (batch hf rs @ tail) (of_nat ?n))" by auto
  have u: "unat (of_nat ?n :: u32) = ?n" "unat (of_nat ?n + 4 :: u32) = ?n + 4"
    using unat_of_nat_u32 [OF n] unat_of_nat_u32 [OF assms(3)] by simp_all
  have "onMessage_pass hf p (batch hf rs @ tail) (of_nat ?n) = ([], Throw OutOfRange)"
    using u assms(6) by (simp add: onMessage_pass_def Let_def)
  with u assms(5) have "onMessage_loop (Suc fuel') hf p (batch hf rs @ tail) (of_nat ?n) = Some ([], Some OutOfRange)"
    by simp
  with eq show ?thesis by simp
qed

text \<open>C8. One to three bytes after the complete requests are thrown out of with
  \<^verbatim>\<open>std::out_of_range\<close>: the position moves past them before the header is copied. Nothing
  catches it, so a client ends the server with one such message.\<close>

theorem onMessage_short_tail_throws:
  assumes "codec_ok hf good" "\<forall>r \<in> set rs. request_ok good r" "length (batch hf rs) + 4 < 2 ^ 32"
    and "length rs < fuel" "0 < length tail" "length tail < 4"
  shows "Provide_onMessage fuel hf p (batch hf rs @ tail) = Some (handled p rs, Some OutOfRange)"
  by (rule onMessage_batch_short [OF assms])

theorem onMessage_short_tail_throws_witness:
  "Provide_onMessage 2 proto_format echo_provider (batch proto_format [(echo_header, ''hi'')] @ ''x'')
     = Some (handled echo_provider [(echo_header, ''hi'')], Some OutOfRange)"
  by (rule onMessage_short_tail_throws [OF proto_codec_ok]) (simp_all add: echo_length echo_ok)

text \<open>C9. A request whose arguments have not all arrived is not kept for the next read: it is handled at
  once with zero bytes in place of the missing ones.\<close>

theorem onMessage_cut_args_padded:
  assumes "codec_ok hf good" "\<forall>r \<in> set rs. request_ok good r" "request_ok good (h, args)"
    and "length (batch hf (rs @ [(h, args)])) < 2 ^ 32" "length rs + 1 < fuel" "k < length args"
  shows "Provide_onMessage fuel hf p
      (batch hf rs @ take (4 + length (the (hf_serialize hf h)) + k) (request_bytes hf (h, args)))
    = Some (handled p rs @ Provide_handleRpcRequest p h (take k args @ replicate (length args - k) NUL), None)"
proof -
  let ?n = "length (batch hf rs)" and ?hs = "the (hf_serialize hf h)"
  let ?cut = "take (4 + length ?hs + k) (frame ?hs args)"
  have all: "?n + length (frame ?hs args) < 2 ^ 32" using assms(4) by (simp add: batch_def request_bytes_def)
  then have n: "?n < 2 ^ 32" by simp
  from assms(5) obtain f where fuel: "fuel = length rs + Suc (Suc f)"
    by (metis Suc_eq_plus1 add_Suc_right less_iff_Suc_add add_Suc)
  have eq: "Provide_onMessage fuel hf p (batch hf rs @ ?cut) = map_option (\<lambda>(evs, r). (handled p rs @ evs, r))
      (onMessage_loop (Suc (Suc f)) hf p (batch hf rs @ ?cut) (of_nat ?n))"
    using loop_batch [OF assms(1,2), of "[]" "Suc (Suc f)" p ?cut] n
    by (simp add: fuel Provide_onMessage_def del: onMessage_loop.simps)
  have h: "hf_parse hf ?hs = Some h" "length args = unat (rh_args_size h)"
    using request_parses [OF assms(1,3)] assms(3) by (simp_all add: request_ok_def)
  have u: "unat (of_nat ?n :: u32) = ?n"
    "unat (of_nat (length (batch hf rs @ frame ?hs args)) :: u32) = ?n + length (frame ?hs args)"
    using unat_of_nat_u32 [OF n] unat_of_nat_u32 [OF all] by simp_all
  have pass: "onMessage_pass hf p (batch hf rs @ ?cut) (of_nat ?n) =
    (Provide_handleRpcRequest p h (take k args @ replicate (length args - k) NUL),
     Next (of_nat (length (batch hf rs @ frame ?hs args))))"
    by (rule pass_cut_args [OF h all]) (use assms(6) in simp_all)
  have "onMessage_loop (Suc (Suc f)) hf p (batch hf rs @ ?cut) (of_nat ?n) =
    Some (Provide_handleRpcRequest p h (take k args @ replicate (length args - k) NUL), None)"
    using pass u assms(6) by (simp add: frame_def)
  with eq show ?thesis by (simp add: request_bytes_def)
qed

theorem onMessage_cut_args_padded_witness:
  "Provide_onMessage 3 proto_format echo_provider
      (batch proto_format [(echo_header, ''yo'')] @ take (4 + length (the (hf_serialize proto_format echo_header)) + 1)
         (request_bytes proto_format (echo_header, ''hi'')))
    = Some (handled echo_provider [(echo_header, ''yo'')]
        @ Provide_handleRpcRequest echo_provider echo_header (take 1 ''hi'' @ replicate (length ''hi'' - 1) NUL), None)"
  by (rule onMessage_cut_args_padded [OF proto_codec_ok]) (simp_all add: echo_length echo_ok)

section \<open>When the loop ends\<close>

text \<open>C10. A header whose argument size brings the 32-bit position back to zero makes the loop handle the
  same request for ever: no amount of fuel is enough.\<close>

theorem onMessage_wraps_forever:
  assumes "codec_ok hf good" "good h" "hf_serialize hf h = Some hs" "4 + length hs < 2 ^ 32"
    and "rh_args_size h = - of_nat (4 + length hs)"
  shows "Provide_onMessage fuel hf p (frame hs tail) = None"
proof -
  have h: "hf_parse hf hs = Some h"
    using assms(1-3) unfolding codec_ok_def by (auto dest!: spec [of _ h])
  have "onMessage_pass hf p (frame hs tail) 0 = (Provide_handleRpcRequest p h
      (overwrite (replicate (unat (rh_args_size h)) NUL) (take (unat (rh_args_size h)) tail)), Next 0)"
    using pass_reads [OF h, of "[]" p tail] assms(4,5) by (simp add: frame_def)
  moreover have "0 < length (frame hs tail)" by (simp add: frame_def)
  ultimately have "onMessage_loop fuel hf p (frame hs tail) 0 = None"
    by (induction fuel) simp_all
  then show ?thesis by (simp add: Provide_onMessage_def)
qed

definition wrap_header :: RpcHeader where
  "wrap_header = \<lparr>rh_service_name = [], rh_method_name = [], rh_args_size = - 10\<rparr>"

lemma wrap_bytes: "proto_serialize wrap_header = Some [CHR 0x18, CHR 0xF6, CHR 0xFF, CHR 0xFF, CHR 0xFF, CHR 0x0F]"
  by (simp add: proto_serialize_def wrap_header_def field_simps put_fields_def varint.simps char_of_def bit_0)

theorem onMessage_wraps_forever_witness:
  "Provide_onMessage 1000 proto_format echo_provider
     (frame [CHR 0x18, CHR 0xF6, CHR 0xFF, CHR 0xFF, CHR 0xFF, CHR 0x0F] []) = None"
proof (rule onMessage_wraps_forever [OF proto_codec_ok])
  show "hf_serialize proto_format wrap_header = Some [CHR 0x18, CHR 0xF6, CHR 0xFF, CHR 0xFF, CHR 0xFF, CHR 0x0F]"
    using wrap_bytes by (simp add: proto_format_def)
qed (simp_all add: wrap_header_def)

text \<open>
  The condition under which it ends: at every position of the data, the header found there
  gives sizes whose sum stays within 32 bits.
\<close>

definition header_size_at :: "string \<Rightarrow> nat \<Rightarrow> nat" where
  "header_size_at data pos = unat (bytes_u32 (overwrite (replicate 4 NUL) (take 4 (drop pos data))))"

definition header_str_at :: "string \<Rightarrow> nat \<Rightarrow> string" where
  "header_str_at data pos = (let n = header_size_at data pos in overwrite (replicate n NUL) (take n (drop (pos + 4) data)))"

definition sizes_fit :: "header_format \<Rightarrow> string \<Rightarrow> bool" where
  "sizes_fit hf data \<longleftrightarrow> length data + 4 \<le> 2 ^ 32 \<and>
     (\<forall>pos < length data. case hf_parse hf (header_str_at data pos) of
        None \<Rightarrow> True
      | Some h \<Rightarrow> pos + 4 + header_size_at data pos + unat (rh_args_size h) < 2 ^ 32)"

lemma pass_at:
  assumes "unat (len + 4) = unat len + 4" "unat len \<le> length data"
  shows "snd (onMessage_pass hf p data len) =
    (if length data < unat len + 4 then Throw OutOfRange
     else case hf_parse hf (header_str_at data (unat len)) of
       None \<Rightarrow> Leave
     | Some h \<Rightarrow>
         let len' = len + 4 + of_nat (header_size_at data (unat len))
         in if 0 < rh_args_size h \<and> length data < unat len' then Throw OutOfRange else Next (len' + rh_args_size h))"
proof -
  have z: "\<not> 0 < (w :: u32) \<Longrightarrow> w = 0" for w by (simp add: word_gt_0)
  show ?thesis
    using assms by (auto simp: onMessage_pass_def Let_def header_str_at_def header_size_at_def
        str_copy_def [of _ data "unat (rh_args_size _)"] dest: z split: option.split)
qed

lemma pass_advances:
  assumes "sizes_fit hf data" "unat len < length data" "onMessage_pass hf p data len = (evs, Next len')"
  shows "unat len < unat len'"
proof -
  let ?pos = "unat len" and ?n = "header_size_at data (unat len)"
  have "?pos + 4 < 2 ^ 32" using assms(1,2) by (simp add: sizes_fit_def)
  then have u4: "unat (len + 4) = ?pos + 4" using unat_add_u32_small [of len 4] by simp
  from pass_at [OF u4, of data hf p] assms(2,3) obtain h where
    h: "hf_parse hf (header_str_at data ?pos) = Some h" and len': "len' = len + 4 + of_nat ?n + rh_args_size h"
    by (auto simp: Let_def split: option.splits if_splits)
  have fit: "?pos + 4 + ?n + unat (rh_args_size h) < 2 ^ 32"
    using assms(1,2) h unfolding sizes_fit_def by fastforce
  have "?n < 2 ^ 32" using fit by simp
  then have "unat (of_nat ?n :: u32) = ?n" by (rule unat_of_nat_u32)
  then have "unat (len + 4 + of_nat ?n) = ?pos + 4 + ?n"
    using unat_add_u32_small [of "len + 4" "of_nat ?n"] u4 fit by simp
  then have "unat len' = ?pos + 4 + ?n + unat (rh_args_size h)"
    using unat_add_u32_small [of "len + 4 + of_nat ?n" "rh_args_size h"] fit len' by simp
  then show ?thesis by simp
qed

lemma loop_ends:
  assumes "sizes_fit hf data"
  shows "length data < unat len + fuel \<Longrightarrow> 0 < fuel \<Longrightarrow> onMessage_loop fuel hf p data len \<noteq> None"
proof (induction fuel arbitrary: len)
  case 0
  then show ?case by simp
next
  case (Suc fuel)
  show ?case
  proof (cases "unat len < length data")
    case False
    then show ?thesis by simp
  next
    case True
    obtain evs e where pass: "onMessage_pass hf p data len = (evs, e)" by fastforce
    show ?thesis
    proof (cases e)
      case (Next len')
      have "unat len < unat len'" using pass_advances [OF assms True] pass Next by simp
      then have "onMessage_loop fuel hf p data len' \<noteq> None"
        using Suc.IH [of len'] Suc.prems True by simp
      with True pass Next show ?thesis by auto
    qed (use True pass in auto)
  qed
qed

text \<open>C7. On any other bytes the loop ends: if the sizes of every header found in the data fit, one pass
  more than there are bytes is enough fuel, whatever the serializer and the services do.\<close>

theorem onMessage_terminates:
  assumes "sizes_fit hf data" "length data < fuel"
  shows "\<exists>evs r. Provide_onMessage fuel hf p data = Some (evs, r)"
proof -
  have "Provide_onMessage fuel hf p data \<noteq> None"
    using loop_ends [OF assms(1), of 0 fuel p] assms(2) by (simp add: Provide_onMessage_def)
  then show ?thesis by auto
qed

text \<open>
  That fuel decides for any bytes: the positions are below the data's length, so a loop that makes more
  passes than there are bytes comes back to a position, and never ends.
\<close>

definition next_position :: "header_format \<Rightarrow> ('q, 'p) Provide \<Rightarrow> string \<Rightarrow> u32 \<Rightarrow> u32 option" where
  "next_position hf p data len =
     (if unat len < length data
      then case snd (onMessage_pass hf p data len) of Next len' \<Rightarrow> Some len' | Leave \<Rightarrow> None | Throw e \<Rightarrow> None
      else None)"

primrec position_after :: "header_format \<Rightarrow> ('q, 'p) Provide \<Rightarrow> string \<Rightarrow> nat \<Rightarrow> u32 \<Rightarrow> u32 option" where
  "position_after hf p data 0 len = Some len"
| "position_after hf p data (Suc n) len = Option.bind (next_position hf p data len) (position_after hf p data n)"

text \<open>What a loop that does not end has done after its first \<open>n\<close> passes.\<close>

primrec events_after :: "header_format \<Rightarrow> ('q, 'p) Provide \<Rightarrow> string \<Rightarrow> nat \<Rightarrow> u32 \<Rightarrow> pv_event list" where
  "events_after hf p data 0 len = []"
| "events_after hf p data (Suc n) len =
     (case next_position hf p data len of
        None \<Rightarrow> []
      | Some len' \<Rightarrow> fst (onMessage_pass hf p data len) @ events_after hf p data n len')"

lemma loop_no_fuel: "onMessage_loop fuel hf p data len = None \<longleftrightarrow> position_after hf p data fuel len \<noteq> None"
proof (induction fuel arbitrary: len)
  case (Suc fuel)
  obtain evs e where pass: "onMessage_pass hf p data len = (evs, e)" by fastforce
  then show ?case using Suc [of "case e of Next l \<Rightarrow> l"]
    by (cases e) (auto simp: next_position_def)
qed simp

lemma position_after_add:
  "position_after hf p data (m + n) len = Option.bind (position_after hf p data m len) (position_after hf p data n)"
  by (induction m arbitrary: len) (auto split: bind_splits)

lemma position_after_less: "position_after hf p data n len \<noteq> None \<Longrightarrow> m \<le> n \<Longrightarrow> position_after hf p data m len \<noteq> None"
  using position_after_add [of hf p data m "n - m" len] by (cases "position_after hf p data m len") auto

lemma position_in_data:
  assumes "position_after hf p data n len \<noteq> None" "m < n"
  shows "\<exists>l. position_after hf p data m len = Some l \<and> unat l < length data"
proof -
  obtain l where l: "position_after hf p data m len = Some l" using position_after_less [OF assms(1), of m] assms(2) by auto
  have "position_after hf p data (m + 1) len \<noteq> None" using position_after_less [OF assms(1), of "m + 1"] assms(2) by simp
  then show ?thesis unfolding position_after_add l by (auto simp: l next_position_def split: bind_splits if_splits)
qed

lemma position_cycle:
  assumes "position_after hf p data d l = Some l" "0 < d"
  shows "position_after hf p data n l \<noteq> None"
proof -
  have "position_after hf p data (k * d) l = Some l" for k
    by (induction k) (simp_all add: position_after_add assms(1))
  then have "position_after hf p data (n * d) l \<noteq> None" by simp
  then show ?thesis by (rule position_after_less) (use assms(2) in simp)
qed

lemma onMessage_fuel_decides:
  assumes "Provide_onMessage (length data + 1) hf p data = None"
  shows "Provide_onMessage fuel hf p data = None"
proof -
  let ?pos = "\<lambda>n. position_after hf p data n 0" and ?n = "length data + 1"
  have some: "?pos ?n \<noteq> None" using assms by (simp add: Provide_onMessage_def loop_no_fuel del: position_after.simps onMessage_loop.simps)
  have "(\<lambda>m. unat (the (?pos m))) ` {..< ?n} \<subseteq> {..< length data}"
    using position_in_data [OF some] by fastforce
  then have "card ((\<lambda>m. unat (the (?pos m))) ` {..< ?n}) \<le> card {..< length data}" by (rule card_mono [rotated]) simp
  then have "card ((\<lambda>m. unat (the (?pos m))) ` {..< ?n}) < card {..< ?n}" by simp
  then have "\<not> inj_on (\<lambda>m. unat (the (?pos m))) {..< ?n}" by (rule pigeonhole)
  then obtain i j where ij: "i < j" "j < ?n" "unat (the (?pos i)) = unat (the (?pos j))"
    unfolding inj_on_def by (metis lessThan_iff nat_neq_iff)
  obtain l where l: "?pos i = Some l" "?pos j = Some l"
    using position_in_data [OF some, of i] position_in_data [OF some, of j] ij by (metis less_trans option.sel word_unat_eq_iff)
  have "position_after hf p data (j - i) l = Some l"
    using position_after_add [of hf p data i "j - i" 0] ij(1) l by simp
  from position_cycle [OF this, of fuel] ij(1) have "?pos (i + fuel) \<noteq> None" unfolding position_after_add by (simp add: l)
  then have "?pos fuel \<noteq> None" by (rule position_after_less) simp
  then show ?thesis by (simp add: Provide_onMessage_def loop_no_fuel)
qed

lemma zero_data: "pos \<le> 4 \<Longrightarrow> header_size_at (replicate 4 NUL) pos = 0"
  using bytes_u32_zero by (simp add: header_size_at_def overwrite_def drop_replicate replicate_add [symmetric])

theorem onMessage_terminates_witness:
  "\<exists>evs r. Provide_onMessage 5 proto_format echo_provider (replicate 4 NUL) = Some (evs, r)"
proof (rule onMessage_terminates)
  have "hf_parse proto_format (header_str_at (replicate 4 NUL) pos) =
      Some \<lparr>rh_service_name = [], rh_method_name = [], rh_args_size = 0\<rparr>" if "pos < 4" for pos
    using that by (simp add: header_str_at_def zero_data Let_def overwrite_def proto_format_def proto_parse_def
        get_fields.simps field_simps)
  then show "sizes_fit proto_format (replicate 4 NUL)"
    by (simp add: sizes_fit_def zero_data)
qed simp

end
