(* ===== verification/ProviderReply.thy ===== *)
theory ProviderReply
  imports ProviderLoop
begin

text \<open>
  Which service a request reaches and what the client gets back: the tables that
  \<open>notifyService\<close> builds, the specification of an answer, and the two ways in which a client
  is left without one.
\<close>

section \<open>Published services\<close>

definition publish :: "('q, 'p) GPService list \<Rightarrow> ('q, 'p) Provide \<Rightarrow> ('q, 'p) Provide" where
  "publish ss p = foldl (\<lambda>p s. Provide_notifyService s p) p ss"

definition info_of :: "('q, 'p) GPService \<Rightarrow> ('q, 'p) ServiceInfo" where
  "info_of s = \<lparr>si_service = s,
     si_methodsMap = foldl (\<lambda>m (k, d). um_insert m k d) [] (map (\<lambda>d. (md_name d, d)) (sd_methods s))\<rparr>"

lemma publish_map:
  "pv_servicesMap (publish ss p) =
     foldl (\<lambda>m (k, si). um_insert m k si) (pv_servicesMap p) (map (\<lambda>s. (sd_name s, info_of s)) ss)"
  unfolding publish_def by (induction ss arbitrary: p) (simp_all add: Provide_notifyService_def Let_def info_of_def)

lemma map_of_find: "map_of (map (\<lambda>x. (f x, g x)) xs) k = map_option g (find (\<lambda>x. f x = k) xs)"
  by (induction xs) auto

lemma info_of_method: "um_find (si_methodsMap (info_of s)) m = find (\<lambda>d. md_name d = m) (sd_methods s)"
  using um.lookup_fold [of "[]" "map (\<lambda>d. (md_name d, d)) (sd_methods s)" m]
  by (simp add: info_of_def um_find_empty map_of_find option.map_ident)

lemma publish_service:
  "um_find (pv_servicesMap (publish ss (Provide_new ip port name))) k =
     map_option info_of (find (\<lambda>s. sd_name s = k) ss)"
  unfolding publish_map
  using um.lookup_fold [of "[]" "map (\<lambda>s. (sd_name s, info_of s)) ss" k]
  by (simp add: Provide_new_def um_find_empty map_of_find)

text \<open>C6. After any sequence of \<open>notifyService\<close> calls, a service name leads to the first service published
  under it and a method name to that service's first method of that name; later services of the
  same name are dropped without notice.\<close>

theorem notifyService_first_wins:
  "map_option (\<lambda>si. (si_service si, um_find (si_methodsMap si) m))
     (um_find (pv_servicesMap (publish ss (Provide_new ip port name))) k) =
   map_option (\<lambda>s. (s, find (\<lambda>d. md_name d = m) (sd_methods s))) (find (\<lambda>s. sd_name s = k) ss)"
  unfolding publish_service by (simp add: option.map_comp comp_def info_of_method) (simp add: info_of_def)















section \<open>Answers\<close>

fun sent :: "pv_event list \<Rightarrow> string list" where
  "sent [] = []"
| "sent (PvSend s # es) = s # sent es"
| "sent (_ # es) = sent es"

lemma sent_append [simp]: "sent (xs @ ys) = sent xs @ sent ys"
  by (induction xs rule: sent.induct) auto

text \<open>
  The specification of one request: the bytes of the response when the service and the method
  are there, the arguments parse and the handler ran \<open>done\<close>; the inner option is the
  serializer's.
\<close>

definition completed :: "('q, 'p) Provide \<Rightarrow> RpcHeader \<Rightarrow> string \<Rightarrow> string option option" where
  "completed p h args =
     Option.bind (um_find (pv_servicesMap p) (rh_service_name h)) (\<lambda>si.
     Option.bind (um_find (si_methodsMap si) (rh_method_name h)) (\<lambda>m.
     Option.bind (sv_parse_request (si_service si) m args) (\<lambda>q.
     map_option (sv_serialize (si_service si) m) (snd (sv_CallMethod (si_service si) m q)))))"

lemma handle_effects:
  "sent (Provide_handleRpcRequest p h args) =
     (case completed p h args of Some (Some bytes) \<Rightarrow> [bytes] | _ \<Rightarrow> [])
   \<and> (PvShutdown \<in> set (Provide_handleRpcRequest p h args) \<longleftrightarrow> completed p h args \<noteq> None)"
  by (auto simp: Provide_handleRpcRequest_def completed_def Let_def Provide_sendRpcResponse_def
      split: option.split prod.split)

lemma handle_completed:
  "completed p h args = Some (Some bytes) \<Longrightarrow>
     \<exists>out. Provide_handleRpcRequest p h args = [PvOut out, PvSend bytes, PvShutdown]"
  by (auto simp: Provide_handleRpcRequest_def completed_def Let_def Provide_sendRpcResponse_def
      bind_eq_Some_conv split: prod.split)

text \<open>C3. The handler refines the specification: it sends exactly the specified response, and closes the
  connection exactly when the handler completed. So a request for an unknown service or method,
  or with arguments that do not parse, is neither answered nor closed, and its client waits.\<close>

theorem handleRpcRequest_answers:
  "sent (Provide_handleRpcRequest p h args) =
     (case completed p h args of Some (Some bytes) \<Rightarrow> [bytes] | _ \<Rightarrow> [])
   \<and> (PvShutdown \<in> set (Provide_handleRpcRequest p h args) \<longleftrightarrow> completed p h args \<noteq> None)"
  by (rule handle_effects)

text \<open>C12. Pipelined requests: every request of a read is executed, but the connection is shut down after the
  first answer, so the answers to the others are sent on a connection already shut down.\<close>

theorem pipelined_answers_after_shutdown:
  assumes "codec_ok hf good" "\<forall>r \<in> set [r1, r2]. request_ok good r" "length (batch hf [r1, r2]) < 2 ^ 32"
    and "completed p (fst r1) (snd r1) = Some (Some b1)" "completed p (fst r2) (snd r2) = Some (Some b2)"
  shows "\<exists>pre post. Provide_onMessage 3 hf p (batch hf [r1, r2]) = Some (pre @ PvShutdown # post, None)
    \<and> sent pre = [b1] \<and> sent post = [b2]"
proof -
  obtain o1 where 1: "Provide_handleRpcRequest p (fst r1) (snd r1) = [PvOut o1, PvSend b1, PvShutdown]"
    using handle_completed [OF assms(4)] by blast
  obtain o2 where 2: "Provide_handleRpcRequest p (fst r2) (snd r2) = [PvOut o2, PvSend b2, PvShutdown]"
    using handle_completed [OF assms(5)] by blast
  have "Provide_onMessage 3 hf p (batch hf [r1, r2]) = Some (handled p [r1, r2], None)"
    by (rule onMessage_batch_all [OF assms(1-3)]) simp
  then show ?thesis unfolding handled_def
    by (intro exI [where x = "[PvOut o1, PvSend b1]"] exI [where x = "[PvOut o2, PvSend b2, PvShutdown]"])
      (simp add: 1 2 split_def)
qed

lemma echo_completed: "args \<noteq> ''bad'' \<Longrightarrow> completed echo_provider echo_header args = Some (Some args)"
  by (simp add: completed_def echo_provider_def echo_service_def Provide_notifyService_def echo_header_def
      Provide_new_def Let_def um_find_def um_insert_def)

theorem pipelined_answers_after_shutdown_witness:
  "\<exists>pre post. Provide_onMessage 3 proto_format echo_provider
      (batch proto_format [(echo_header, ''hi''), (echo_header, ''yo'')]) = Some (pre @ PvShutdown # post, None)
    \<and> sent pre = [''hi''] \<and> sent post = [''yo'']"
  by (rule pipelined_answers_after_shutdown [OF proto_codec_ok])
    (simp_all add: echo_length echo_ok echo_completed)

end
