(* ===== verification/Registration.thy ===== *)
theory Registration
  imports ProviderReply
begin

text \<open>
  What \<open>Provide::run\<close> leaves in ZooKeeper: the nodes it creates, in any iteration order of the
  two hash maps, as one sequence of first-wins insertions (the contract of \<open>UMap\<close>, here on the
  service's own map of nodes).
\<close>

definition node_insert :: "(string \<Rightarrow> string option) \<Rightarrow> string \<Rightarrow> string \<Rightarrow> (string \<Rightarrow> string option)" where
  "node_insert nodes p d = (if nodes p = None then nodes(p \<mapsto> d) else nodes)"

interpretation nd: first_wins "\<lambda>n p. n p" node_insert "\<lambda>_. True"
  by unfold_locales (auto simp: node_insert_def)

definition nodes_after :: "(string \<times> string) list \<Rightarrow> (string \<Rightarrow> string option) \<Rightarrow> (string \<Rightarrow> string option)" where
  "nodes_after calls nodes = foldl (\<lambda>n (p, d). node_insert n p d) nodes calls"

lemma nodes_after_lookup:
  "nodes_after calls nodes p = (case nodes p of None \<Rightarrow> map_of calls p | Some d \<Rightarrow> Some d)"
  unfolding nodes_after_def by (rule nd.lookup_fold) simp

lemma nodes_after_append: "nodes_after (xs @ ys) n = nodes_after ys (nodes_after xs n)"
  by (simp add: nodes_after_def)

definition method_calls :: "string \<Rightarrow> ('q, 'p) GPService \<Rightarrow> MethodDescriptor list \<Rightarrow> (string \<times> string) list" where
  "method_calls host s ms = map (\<lambda>m. (method_path s m, host)) ms"

definition service_calls ::
  "string \<Rightarrow> (('q, 'p) ServiceInfo \<times> MethodDescriptor list) list \<Rightarrow> (string \<times> string) list" where
  "service_calls host order =
     concat (map (\<lambda>(si, ms). (service_path (si_service si), []) # method_calls host (si_service si) ms) order)"

text \<open>Names that can be path components: printable, no dot or two dots, without slashes.\<close>

definition name_ok :: "string \<Rightarrow> bool" where
  "name_ok s \<longleftrightarrow> zk_name_ok s \<and> CHR ''/'' \<notin> set s \<and> length s < 2 ^ 14"

lemma drop_to_slash: "CHR ''/'' \<notin> set s \<Longrightarrow> dropWhile (\<lambda>c. c \<noteq> CHR ''/'') (rev s @ CHR ''/'' # t) = CHR ''/'' # t"
  by (induction s rule: rev_induct) auto

lemma take_to_slash: "CHR ''/'' \<notin> set s \<Longrightarrow> takeWhile (\<lambda>c. c \<noteq> CHR ''/'') (rev s @ CHR ''/'' # t) = rev s"
  by (induction s rule: rev_induct) auto

lemma service_path_parent: "name_ok (sd_name s) \<Longrightarrow> zk_parent (service_path s) = []"
  by (simp add: zk_parent_def service_path_def drop_to_slash name_ok_def)

lemma method_path_parent: "name_ok (md_name m) \<Longrightarrow> zk_parent (method_path s m) = service_path s"
  by (simp add: zk_parent_def method_path_def drop_to_slash name_ok_def)

lemma service_path_ok: "name_ok (sd_name s) \<Longrightarrow> zk_path_ok (service_path s)"
  by (simp add: zk_path_ok_def zk_components_ok.simps [of "service_path s"] service_path_parent)
    (simp add: zk_name_def service_path_def take_to_slash name_ok_def)

lemma method_path_ok: "name_ok (sd_name s) \<Longrightarrow> name_ok (md_name m) \<Longrightarrow> zk_path_ok (method_path s m)"
  using service_path_ok [of s]
  by (simp add: zk_path_ok_def zk_components_ok.simps [of "method_path s m"] method_path_parent)
    (simp add: zk_name_def method_path_def service_path_def take_to_slash name_ok_def)

lemma method_path_not_service: "name_ok (sd_name s') \<Longrightarrow> method_path s m \<noteq> service_path s'"
proof
  assume "name_ok (sd_name s')" "method_path s m = service_path s'"
  then have "sd_name s @ CHR ''/'' # md_name m = sd_name s'" by (simp add: method_path_def service_path_def)
  then have "CHR ''/'' \<in> set (sd_name s')" by (metis in_set_conv_decomp)
  with \<open>name_ok (sd_name s')\<close> show False by (simp add: name_ok_def)
qed

lemma method_path_inj:
  "name_ok (md_name m) \<Longrightarrow> name_ok (md_name m') \<Longrightarrow> method_path s m = method_path s' m' \<Longrightarrow>
     service_path s = service_path s' \<and> md_name m = md_name m'"
proof -
  assume ok: "name_ok (md_name m)" "name_ok (md_name m')" and eq: "method_path s m = method_path s' m'"
  from ok eq have "service_path s = service_path s'" using method_path_parent by metis
  with eq show ?thesis by (simp add: method_path_def)
qed

lemma create_step:
  assumes "zk_laws api nodes eph" "zk_path_ok path" "length d < 2 ^ 16" "st \<in> {0, ZOO_EPHEMERAL}"
    and "zk_parent path = [] \<or> nodes z (zk_parent path) \<noteq> None \<and> \<not> eph z (zk_parent path)"
  obtains z' lg where "ZkClient_createNode api path d st z = (True, z', lg)"
    "nodes z' = node_insert (nodes z) path d"
    "\<And>q. eph z' q \<Longrightarrow> eph z q \<or> q = path \<and> st = ZOO_EPHEMERAL"
proof (cases "nodes z path")
  case None
  then have "zk_can_create (nodes z) (eph z) path" using assms(2,5) by (simp add: zk_can_create_def)
  from zk_createNode_new [OF assms(1) this assms(3,4)] obtain z' lg where
    "ZkClient_createNode api path d st z = (True, z', lg)" "nodes z' = (nodes z)(path \<mapsto> d)"
    "eph z' = (eph z)(path := st = ZOO_EPHEMERAL)" by blast
  with None show thesis by (intro that [of z' lg]) (auto simp: node_insert_def split: if_splits)
next
  case (Some d')
  with zk_createNode_there [OF assms(1,2), of z d st] show thesis
    by (intro that [of z "[]"]) (auto simp: node_insert_def)
qed

lemma node_insert_there: "node_insert n p d p \<noteq> None"
  by (simp add: node_insert_def)

lemma nodes_after_keeps: "n p \<noteq> None \<Longrightarrow> nodes_after calls n p \<noteq> None"
  by (auto simp: nodes_after_lookup)

text \<open>No ephemeral node stands where a node is to have children.\<close>

definition services_kept :: "('z \<Rightarrow> string \<Rightarrow> bool) \<Rightarrow> (('q, 'p) ServiceInfo \<times> 'm) list \<Rightarrow> 'z \<Rightarrow> bool" where
  "services_kept eph order z \<longleftrightarrow> (\<forall>(si, ms) \<in> set order. \<not> eph z (service_path (si_service si)))"

lemma register_methods_nodes:
  assumes "zk_laws api nodes eph" "name_ok (sd_name s)" "\<forall>m \<in> set ms. name_ok (md_name m)" "length host < 2 ^ 16"
    and "nodes z (service_path s) \<noteq> None" "\<not> eph z (service_path s)"
  shows "nodes (fst (register_methods api host s ms z)) = nodes_after (method_calls host s ms) (nodes z)
    \<and> (\<forall>q. eph (fst (register_methods api host s ms z)) q \<longrightarrow> eph z q \<or> (\<exists>m \<in> set ms. q = method_path s m))"
  using assms(3,5,6)
proof (induction ms arbitrary: z)
  case Nil
  then show ?case by (simp add: nodes_after_def method_calls_def)
next
  case (Cons m ms)
  have par: "zk_parent (method_path s m) = service_path s" and ok: "zk_path_ok (method_path s m)"
    using Cons.prems(1) method_path_parent [of m s] method_path_ok [OF assms(2), of m] by auto
  from create_step [OF assms(1) ok assms(4), of ZOO_EPHEMERAL z] Cons.prems par obtain z1 lg where
    c: "ZkClient_createNode api (method_path s m) host ZOO_EPHEMERAL z = (True, z1, lg)"
    and n: "nodes z1 = node_insert (nodes z) (method_path s m) host"
    and e: "\<And>q. eph z1 q \<Longrightarrow> eph z q \<or> q = method_path s m" by (metis insertCI)
  have "nodes z1 (service_path s) \<noteq> None" using Cons.prems(2) n by (auto simp: node_insert_def)
  moreover have "\<not> eph z1 (service_path s)"
    using e [of "service_path s"] Cons.prems(3) method_path_not_service [OF assms(2), of s m] by metis
  ultimately have "nodes (fst (register_methods api host s ms z1)) = nodes_after (method_calls host s ms) (nodes z1)
    \<and> (\<forall>q. eph (fst (register_methods api host s ms z1)) q \<longrightarrow> eph z1 q \<or> (\<exists>m \<in> set ms. q = method_path s m))"
    using Cons.IH [of z1] Cons.prems(1) by simp
  with e show ?case
    by (simp add: c n nodes_after_def method_calls_def split_def) blast
qed

lemma register_services_nodes:
  assumes "zk_laws api nodes eph" "length host < 2 ^ 16"
    and "\<forall>(si, ms) \<in> set order. name_ok (sd_name (si_service si)) \<and> (\<forall>m \<in> set ms. name_ok (md_name m))"
    and "services_kept eph order z"
  shows "nodes (fst (register_services api host order z)) = nodes_after (service_calls host order) (nodes z)"
  using assms(3,4)
proof (induction order arbitrary: z)
  case Nil
  then show ?case by (simp add: nodes_after_def service_calls_def)
next
  case (Cons x order)
  obtain si ms where x: "x = (si, ms)" by (cases x)
  let ?s = "si_service si"
  have ok: "name_ok (sd_name ?s)" "\<forall>m \<in> set ms. name_ok (md_name m)" and kept: "\<not> eph z (service_path ?s)"
    using Cons.prems x by (auto simp: services_kept_def)
  from create_step [OF assms(1) service_path_ok [OF ok(1)], of "[]" 0 z] service_path_parent [OF ok(1)]
  obtain z1 lg where c: "ZkClient_createNode api (service_path ?s) [] 0 z = (True, z1, lg)"
    and n: "nodes z1 = node_insert (nodes z) (service_path ?s) []"
    and e: "\<And>q. eph z1 q \<Longrightarrow> eph z q" by (auto simp: ZOO_EPHEMERAL_def)
  let ?z2 = "fst (register_methods api host ?s ms z1)"
  have m: "nodes ?z2 = nodes_after (method_calls host ?s ms) (nodes z1)
      \<and> (\<forall>q. eph ?z2 q \<longrightarrow> eph z1 q \<or> (\<exists>m \<in> set ms. q = method_path ?s m))"
    using register_methods_nodes [OF assms(1) ok assms(2), of z1] n node_insert_there e kept by metis
  have "services_kept eph order ?z2"
    using Cons.prems m e method_path_not_service unfolding services_kept_def by fastforce
  with Cons.IH [of ?z2] Cons.prems n m show ?case
    by (simp add: x c service_calls_def nodes_after_append Let_def split_def)
      (simp add: nodes_after_def)
qed

lemma service_calls_lookup:
  assumes "(si, ms) \<in> set order" "m \<in> set ms"
    and "\<forall>(si, ms) \<in> set order. name_ok (sd_name (si_service si)) \<and> (\<forall>m \<in> set ms. name_ok (md_name m))"
  shows "map_of (service_calls host order) (method_path (si_service si) m) = Some host"
proof -
  let ?p = "method_path (si_service si) m"
  have "(?p, host) \<in> set (service_calls host order)"
    using assms(1,2) by (force simp: service_calls_def method_calls_def)
  then have "?p \<in> fst ` set (service_calls host order)" by force
  then have "map_of (service_calls host order) ?p \<noteq> None" by (simp add: map_of_eq_None_iff)
  then obtain d where d: "map_of (service_calls host order) ?p = Some d" by auto
  have "(?p, d) \<in> set (service_calls host order)" using d by (rule map_of_SomeD)
  then have "d = host"
    using assms(3) method_path_not_service by (fastforce simp: service_calls_def method_calls_def)
  with d show ?thesis by simp
qed

definition names_ok :: "('q, 'p) Provide \<Rightarrow> bool" where
  "names_ok p \<longleftrightarrow> (\<forall>(k, si) \<in> set (pv_servicesMap p). name_ok (sd_name (si_service si)) \<and>
     (\<forall>(k', m) \<in> set (si_methodsMap si). name_ok (md_name m)))"

lemma iteration_sets:
  assumes "iteration_of p order"
  shows "fst ` set order = snd ` set (pv_servicesMap p)"
    and "(si, ms) \<in> set order \<Longrightarrow> set ms = snd ` set (si_methodsMap si)"
proof -
  show "fst ` set order = snd ` set (pv_servicesMap p)"
    using assms unfolding iteration_of_def by (metis mset_eq_setD set_map)
  assume "(si, ms) \<in> set order"
  then have "mset ms = mset (map snd (si_methodsMap si))" using assms by (auto simp: iteration_of_def)
  then show "set ms = snd ` set (si_methodsMap si)" by (metis mset_eq_setD set_map)
qed

lemma iteration_names:
  assumes "names_ok p" "iteration_of p order"
  shows "\<forall>(si, ms) \<in> set order. name_ok (sd_name (si_service si)) \<and> (\<forall>m \<in> set ms. name_ok (md_name m))"
proof (clarify, intro conjI ballI)
  fix si ms assume o: "(si, ms) \<in> set order"
  then have "si \<in> snd ` set (pv_servicesMap p)" using iteration_sets(1) [OF assms(2)] by force
  then obtain k where k: "(k, si) \<in> set (pv_servicesMap p)" by auto
  then show "name_ok (sd_name (si_service si))" using assms(1) by (auto simp: names_ok_def)
  fix m assume "m \<in> set ms"
  then obtain k' where "(k', m) \<in> set (si_methodsMap si)" using iteration_sets(2) [OF assms(2) o] by auto
  with k assms(1) show "name_ok (md_name m)" by (auto simp: names_ok_def)
qed

lemma iteration_has:
  assumes "iteration_of p order" "(k, si) \<in> set (pv_servicesMap p)" "(k', m) \<in> set (si_methodsMap si)"
  obtains ms where "(si, ms) \<in> set order" "m \<in> set ms"
proof -
  have "si \<in> fst ` set order" using assms(2) iteration_sets(1) [OF assms(1)] by force
  then obtain ms where ms: "(si, ms) \<in> set order" by auto
  moreover have "m \<in> set ms" using assms(3) iteration_sets(2) [OF assms(1) ms] by force
  ultimately show thesis by (rule that)
qed

lemma run_nodes:
  assumes "zk_laws api nodes eph" "names_ok p" "iteration_of p order" "services_kept eph order z" "length host < 2 ^ 16"
    and "Provide_host k = Inr host" "ZkClient_start connect k ZkClient_new = Inr cli"
    and "um_find (pv_servicesMap p) sname = Some si" "um_find (si_methodsMap si) mname = Some m"
  shows "\<exists>z' lg. Provide_run cores api connect k order p z = Inr (running cores p, z', lg)
    \<and> nodes z' (method_path (si_service si) m) =
       (case nodes z (method_path (si_service si) m) of None \<Rightarrow> Some host | Some d \<Rightarrow> Some d)"
proof -
  have names: "\<forall>(si, ms) \<in> set order. name_ok (sd_name (si_service si)) \<and> (\<forall>m \<in> set ms. name_ok (md_name m))"
    using iteration_names [OF assms(2,3)] .
  have "(sname, si) \<in> set (pv_servicesMap p)" "(mname, m) \<in> set (si_methodsMap si)"
    using assms(8,9) by (auto simp: um_find_def dest: map_of_SomeD)
  from iteration_has [OF assms(3) this] obtain ms where "(si, ms) \<in> set order" "m \<in> set ms" .
  from service_calls_lookup [OF this names] register_services_nodes [OF assms(1,5) names assms(4)]
  show ?thesis using assms(6,7)
    by (cases "register_services api host order z") (simp add: Provide_run_def running_def Let_def nodes_after_lookup split: option.split)
qed

text \<open>C5. \<open>run\<close> registers every published method: for any iteration order of the hash maps, on a
  healthy ZooKeeper where no ephemeral node has the name of a service, the node
  \<open>/service/method\<close> then holds the configured \<open>ip:port\<close>, unless it was there before, in which
  case it keeps the address it had.\<close>

theorem run_registers_methods:
  assumes "zk_laws api nodes eph" "names_ok p" "iteration_of p order" "services_kept eph order z" "length host < 2 ^ 16"
    and "Provide_host k = Inr host" "ZkClient_start connect k ZkClient_new = Inr cli"
    and "um_find (pv_servicesMap p) sname = Some si" "um_find (si_methodsMap si) mname = Some m"
  shows "\<exists>z' lg. Provide_run cores api connect k order p z = Inr (running cores p, z', lg)
    \<and> nodes z' (method_path (si_service si) m) =
       (case nodes z (method_path (si_service si) m) of None \<Rightarrow> Some host | Some d \<Rightarrow> Some d)"
  by (rule run_nodes [OF assms])

definition demo_app :: KitRpcApplication where
  "demo_app = \<lparr>app_config = Some ((RpcConfig_new ''c.ini'' 1)\<lparr>rc_configItem :=
      [(''rpc_server_ip'', AnyString ''127.0.0.1''), (''rpc_server_port'', AnyString ''8080''),
       (''zookeeper_ip'', AnyString ''127.0.0.1''), (''zookeepr_port'', AnyString ''2181'')]\<rparr>), app_isInit = True\<rparr>"

lemma demo_get:
  "Provide_host demo_app = Inr ''127.0.0.1:8080''"
  "ZkClient_start (\<lambda>_. Connected) demo_app ZkClient_new = Inr \<lparr>zk_handle = Some ''127.0.0.1:2181''\<rparr>"
  by (simp_all add: Provide_host_def ZkClient_start_def ZkClient_host_def app_get_def KitRpcApplication_getConfig_def
      demo_app_def RpcConfig_get_def um_find_def cstr_def ZkClient_new_def)

definition echo_method :: MethodDescriptor where
  "echo_method = \<lparr>md_name = ''Say'', md_full_name = ''demo.Echo.Say''\<rparr>"

lemma echo_info: "info_of echo_service = \<lparr>si_service = echo_service, si_methodsMap = [(''Say'', echo_method)]\<rparr>"
  by (simp add: info_of_def echo_service_def echo_method_def um_insert_def)

lemma echo_map: "pv_servicesMap echo_provider = [(''Echo'', info_of echo_service)]"
  by (simp add: echo_provider_def Provide_notifyService_def Provide_new_def um_insert_def Let_def info_of_def
      echo_service_def)

lemma echo_name: "sd_name echo_service = ''Echo''"
  by (simp add: echo_service_def)

theorem run_registers_methods_witness:
  "\<exists>z' lg. Provide_run 4 mem_zoo (\<lambda>_. Connected) demo_app [(info_of echo_service, [echo_method])] echo_provider []
      = Inr (running 4 echo_provider, z', lg)
    \<and> mem_nodes z' (method_path (si_service (info_of echo_service)) echo_method) =
       (case mem_nodes [] (method_path (si_service (info_of echo_service)) echo_method) of
          None \<Rightarrow> Some ''127.0.0.1:8080'' | Some d \<Rightarrow> Some d)"
proof (rule run_registers_methods [where p = echo_provider and sname = "''Echo''" and mname = "''Say''",
      OF mem_zoo_laws _ _ _ _ demo_get])
  show "services_kept mem_eph [(info_of echo_service, [echo_method])] []"
    by (simp add: services_kept_def mem_eph_def um_find_def)
qed (simp_all add: names_ok_def iteration_of_def echo_map echo_info um_find_def name_ok_def zk_name_ok_def echo_method_def echo_name)

end
