(* ===== verification/Controller.thy ===== *)
theory Controller
  imports Prelude
begin

text \<open>
  \<^verbatim>\<open>include/rpc_controller.h\<close> and \<^verbatim>\<open>src/rpc_controller.cpp\<close>: the error state of one call.
  Cancelling is declared and does nothing.
\<close>

record KitRpcController =
  rc_isError :: bool
  rc_errMsg :: string

definition KitRpcController_new :: KitRpcController where
  "KitRpcController_new = \<lparr>rc_isError = False, rc_errMsg = []\<rparr>"

definition KitRpcController_Reset :: "KitRpcController \<Rightarrow> KitRpcController" where
  "KitRpcController_Reset c = c\<lparr>rc_isError := False, rc_errMsg := []\<rparr>"

definition KitRpcController_Failed :: "KitRpcController \<Rightarrow> bool" where
  "KitRpcController_Failed c = rc_isError c"

definition KitRpcController_ErrorText :: "KitRpcController \<Rightarrow> string" where
  "KitRpcController_ErrorText c = rc_errMsg c"

definition KitRpcController_SetFailed :: "string \<Rightarrow> KitRpcController \<Rightarrow> KitRpcController" where
  "KitRpcController_SetFailed reason c = c\<lparr>rc_isError := True, rc_errMsg := reason\<rparr>"

definition KitRpcController_StartCancel :: "KitRpcController \<Rightarrow> KitRpcController" where
  "KitRpcController_StartCancel c = c"

definition KitRpcController_IsCanceled :: "KitRpcController \<Rightarrow> bool" where
  "KitRpcController_IsCanceled c = False"

definition KitRpcController_NotifyOnCancel :: "'f \<Rightarrow> KitRpcController \<Rightarrow> KitRpcController" where
  "KitRpcController_NotifyOnCancel callback c = c"

lemmas controller_simps =
  KitRpcController_new_def KitRpcController_Reset_def KitRpcController_Failed_def
  KitRpcController_ErrorText_def KitRpcController_SetFailed_def KitRpcController_StartCancel_def
  KitRpcController_IsCanceled_def KitRpcController_NotifyOnCancel_def

text \<open>The calls of a user on one controller, and the last word they leave: the reason of the last
  failure since the last reset.\<close>

datatype controller_call = Reset | SetFailed string | StartCancel | NotifyOnCancel

fun controller_step :: "controller_call \<Rightarrow> KitRpcController \<Rightarrow> KitRpcController" where
  "controller_step Reset c = KitRpcController_Reset c"
| "controller_step (SetFailed r) c = KitRpcController_SetFailed r c"
| "controller_step StartCancel c = KitRpcController_StartCancel c"
| "controller_step NotifyOnCancel c = KitRpcController_NotifyOnCancel () c"

fun last_failure :: "controller_call list \<Rightarrow> string option" where
  "last_failure [] = None"
| "last_failure (Reset # cs) = last_failure cs"
| "last_failure (SetFailed r # cs) =
     (if \<exists>c \<in> set cs. c = Reset then last_failure cs
      else case last_failure cs of None \<Rightarrow> Some r | Some r' \<Rightarrow> Some r')"
| "last_failure (_ # cs) = last_failure cs"

lemma controller_run:
  "let c' = fold controller_step cs c in
     KitRpcController_Failed c' =
       (last_failure cs \<noteq> None \<or> (Reset \<notin> set cs \<and> KitRpcController_Failed c))
     \<and> KitRpcController_ErrorText c' =
       (case last_failure cs of Some r \<Rightarrow> r | None \<Rightarrow> if Reset \<in> set cs then [] else KitRpcController_ErrorText c)"
proof (induction cs arbitrary: c)
  case Nil
  then show ?case by simp
next
  case (Cons x cs)
  from Cons.IH [of "controller_step x c"] show ?case
    by (cases x) (auto simp: controller_simps Let_def split: option.splits)
qed

text \<open>C36. After any sequence of calls on a fresh controller, \<open>Failed\<close> says whether a failure was set
  since the last reset, and \<open>ErrorText\<close> is the reason of the last one, or empty.\<close>

theorem controller_reports_last_failure:
  "let c = fold controller_step cs KitRpcController_new in
     KitRpcController_Failed c = (last_failure cs \<noteq> None)
     \<and> KitRpcController_ErrorText c = (case last_failure cs of Some r \<Rightarrow> r | None \<Rightarrow> [])
     \<and> \<not> KitRpcController_IsCanceled c"
  using controller_run [of cs KitRpcController_new]
  by (auto simp: controller_simps Let_def split: option.splits)

end
