(* ===== verification/ClientChannel.thy ===== *)
theory ClientChannel
  imports Registration Controller
begin

text \<open>
  \<^verbatim>\<open>include/rpc_channel.h\<close> and \<^verbatim>\<open>src/rpc_channel.cpp\<close>: one call of a remote method, from the
  serialized request through the address lookup in ZooKeeper to the event loop that runs until
  the connection is down. What the network does after \<open>connect\<close> is an argument: the events
  the loop delivers, as a function of the address and of the bytes the client sends when it
  is connected. The response's parser is an argument too: whether it succeeded and the message
  it leaves.
\<close>

section \<open>Callbacks\<close>

datatype net_event = ConnUp | ConnDown | Msg string

record 'p call_state =
  cs_controller :: "KitRpcController option"
  cs_response :: 'p
  cs_sent :: "string list"
  cs_shutdown :: bool
  cs_destroyed :: bool
  cs_quit :: bool

definition call_start :: "KitRpcController option \<Rightarrow> 'p \<Rightarrow> 'p call_state" where
  "call_start controller response = \<lparr>cs_controller = controller, cs_response = response, cs_sent = [],
     cs_shutdown = False, cs_destroyed = False, cs_quit = False\<rparr>"

text \<open>\<open>controller->SetFailed(reason)\<close>; a caller may have passed no controller.\<close>

definition set_failed :: "string \<Rightarrow> 'p call_state \<Rightarrow> 'p call_state res" where
  "set_failed reason st =
     (case cs_controller st of
        None \<Rightarrow> Inl NullDeref
      | Some c \<Rightarrow> Inr (st\<lparr>cs_controller := Some (KitRpcController_SetFailed reason c)\<rparr>))"

text \<open>\<^verbatim>\<open>conn->send(send_data.data(), len)\<close> takes an \<^verbatim>\<open>int\<close>: a length above 2^31 - 1 is negative there.\<close>

definition on_connection :: "string \<Rightarrow> u32 \<Rightarrow> bool \<Rightarrow> 'p call_state \<Rightarrow> 'p call_state res" where
  "on_connection send_data len connected st =
     (if connected
      then if 2 ^ 31 \<le> unat len then Inl UndefinedBehaviour
           else Inr (st\<lparr>cs_sent := cs_sent st @ [take (unat len) send_data]\<rparr>)
      else Inr (st\<lparr>cs_destroyed := True, cs_quit := True\<rparr>))"

text \<open>\<^verbatim>\<open>ParseFromString(buffer->retrieveAllAsString().data())\<close> parses the bytes before the first NUL.\<close>

definition on_message :: "(string \<Rightarrow> bool \<times> 'p) \<Rightarrow> string \<Rightarrow> 'p call_state \<Rightarrow> 'p call_state res" where
  "on_message parse_response buffer st =
     (let (ok, r) = parse_response (cstr buffer);
          st = st\<lparr>cs_response := r\<rparr>
      in bindR (if \<not> ok then set_failed ''response->ParseFromString error'' st else Inr st)
           (\<lambda>st. Inr (st\<lparr>cs_shutdown := True\<rparr>)))"

text \<open>The event loop over the events of the connection; \<open>None\<close> when they end and it still waits.\<close>

fun channel_loop ::
  "string \<Rightarrow> u32 \<Rightarrow> (string \<Rightarrow> bool \<times> 'p) \<Rightarrow> net_event list \<Rightarrow> 'p call_state \<Rightarrow> 'p call_state res option" where
  "channel_loop send_data len parse [] st = (if cs_quit st then Some (Inr st) else None)"
| "channel_loop send_data len parse (e # es) st =
     (if cs_quit st then Some (Inr st)
      else case (case e of
                   ConnUp \<Rightarrow> on_connection send_data len True st
                 | ConnDown \<Rightarrow> on_connection send_data len False st
                 | Msg buffer \<Rightarrow> on_message parse buffer st) of
             Inl err \<Rightarrow> Some (Inl err)
           | Inr st \<Rightarrow> channel_loop send_data len parse es st)"

section \<open>The request and the address\<close>

text \<open>\<^verbatim>\<open>s.insert(pos, data, n)\<close> throws when the position is behind the end.\<close>

definition str_insert :: "string \<Rightarrow> nat \<Rightarrow> string \<Rightarrow> string res" where
  "str_insert s pos t = (if length s < pos then Inl OutOfRange else Inr (take pos s @ t @ drop pos s))"

definition call_bytes :: "string \<Rightarrow> string \<Rightarrow> (string \<times> u32) res" where
  "call_bytes head_str args_str =
     (let args_size = (of_nat (length args_str) :: u32);
          header_size = (of_nat (length head_str) :: u32)
      in bindR (str_insert [] 0 (u32_bytes header_size)) (\<lambda>send_data.
           let len = (4 :: u32)
           in bindR (str_insert send_data (unat len) (take (unat header_size) head_str)) (\<lambda>send_data.
           let len = len + header_size
           in bindR (str_insert send_data (unat len) (take (unat args_size) args_str)) (\<lambda>send_data.
           Inr (send_data, len + args_size)))))"

text \<open>The node's data as \<open>ip:port\<close>; the port goes through \<^verbatim>\<open>stoi\<close> into 16 bits.\<close>

definition target_addr :: "string \<Rightarrow> nat \<Rightarrow> (string \<times> u16) res" where
  "target_addr host pos =
     bindR (substr host 0 pos) (\<lambda>ip.
     bindR (substr host (pos + 1) npos) (\<lambda>port_str.
     bindR (stoi port_str) (\<lambda>port. Inr (ip, of_int port))))"

section \<open>CallMethod\<close>

definition KitRpcChannel_CallMethod ::
  "header_format \<Rightarrow> 'z zoo_api \<Rightarrow> (string \<Rightarrow> zk_conn) \<Rightarrow> KitRpcApplication \<Rightarrow>
   (string \<Rightarrow> u16 \<Rightarrow> string \<Rightarrow> net_event list) \<Rightarrow> (string \<Rightarrow> bool \<times> 'p) \<Rightarrow>
   string \<Rightarrow> MethodDescriptor \<Rightarrow> string option \<Rightarrow> KitRpcController option \<Rightarrow> 'p \<Rightarrow> 'z \<Rightarrow>
   ('p call_state \<times> log_calls) res option" where
  "KitRpcChannel_CallMethod hf api connect k net parse service_name method request controller response z =
     (let st = call_start controller response;
          done = (\<lambda>r lg. Some (bindR r (\<lambda>st. Inr (st, lg))))
      in case request of
        None \<Rightarrow> done (set_failed ''request->SerializePartialToString error'' st) []
      | Some args_str \<Rightarrow>
          (case hf_serialize hf \<lparr>rh_service_name = service_name, rh_method_name = md_name method,
                  rh_args_size = of_nat (length args_str)\<rparr> of
             None \<Rightarrow> done (set_failed ''req.SerializePartialToString error'' st) []
           | Some head_str \<Rightarrow>
               (case call_bytes head_str args_str of
                  Inl e \<Rightarrow> Some (Inl e)
                | Inr (send_data, len) \<Rightarrow>
                    (case ZkClient_start connect k ZkClient_new of
                       Inl e \<Rightarrow> Some (Inl e)
                     | Inr cli \<Rightarrow>
                         (case ZkClient_getNodeData api (''/'' @ service_name @ ''/'' @ md_name method) z of
                            Inl e \<Rightarrow> Some (Inl e)
                          | Inr (host, lg) \<Rightarrow>
                              if host = [] then done (set_failed ''zookeeper get ip/port is null'' st) lg
                              else let pos = find_char CHR '':'' host 0
                                   in if pos = npos then done (set_failed ''zookeeper get ip/port is invalid'' st) lg
                                      else case target_addr host pos of
                                             Inl e \<Rightarrow> Some (Inl e)
                                           | Inr (ip, port) \<Rightarrow>
                                               map_option (\<lambda>r. bindR r (\<lambda>st. Inr (st, lg)))
                                                 (channel_loop send_data len parse
                                                   (net ip port (take (unat len) send_data)) st))))))"

end
