(* ===== verification/ClientCall.thy ===== *)
theory ClientCall
  imports ClientChannel
begin

text \<open>
  What a call of a remote method does: the frame it sends, the address it sends it to, when it
  returns and with what.
\<close>

section \<open>The parts of a call\<close>

lemma call_bytes_frame:
  assumes "length (frame head_str args_str) < 2 ^ 32"
  shows "call_bytes head_str args_str = Inr (frame head_str args_str, of_nat (length (frame head_str args_str)))"
proof -
  have l: "length head_str < 2 ^ 32" "length args_str < 2 ^ 32" "4 + length head_str < 2 ^ 32"
    using assms by (simp_all add: frame_def)
  have u: "unat (of_nat (length head_str) :: u32) = length head_str" "unat (of_nat (length args_str) :: u32) = length args_str"
    "unat (4 + of_nat (length head_str) :: u32) = 4 + length head_str"
    using unat_of_nat_u32 [OF l(1)] unat_of_nat_u32 [OF l(2)] unat_of_nat_u32 [OF l(3)] by simp_all
  have n: "4 + of_nat (length head_str) + of_nat (length args_str) = (of_nat (length (frame head_str args_str)) :: u32)"
    by (simp add: frame_def)
  show ?thesis
    unfolding call_bytes_def Let_def n by (simp add: str_insert_def u frame_def del: of_nat_add)
qed

lemma target_addr_dec:
  assumes "CHR '':'' \<notin> set ip" "n < 2 ^ 31" "length (dec n) \<le> npos"
  shows "target_addr (ip @ '':'' @ dec n) (length ip) = Inr (ip, of_nat n)"
  using assms by (simp add: target_addr_def stoi_dec)

text \<open>The header a call sends.\<close>

definition call_header :: "string \<Rightarrow> MethodDescriptor \<Rightarrow> string \<Rightarrow> RpcHeader" where
  "call_header sname m args = \<lparr>rh_service_name = sname, rh_method_name = md_name m, rh_args_size = of_nat (length args)\<rparr>"

definition node_path :: "string \<Rightarrow> MethodDescriptor \<Rightarrow> string" where
  "node_path sname m = ''/'' @ sname @ ''/'' @ md_name m"

lemma node_path_ok: "name_ok sname \<Longrightarrow> name_ok (md_name m) \<Longrightarrow> zk_path_ok (node_path sname m)"
proof -
  let ?s = "\<lparr>sd_name = sname, sd_methods = [], sv_parse_request = \<lambda>_ _. Some (), sv_CallMethod = \<lambda>_ _. ([], Some ()),
    sv_serialize = \<lambda>_ _. None\<rparr>"
  assume "name_ok sname" "name_ok (md_name m)"
  then have "zk_path_ok (method_path ?s m)" by (intro method_path_ok) simp_all
  then show ?thesis by (simp add: node_path_def method_path_def service_path_def)
qed

text \<open>The circumstances in which a call gets as far as the network.\<close>

definition call_ready ::
  "header_format \<Rightarrow> (RpcHeader \<Rightarrow> bool) \<Rightarrow> (string \<Rightarrow> zk_conn) \<Rightarrow> KitRpcApplication \<Rightarrow> (string \<Rightarrow> string option) \<Rightarrow>
   string \<Rightarrow> MethodDescriptor \<Rightarrow> string \<Rightarrow> string \<Rightarrow> nat \<Rightarrow> bool" where
  "call_ready hf good connect k zk sname m args ip port \<longleftrightarrow>
     good (call_header sname m args)
     \<and> length (request_bytes hf (call_header sname m args, args)) < 2 ^ 31
     \<and> (\<exists>cli. ZkClient_start connect k ZkClient_new = Inr cli)
     \<and> name_ok sname \<and> name_ok (md_name m)
     \<and> zk (node_path sname m) = Some (ip @ '':'' @ dec port)
     \<and> CHR '':'' \<notin> set ip \<and> NUL \<notin> set ip \<and> length (ip @ '':'' @ dec port) < 128 \<and> port < 2 ^ 31"

lemma CallMethod_reaches_network:
  assumes "codec_ok hf good" "zk_laws api nodes eph"
    and "call_ready hf good connect k (nodes z) sname m args ip port"
  shows "KitRpcChannel_CallMethod hf api connect k net parse sname m (Some args) ctrl resp z =
    (let bytes = request_bytes hf (call_header sname m args, args)
     in map_option (\<lambda>r. bindR r (\<lambda>st. Inr (st, [])))
          (channel_loop bytes (of_nat (length bytes)) parse (net ip (of_nat port) bytes) (call_start ctrl resp)))"
proof -
  let ?h = "call_header sname m args" and ?host = "ip @ '':'' @ dec port"
  let ?bytes = "request_bytes hf (?h, args)"
  note r = assms(3) [unfolded call_ready_def]
  obtain hs where hs: "hf_serialize hf ?h = Some hs"
    using assms(1) r unfolding codec_ok_def by (auto dest!: spec [of _ ?h] split: option.splits)
  have b: "?bytes = frame hs args" by (simp add: request_bytes_def hs)
  have len: "length (frame hs args) < 2 ^ 32" using r b by simp
  obtain cli where cli: "ZkClient_start connect k ZkClient_new = Inr cli" using r by blast
  have nul: "NUL \<notin> set ?host" using r dec_no_nul by auto
  have d: "ZkClient_getNodeData api (node_path sname m) z = Inr (?host, [])"
    by (rule getNodeData_healthy [OF assms(2) node_path_ok _ nul]) (use r in simp_all)
  have pos: "find_char CHR '':'' ?host 0 = length ip" using find_char_hit [of "CHR '':''" ip "dec port"] r by simp
  have "length ip \<noteq> npos" "length (dec port) \<le> npos" using r by (auto simp: npos_def)
  moreover have "target_addr ?host (length ip) = Inr (ip, of_nat port)"
    by (rule target_addr_dec) (use r \<open>length (dec port) \<le> npos\<close> in auto)
  ultimately show ?thesis
    using hs d pos cli call_bytes_frame [OF len] unat_of_nat_u32 [OF len] b
    by (simp add: KitRpcChannel_CallMethod_def Let_def call_header_def node_path_def)
qed

lemma loop_reply:
  assumes "length bytes < 2 ^ 31" "parse (cstr b) = (True, r)"
  shows "channel_loop bytes (of_nat (length bytes)) parse [ConnUp, Msg b, ConnDown] (call_start ctrl resp) =
    Some (Inr (call_start ctrl resp\<lparr>cs_response := r, cs_sent := [bytes], cs_shutdown := True, cs_destroyed := True,
      cs_quit := True\<rparr>))"
proof -
  have "unat (of_nat (length bytes) :: u32) = length bytes" using assms(1) by (intro unat_of_nat_u32) simp
  then show ?thesis using assms
    by (simp add: on_connection_def on_message_def call_start_def Let_def)
qed

lemma loop_nothing:
  assumes "length bytes < 2 ^ 31"
  shows "channel_loop bytes (of_nat (length bytes)) parse [ConnUp, ConnDown] (call_start ctrl resp) =
    Some (Inr (call_start ctrl resp\<lparr>cs_sent := [bytes], cs_destroyed := True, cs_quit := True\<rparr>))"
proof -
  have "unat (of_nat (length bytes) :: u32) = length bytes" using assms(1) by (intro unat_of_nat_u32) simp
  then show ?thesis using assms by (simp add: on_connection_def call_start_def)
qed

text \<open>A call whose server answers and closes returns with the parsed response, no failure, and exactly
  one frame sent, to the address registered for the method: the header's argument size and the
  length prefix are those of the arguments and of the header.\<close>

theorem CallMethod_returns_response:
  assumes "codec_ok hf good" "zk_laws api nodes eph"
    and "call_ready hf good connect k (nodes z) sname m args ip port"
    and "net ip (of_nat port) (request_bytes hf (call_header sname m args, args)) = [ConnUp, Msg b, ConnDown]"
    and "NUL \<notin> set b" "parse b = (True, r)"
  shows "\<exists>st. KitRpcChannel_CallMethod hf api connect k net parse sname m (Some args) ctrl resp z = Some (Inr (st, []))
    \<and> cs_response st = r \<and> cs_controller st = ctrl \<and> cs_quit st
    \<and> cs_sent st = [request_bytes hf (call_header sname m args, args)]"
proof -
  have "length (request_bytes hf (call_header sname m args, args)) < 2 ^ 31"
    using assms(3) by (simp add: call_ready_def)
  from loop_reply [OF this, of parse b r] assms(5,6) show ?thesis
    unfolding CallMethod_reaches_network [OF assms(1-3)] Let_def assms(4)
    by (simp add: call_start_def)
qed

text \<open>C13. The response is read as a C string: what follows its first NUL byte never reaches the parser,
  so two answers that agree up to it are indistinguishable, and an answer that does not parse
  when cut there fails the call.\<close>

theorem CallMethod_truncates_response:
  assumes "codec_ok hf good" "zk_laws api nodes eph"
    and "call_ready hf good connect k (nodes z) sname m args ip port"
    and "net ip (of_nat port) (request_bytes hf (call_header sname m args, args)) = [ConnUp, Msg (b @ NUL # rest), ConnDown]"
    and "NUL \<notin> set b" "parse b = (False, r)"
  shows "\<exists>st. KitRpcChannel_CallMethod hf api connect k net parse sname m (Some args) (Some c) resp z = Some (Inr (st, []))
    \<and> (\<exists>c'. cs_controller st = Some c' \<and> KitRpcController_Failed c'
        \<and> KitRpcController_ErrorText c' = ''response->ParseFromString error'')"
proof -
  let ?n = "length (request_bytes hf (call_header sname m args, args))"
  have n: "?n < 2 ^ 31" using assms(3) by (simp add: call_ready_def)
  then have "unat (of_nat ?n :: u32) = ?n" by (intro unat_of_nat_u32) simp
  with n show ?thesis
    unfolding CallMethod_reaches_network [OF assms(1-3)] Let_def assms(4)
    by (simp add: call_start_def on_connection_def on_message_def cstr_nul [OF assms(5)] assms(6) set_failed_def
        controller_simps)
qed

text \<open>A connection that is never reported down.\<close>

lemma loop_waits:
  "\<forall>e \<in> set es. e \<noteq> ConnDown \<Longrightarrow> \<not> cs_quit st \<Longrightarrow> cs_controller st \<noteq> None \<Longrightarrow> unat len < 2 ^ 31 \<Longrightarrow>
     channel_loop bytes len parse es st = None"
proof (induction es arbitrary: st)
  case Nil
  then show ?case by simp
next
  case (Cons e es)
  show ?case
  proof (cases e)
    case ConnUp
    with Cons.prems show ?thesis by (simp add: on_connection_def Cons.IH)
  next
    case ConnDown
    with Cons.prems show ?thesis by simp
  next
    case (Msg b)
    obtain ok r where "parse (cstr b) = (ok, r)" by fastforce
    with Msg Cons.prems obtain st' where "on_message parse b st = Inr st'" "\<not> cs_quit st'" "cs_controller st' \<noteq> None"
      by (cases ok) (auto simp: on_message_def Let_def set_failed_def)
    with Msg Cons.prems show ?thesis by (simp add: Cons.IH)
  qed
qed

text \<open>There is no timeout: as long as the connection is not reported down, whatever arrives, the call
  does not return.\<close>

theorem CallMethod_waits_forever:
  assumes "codec_ok hf good" "zk_laws api nodes eph"
    and "call_ready hf good connect k (nodes z) sname m args ip port"
    and "\<forall>e \<in> set (net ip (of_nat port) (request_bytes hf (call_header sname m args, args))). e \<noteq> ConnDown"
  shows "KitRpcChannel_CallMethod hf api connect k net parse sname m (Some args) (Some c) resp z = None"
proof -
  let ?n = "length (request_bytes hf (call_header sname m args, args))"
  have n: "?n < 2 ^ 31" using assms(3) by (simp add: call_ready_def)
  then have "unat (of_nat ?n :: u32) = ?n" by (intro unat_of_nat_u32) simp
  with n loop_waits [OF assms(4), of "call_start (Some c) resp" "of_nat ?n"] show ?thesis
    unfolding CallMethod_reaches_network [OF assms(1-3)] Let_def by (simp add: call_start_def)
qed

section \<open>A response in pieces\<close>

lemma loop_pieces:
  assumes "cs_controller st = Some c" "\<not> cs_quit st"
  shows "\<exists>st'. channel_loop bytes len parse (map Msg bs @ [ConnDown]) st = Some (Inr st')
    \<and> cs_sent st' = cs_sent st \<and> cs_quit st'
    \<and> cs_response st' = (if bs = [] then cs_response st else snd (parse (cstr (last bs))))
    \<and> (\<exists>c'. cs_controller st' = Some c'
        \<and> KitRpcController_Failed c' = (KitRpcController_Failed c \<or> (\<exists>b \<in> set bs. \<not> fst (parse (cstr b)))))"
  using assms
proof (induction bs arbitrary: st c)
  case Nil
  then show ?case by (simp add: on_connection_def)
next
  case (Cons b bs)
  obtain ok r where p: "parse (cstr b) = (ok, r)" by fastforce
  define c1 where "c1 = (if ok then c else KitRpcController_SetFailed ''response->ParseFromString error'' c)"
  define st1 where "st1 = st\<lparr>cs_response := r, cs_controller := Some c1, cs_shutdown := True\<rparr>"
  have m: "on_message parse b st = Inr st1"
    using Cons.prems(1) by (simp add: on_message_def p st1_def c1_def set_failed_def)
  have f: "KitRpcController_Failed c1 = (KitRpcController_Failed c \<or> \<not> ok)"
    by (simp add: c1_def KitRpcController_Failed_def KitRpcController_SetFailed_def)
  have st1: "cs_controller st1 = Some c1" "\<not> cs_quit st1" "cs_sent st1 = cs_sent st" "cs_response st1 = r"
    using Cons.prems(2) by (simp_all add: st1_def)
  from Cons.IH [OF st1(1,2)] show ?case
    using Cons.prems(2) m p f st1(3,4) by (auto simp: disj_assoc)
qed

text \<open>From the start of the loop: nothing after the connection, or the pieces of an answer and the end.\<close>

lemma loop_connected:
  assumes "length bytes < 2 ^ 31"
  shows "\<exists>st'. channel_loop bytes (of_nat (length bytes)) parse (ConnUp # map Msg bs @ [ConnDown]) (call_start (Some c) resp) = Some (Inr st')
    \<and> cs_sent st' = [bytes] \<and> cs_response st' = (if bs = [] then resp else snd (parse (cstr (last bs))))
    \<and> (\<exists>c'. cs_controller st' = Some c'
        \<and> KitRpcController_Failed c' = (KitRpcController_Failed c \<or> (\<exists>b \<in> set bs. \<not> fst (parse (cstr b)))))"
proof -
  have u: "unat (of_nat (length bytes) :: u32) = length bytes" using assms by (intro unat_of_nat_u32) simp
  let ?st = "call_start (Some c) resp\<lparr>cs_sent := [bytes]\<rparr>"
  have up: "on_connection bytes (of_nat (length bytes)) True (call_start (Some c) resp) = Inr ?st"
    using assms u by (simp add: on_connection_def call_start_def)
  have st: "cs_controller ?st = Some c" "\<not> cs_quit ?st" "\<not> cs_quit (call_start (Some c) resp)"
    "cs_sent ?st = [bytes]" "cs_response ?st = resp"
    by (simp_all add: call_start_def)
  show ?thesis
    using loop_pieces [OF st(1,2), of bytes "of_nat (length bytes)" parse bs] up st by auto
qed

lemma loop_connected_waits:
  assumes "length bytes < 2 ^ 31"
  shows "channel_loop bytes (of_nat (length bytes)) parse [ConnUp] (call_start (Some c) resp) = None"
proof -
  have "unat (of_nat (length bytes) :: u32) = length bytes" using assms by (intro unat_of_nat_u32) simp
  then show ?thesis using loop_waits [of "[ConnUp]" "call_start (Some c) resp"] assms by (simp add: call_start_def)
qed

text \<open>C20. A response that arrives in pieces is not put together: every piece is parsed by itself as a C
  string, the call returns with what the last piece alone gave, and the controller is failed when
  any of the pieces did not parse.\<close>

theorem CallMethod_parses_pieces:
  assumes "codec_ok hf good" "zk_laws api nodes eph"
    and "call_ready hf good connect k (nodes z) sname m args ip port"
    and "net ip (of_nat port) (request_bytes hf (call_header sname m args, args)) = ConnUp # map Msg bs @ [ConnDown]"
    and "bs \<noteq> []" "\<not> KitRpcController_Failed c"
  shows "\<exists>st c'. KitRpcChannel_CallMethod hf api connect k net parse sname m (Some args) (Some c) resp z = Some (Inr (st, []))
    \<and> cs_sent st = [request_bytes hf (call_header sname m args, args)]
    \<and> cs_response st = snd (parse (cstr (last bs))) \<and> cs_controller st = Some c'
    \<and> (KitRpcController_Failed c' \<longleftrightarrow> (\<exists>b \<in> set bs. \<not> fst (parse (cstr b))))"
proof -
  have n: "length (request_bytes hf (call_header sname m args, args)) < 2 ^ 31" using assms(3) by (simp add: call_ready_def)
  show ?thesis
    unfolding CallMethod_reaches_network [OF assms(1-3)] Let_def assms(4)
    using loop_connected [OF n, of parse bs c resp] assms(5,6) by auto
qed

text \<open>The instances: a ZooKeeper with the echo service registered.\<close>

definition demo_zk :: mem_service where
  "demo_zk = [(''/Echo'', [], False), (''/Echo/Say'', ''127.0.0.1:'' @ dec 8080, True)]"

lemma demo_header: "length args = 2 \<Longrightarrow> call_header ''Echo'' echo_method args = echo_header"
  by (simp add: call_header_def echo_header_def echo_method_def)

lemma echo_method_name: "md_name echo_method = ''Say''"
  by (simp add: echo_method_def)

lemma demo_ready:
  assumes "length args = 2"
  shows "call_ready proto_format (\<lambda>h. True) (\<lambda>_. Connected) demo_app (mem_nodes demo_zk) ''Echo'' echo_method args ''127.0.0.1'' 8080"
proof -
  have "length (dec 8080) \<le> 4" using dec_length [of 8080 3] by simp
  then show ?thesis
    using assms demo_get(2)
    by (simp add: call_ready_def demo_header [OF assms] echo_length name_ok_def zk_name_ok_def echo_method_name demo_zk_def
        mem_nodes_def um_find_def node_path_def)
qed

text \<open>An echo peer, and the echo response's parser.\<close>

definition demo_net :: "string \<Rightarrow> net_event list \<Rightarrow> string \<Rightarrow> u16 \<Rightarrow> string \<Rightarrow> net_event list" where
  "demo_net b es ip port bytes = ConnUp # Msg b # es"

theorem CallMethod_returns_response_witness:
  "\<exists>st. KitRpcChannel_CallMethod proto_format mem_zoo (\<lambda>_. Connected) demo_app (demo_net ''hi'' [ConnDown]) (Pair True)
      ''Echo'' echo_method (Some ''hi'') None [] demo_zk = Some (Inr (st, []))
    \<and> cs_response st = ''hi'' \<and> cs_controller st = None \<and> cs_quit st
    \<and> cs_sent st = [request_bytes proto_format (call_header ''Echo'' echo_method ''hi'', ''hi'')]"
  by (rule CallMethod_returns_response [OF proto_codec_ok mem_zoo_laws demo_ready, where b = "''hi''"])
    (simp_all add: demo_net_def)

theorem CallMethod_truncates_response_witness:
  "\<exists>st. KitRpcChannel_CallMethod proto_format mem_zoo (\<lambda>_. Connected) demo_app
      (demo_net ([CHR 0x0A] @ NUL # []) [ConnDown]) (\<lambda>s. (get_fields s \<noteq> None, s))
      ''Echo'' echo_method (Some ''hi'') (Some KitRpcController_new) [] demo_zk = Some (Inr (st, []))
    \<and> (\<exists>c'. cs_controller st = Some c' \<and> KitRpcController_Failed c'
        \<and> KitRpcController_ErrorText c' = ''response->ParseFromString error'')"
  by (rule CallMethod_truncates_response [OF proto_codec_ok mem_zoo_laws demo_ready, where b = "[CHR 0x0A]"])
    (simp_all add: demo_net_def get_fields.simps)

theorem CallMethod_waits_forever_witness:
  "KitRpcChannel_CallMethod proto_format mem_zoo (\<lambda>_. Connected) demo_app (demo_net ''hi'' []) (Pair True)
      ''Echo'' echo_method (Some ''hi'') (Some KitRpcController_new) [] demo_zk = None"
  by (rule CallMethod_waits_forever [OF proto_codec_ok mem_zoo_laws demo_ready]) (simp_all add: demo_net_def)

theorem CallMethod_parses_pieces_witness:
  "\<exists>st c'. KitRpcChannel_CallMethod proto_format mem_zoo (\<lambda>_. Connected) demo_app
      (demo_net ''h'' [Msg ''i'', ConnDown]) (\<lambda>s. (s = ''hi'', s))
      ''Echo'' echo_method (Some ''hi'') (Some KitRpcController_new) [] demo_zk = Some (Inr (st, []))
    \<and> cs_response st = ''i'' \<and> cs_controller st = Some c' \<and> KitRpcController_Failed c'"
  using CallMethod_parses_pieces [OF proto_codec_ok mem_zoo_laws demo_ready, where bs = "[''h'', ''i'']"
      and args = "''hi''" and net = "demo_net ''h'' [Msg ''i'', ConnDown]" and parse = "\<lambda>s. (s = ''hi'', s)"
      and c = KitRpcController_new and resp = "[]"]
  by (auto simp: demo_net_def KitRpcController_new_def KitRpcController_Failed_def)

lemma call_unregistered:
  assumes "zk_laws api nodes eph" "nodes z (node_path sname m) = None" "name_ok sname" "name_ok (md_name m)"
    and "hf_serialize hf (call_header sname m args) = Some hs" "length (frame hs args) < 2 ^ 32"
    and "ZkClient_start connect k ZkClient_new = Inr cli"
  shows "\<exists>st lg. KitRpcChannel_CallMethod hf api connect k net parse sname m (Some args) (Some c) resp z = Some (Inr (st, lg))
    \<and> cs_sent st = [] \<and> cs_response st = resp
    \<and> cs_controller st = Some (KitRpcController_SetFailed ''zookeeper get ip/port is null'' c)
    \<and> KitRpcChannel_CallMethod hf api connect k net parse sname m (Some args) None resp z = Some (Inl NullDeref)"
proof -
  obtain lg where d: "ZkClient_getNodeData api (node_path sname m) z = Inr ([], lg)"
    using zk_getNodeData_missing [OF assms(1) node_path_ok [OF assms(3,4)] assms(2)] by blast
  show "\<exists>st lg. KitRpcChannel_CallMethod hf api connect k net parse sname m (Some args) (Some c) resp z = Some (Inr (st, lg))
    \<and> cs_sent st = [] \<and> cs_response st = resp
    \<and> cs_controller st = Some (KitRpcController_SetFailed ''zookeeper get ip/port is null'' c)
    \<and> KitRpcChannel_CallMethod hf api connect k net parse sname m (Some args) None resp z = Some (Inl NullDeref)"
    using d assms(5,7) call_bytes_frame [OF assms(6)]
    by (simp add: KitRpcChannel_CallMethod_def Let_def call_header_def node_path_def set_failed_def call_start_def)
qed

text \<open>C15. A method that is not registered fails the call before anything is sent: the controller carries the
  reason, and a caller that passed no controller makes the call dereference null.\<close>

theorem CallMethod_unregistered:
  assumes "zk_laws api nodes eph" "nodes z (node_path sname m) = None" "name_ok sname" "name_ok (md_name m)"
    and "hf_serialize hf (call_header sname m args) = Some hs" "length (frame hs args) < 2 ^ 32"
    and "ZkClient_start connect k ZkClient_new = Inr cli"
  shows "\<exists>st lg. KitRpcChannel_CallMethod hf api connect k net parse sname m (Some args) (Some c) resp z = Some (Inr (st, lg))
    \<and> cs_sent st = [] \<and> cs_response st = resp
    \<and> cs_controller st = Some (KitRpcController_SetFailed ''zookeeper get ip/port is null'' c)
    \<and> KitRpcChannel_CallMethod hf api connect k net parse sname m (Some args) None resp z = Some (Inl NullDeref)"
  by (rule call_unregistered [OF assms])

theorem CallMethod_unregistered_witness:
  "\<exists>st lg. KitRpcChannel_CallMethod proto_format mem_zoo (\<lambda>_. Connected) demo_app (demo_net [] []) (Pair True)
      ''Echo'' echo_method (Some ''hi'') (Some KitRpcController_new) [] [(''/Echo'', [], False)] = Some (Inr (st, lg))
    \<and> cs_sent st = [] \<and> cs_response st = []
    \<and> cs_controller st = Some (KitRpcController_SetFailed ''zookeeper get ip/port is null'' KitRpcController_new)
    \<and> KitRpcChannel_CallMethod proto_format mem_zoo (\<lambda>_. Connected) demo_app (demo_net [] []) (Pair True)
      ''Echo'' echo_method (Some ''hi'') None [] [(''/Echo'', [], False)] = Some (Inl NullDeref)"
proof (rule CallMethod_unregistered [OF mem_zoo_laws _ _ _ _ _ demo_get(2)])
  let ?h = "call_header ''Echo'' echo_method ''hi''"
  show "hf_serialize proto_format ?h = Some (the (hf_serialize proto_format ?h))"
    by (simp add: proto_format_def proto_serialize_def)
  show "length (frame (the (hf_serialize proto_format ?h)) ''hi'') < 2 ^ 32"
    using echo_length [of "''hi''"] by (simp add: demo_header request_bytes_def)
qed (simp_all add: mem_nodes_def um_find_def node_path_def name_ok_def zk_name_ok_def echo_method_name)

text \<open>The port is what \<^verbatim>\<open>stoi\<close> reads, cut to 16 bits without a check: a registered port of 65536 or
  more leads to another one, and an address with nothing after its colon makes the call throw
  \<^verbatim>\<open>std::invalid_argument\<close>.\<close>

theorem target_addr_port:
  assumes "CHR '':'' \<notin> set ip" "n < 2 ^ 31"
  shows "\<exists>p. target_addr (ip @ '':'' @ dec n) (find_char CHR '':'' (ip @ '':'' @ dec n) 0) = Inr (ip, p)
      \<and> unat p = n mod 65536
    \<and> target_addr (ip @ '':'') (find_char CHR '':'' (ip @ '':'') 0) = Inl InvalidArgument"
proof -
  have "length (dec n) \<le> 10" using dec_length [of n 9] assms(2) by simp
  then have "length (dec n) \<le> npos" by (simp add: npos_def)
  moreover have "stoi [] = Inl InvalidArgument" by (simp add: stoi_def)
  moreover have "unat (of_nat n :: u16) = n mod 65536" by (simp add: unsigned_of_nat take_bit_eq_mod)
  ultimately show ?thesis
    using target_addr_dec [OF assms] find_char_hit [OF assms(1), of "dec n"] find_char_hit [OF assms(1), of "[]"]
    by (auto simp: target_addr_def)
qed

theorem target_addr_port_witness:
  "\<exists>p. target_addr (''h'' @ '':'' @ dec 73616) (find_char CHR '':'' (''h'' @ '':'' @ dec 73616) 0) = Inr (''h'', p)
      \<and> unat p = 73616 mod 65536
    \<and> target_addr (''h'' @ '':'') (find_char CHR '':'' (''h'' @ '':'') 0) = Inl InvalidArgument"
  by (rule target_addr_port) simp_all

end
