(* ===== verification/UserService.thy ===== *)
theory UserService
  imports ClientCall
begin

text \<open>
  \<^verbatim>\<open>example/callee/userservice.h\<close>: the example service, whose handlers run inside
  \<open>Provide::handleRpcRequest\<close>. The message classes and the dispatch by method that \<^verbatim>\<open>protoc\<close>
  generates from \<^verbatim>\<open>api/proto/user/user.proto\<close> are not in the repository: the parsers and the
  serializer are arguments, with the protobuf wire format as their instance.
\<close>

section \<open>Messages\<close>

record LoginRequest =
  lreq_name :: string
  lreq_pwd :: string

record LogOutRequest =
  oreq_name :: string

record ResultCode =
  rc_errcode :: int
  rc_errmsg :: string

text \<open>\<^verbatim>\<open>LoginResponse\<close> and \<^verbatim>\<open>LogOutResponse\<close> have the same fields.\<close>

record UserResponse =
  ur_result :: ResultCode
  ur_success :: bool

section \<open>The local functions\<close>

definition UserService_Login_local :: "string \<Rightarrow> string \<Rightarrow> string \<times> bool" where
  "UserService_Login_local name pwd =
     (''local Login service ....'' @ [LF] @ ''name= '' @ name @ '', pwd= '' @ pwd @ [LF], True)"

definition UserService_LogOut_local :: "string \<Rightarrow> string \<times> bool" where
  "UserService_LogOut_local name = (''local LogOut service ....'' @ [LF] @ ''name= '' @ name @ [LF], False)"

section \<open>The handlers\<close>

text \<open>What is printed, the response filled in, and whether \<open>done\<close> was run: it is when there is one.\<close>

definition UserService_Login :: "LoginRequest \<Rightarrow> bool \<Rightarrow> string \<times> UserResponse \<times> bool" where
  "UserService_Login request has_done =
     (let (out, success) = UserService_Login_local (lreq_name request) (lreq_pwd request)
      in (''rpc Login service ....'' @ [LF] @ out,
          \<lparr>ur_result = \<lparr>rc_errcode = 0, rc_errmsg = ''Login OK''\<rparr>, ur_success = success\<rparr>,
          has_done))"

definition UserService_LogOut :: "LogOutRequest \<Rightarrow> bool \<Rightarrow> string \<times> UserResponse \<times> bool" where
  "UserService_LogOut request has_done =
     (let (out, success) = UserService_LogOut_local (oreq_name request)
      in (''rpc LogOut service ....'' @ [LF] @ out,
          \<lparr>ur_result = \<lparr>rc_errcode = 11, rc_errmsg = ''LogOut Faild''\<rparr>, ur_success = success\<rparr>,
          has_done))"

section \<open>The service as the provider sees it\<close>

datatype user_request = LoginReq LoginRequest | LogOutReq LogOutRequest

record user_messages =
  us_serialize_login :: "LoginRequest \<Rightarrow> string option"
  us_serialize_logout :: "LogOutRequest \<Rightarrow> string option"
  us_parse_login :: "string \<Rightarrow> LoginRequest option"
  us_parse_logout :: "string \<Rightarrow> LogOutRequest option"
  us_serialize :: "UserResponse \<Rightarrow> string option"
  us_parse_response :: "string \<Rightarrow> bool \<times> UserResponse"

definition login_method :: MethodDescriptor where
  "login_method = \<lparr>md_name = ''Login'', md_full_name = ''kit_rpc.UserServiceRpc.Login''\<rparr>"

definition logout_method :: MethodDescriptor where
  "logout_method = \<lparr>md_name = ''LogOut'', md_full_name = ''kit_rpc.UserServiceRpc.LogOut''\<rparr>"

definition user_CallMethod :: "MethodDescriptor \<Rightarrow> user_request \<Rightarrow> string \<times> UserResponse option" where
  "user_CallMethod m request =
     (case (case request of LoginReq r \<Rightarrow> UserService_Login r True | LogOutReq r \<Rightarrow> UserService_LogOut r True) of
        (out, response, has_run) \<Rightarrow> (out, if has_run then Some response else None))"

definition user_service :: "user_messages \<Rightarrow> (user_request, UserResponse) GPService" where
  "user_service um = \<lparr>sd_name = ''UserServiceRpc'', sd_methods = [login_method, logout_method],
     sv_parse_request = (\<lambda>m s. if md_name m = ''Login'' then map_option LoginReq (us_parse_login um s)
                               else map_option LogOutReq (us_parse_logout um s)),
     sv_CallMethod = user_CallMethod,
     sv_serialize = (\<lambda>m. us_serialize um)\<rparr>"

definition user_provider :: "user_messages \<Rightarrow> string \<Rightarrow> u16 \<Rightarrow> string \<Rightarrow> (user_request, UserResponse) Provide" where
  "user_provider um ip port name = Provide_notifyService (user_service um) (Provide_new ip port name)"

lemma user_map:
  "um_find (pv_servicesMap (user_provider um ip port name)) k =
     (if k = ''UserServiceRpc'' then Some (info_of (user_service um)) else None)"
  using publish_service [of "[user_service um]" ip port name k]
  by (simp add: publish_def user_provider_def user_service_def)

lemma user_methods:
  "um_find (si_methodsMap (info_of (user_service um))) ''Login'' = Some login_method"
  "um_find (si_methodsMap (info_of (user_service um))) ''LogOut'' = Some logout_method"
  by (simp_all add: info_of_method user_service_def login_method_def logout_method_def)

text \<open>A \<open>Login\<close> request handled by the provider prints the two lines with the name and the password
  and answers success with code 0; a \<open>LogOut\<close> request always answers failure with code 11. Each
  answer is one message followed by the shutdown.\<close>

theorem user_service_answers:
  assumes "us_parse_login um args = Some lr" "us_serialize um \<lparr>ur_result = \<lparr>rc_errcode = 0, rc_errmsg = ''Login OK''\<rparr>, ur_success = True\<rparr> = Some ok"
    and "us_parse_logout um args' = Some lo" "us_serialize um \<lparr>ur_result = \<lparr>rc_errcode = 11, rc_errmsg = ''LogOut Faild''\<rparr>, ur_success = False\<rparr> = Some bad"
  shows "Provide_handleRpcRequest (user_provider um ip port name)
      \<lparr>rh_service_name = ''UserServiceRpc'', rh_method_name = ''Login'', rh_args_size = n\<rparr> args =
    [PvOut (''rpc Login service ....'' @ [LF] @ ''local Login service ....'' @ [LF]
        @ ''name= '' @ lreq_name lr @ '', pwd= '' @ lreq_pwd lr @ [LF]), PvSend ok, PvShutdown]
   \<and> Provide_handleRpcRequest (user_provider um ip port name)
      \<lparr>rh_service_name = ''UserServiceRpc'', rh_method_name = ''LogOut'', rh_args_size = n'\<rparr> args' =
    [PvOut (''rpc LogOut service ....'' @ [LF] @ ''local LogOut service ....'' @ [LF]
        @ ''name= '' @ oreq_name lo @ [LF]), PvSend bad, PvShutdown]"
proof -
  have s: "si_service (info_of (user_service um)) = user_service um" by (simp add: info_of_def)
  have f: "sv_parse_request (user_service um) login_method = (\<lambda>s. map_option LoginReq (us_parse_login um s))"
    "sv_parse_request (user_service um) logout_method = (\<lambda>s. map_option LogOutReq (us_parse_logout um s))"
    "sv_CallMethod (user_service um) = user_CallMethod" "sv_serialize (user_service um) m = us_serialize um" for m
    by (simp_all add: user_service_def login_method_def logout_method_def)
  show ?thesis
    using assms
    by (simp add: Provide_handleRpcRequest_def user_map user_methods Let_def s f user_CallMethod_def
        UserService_Login_def UserService_LogOut_def UserService_Login_local_def UserService_LogOut_local_def
        Provide_sendRpcResponse_def)
qed

section \<open>The messages in the protobuf wire format\<close>

definition proto_login :: "string \<Rightarrow> LoginRequest option" where
  "proto_login s = map_option (\<lambda>fs. \<lparr>lreq_name = bytes_field 1 fs, lreq_pwd = bytes_field 2 fs\<rparr>) (get_fields s)"

definition proto_logout :: "string \<Rightarrow> LogOutRequest option" where
  "proto_logout s = map_option (\<lambda>fs. \<lparr>oreq_name = bytes_field 1 fs\<rparr>) (get_fields s)"

definition login_bytes :: "LoginRequest \<Rightarrow> string" where
  "login_bytes r = put_fields (put_bytes 1 (lreq_name r) @ put_bytes 2 (lreq_pwd r))"

definition logout_bytes :: "LogOutRequest \<Rightarrow> string" where
  "logout_bytes r = put_fields (put_bytes 1 (oreq_name r))"

definition response_bytes :: "UserResponse \<Rightarrow> string" where
  "response_bytes r = put_fields
     ((1, Bytes (put_fields (put_int 1 (nat (rc_errcode (ur_result r) mod 2 ^ 64)) @ put_bytes 2 (rc_errmsg (ur_result r)))))
      # put_int 2 (if ur_success r then 1 else 0))"

definition empty_response :: UserResponse where
  "empty_response = \<lparr>ur_result = \<lparr>rc_errcode = 0, rc_errmsg = []\<rparr>, ur_success = False\<rparr>"

definition proto_response :: "string \<Rightarrow> bool \<times> UserResponse" where
  "proto_response s =
     (case get_fields s of
        None \<Rightarrow> (False, empty_response)
      | Some fs \<Rightarrow>
          (case get_fields (bytes_field 1 fs) of
             None \<Rightarrow> (False, empty_response)
           | Some gs \<Rightarrow> (True, \<lparr>ur_result = \<lparr>rc_errcode = int (int_field 1 gs), rc_errmsg = bytes_field 2 gs\<rparr>,
                               ur_success = (int_field 2 fs \<noteq> 0)\<rparr>)))"

definition proto_messages :: user_messages where
  "proto_messages = \<lparr>us_serialize_login = (\<lambda>r. Some (login_bytes r)), us_serialize_logout = (\<lambda>r. Some (logout_bytes r)),
     us_parse_login = proto_login, us_parse_logout = proto_logout,
     us_serialize = (\<lambda>r. Some (response_bytes r)), us_parse_response = proto_response\<rparr>"

lemma proto_login_roundtrip: "proto_login (login_bytes r) = Some r"
proof -
  have "get_fields (login_bytes r) = Some (put_bytes 1 (lreq_name r) @ put_bytes 2 (lreq_pwd r))"
    unfolding login_bytes_def by (rule get_put_fields) (auto simp: field_simps split: if_splits)
  then show ?thesis by (cases r) (simp add: proto_login_def field_simps)
qed

lemma proto_logout_roundtrip: "proto_logout (logout_bytes r) = Some r"
proof -
  have "get_fields (logout_bytes r) = Some (put_bytes 1 (oreq_name r))"
    unfolding logout_bytes_def by (rule get_put_fields) (auto simp: field_simps split: if_splits)
  then show ?thesis by (cases r) (simp add: proto_logout_def field_simps)
qed

lemma proto_response_roundtrip:
  assumes "0 \<le> rc_errcode (ur_result r)" "rc_errcode (ur_result r) < 2 ^ 64"
  shows "proto_response (response_bytes r) = (True, r)"
proof -
  let ?gs = "put_int 1 (nat (rc_errcode (ur_result r) mod 2 ^ 64)) @ put_bytes 2 (rc_errmsg (ur_result r))"
  let ?fs = "(1, Bytes (put_fields ?gs)) # put_int 2 (if ur_success r then 1 else 0)"
  have 1: "get_fields (put_fields ?fs) = Some ?fs"
    by (rule get_put_fields) (auto simp: field_simps split: if_splits)
  have 2: "get_fields (put_fields ?gs) = Some ?gs"
    by (rule get_put_fields) (auto simp: field_simps split: if_splits)
  have "bytes_field 1 ?fs = put_fields ?gs" by (simp add: field_simps)
  with 1 2 have "proto_response (response_bytes r) = (True, \<lparr>ur_result = \<lparr>rc_errcode = int (int_field 1 ?gs),
      rc_errmsg = bytes_field 2 ?gs\<rparr>, ur_success = (int_field 2 ?fs \<noteq> 0)\<rparr>)"
    by (simp add: proto_response_def response_bytes_def)
  also have "\<dots> = (True, r)"
    using assms by (cases r, cases "ur_result r") (auto simp: field_simps)
  finally show ?thesis .
qed

theorem user_service_answers_witness:
  "Provide_handleRpcRequest (user_provider proto_messages ''127.0.0.1'' 8080 ''unknow'')
      \<lparr>rh_service_name = ''UserServiceRpc'', rh_method_name = ''Login'', rh_args_size = 0\<rparr> [] =
    [PvOut (''rpc Login service ....'' @ [LF] @ ''local Login service ....'' @ [LF]
        @ ''name= '' @ lreq_name \<lparr>lreq_name = [], lreq_pwd = []\<rparr> @ '', pwd= '' @ lreq_pwd \<lparr>lreq_name = [], lreq_pwd = []\<rparr> @ [LF]),
     PvSend (response_bytes \<lparr>ur_result = \<lparr>rc_errcode = 0, rc_errmsg = ''Login OK''\<rparr>, ur_success = True\<rparr>), PvShutdown]
   \<and> Provide_handleRpcRequest (user_provider proto_messages ''127.0.0.1'' 8080 ''unknow'')
      \<lparr>rh_service_name = ''UserServiceRpc'', rh_method_name = ''LogOut'', rh_args_size = 0\<rparr> [] =
    [PvOut (''rpc LogOut service ....'' @ [LF] @ ''local LogOut service ....'' @ [LF]
        @ ''name= '' @ oreq_name \<lparr>oreq_name = []\<rparr> @ [LF]),
     PvSend (response_bytes \<lparr>ur_result = \<lparr>rc_errcode = 11, rc_errmsg = ''LogOut Faild''\<rparr>, ur_success = False\<rparr>), PvShutdown]"
  by (rule user_service_answers) (simp_all add: proto_messages_def proto_login_def proto_logout_def get_fields.simps field_simps)

end
