(* ===== verification/EndToEnd.thy ===== *)
theory EndToEnd
  imports UserService
begin

text \<open>
  A call across both sides: the client's call on the provider's answer, over a ZooKeeper that
  the provider has registered with.
\<close>

section \<open>A call across both sides\<close>

text \<open>
  The network between one client and the provider, when the request arrives in one read and
  the answer in one message: what the client sees of the handler's events ends at the shutdown. An
  answer of no bytes puts nothing on the connection, so no message arrives.
\<close>

fun client_sees :: "pv_event list \<Rightarrow> net_event list" where
  "client_sees [] = []"
| "client_sees (PvSend s # es) = (if s = [] then client_sees es else Msg s # client_sees es)"
| "client_sees (PvShutdown # es) = [ConnDown]"
| "client_sees (_ # es) = client_sees es"

definition provider_net ::
  "header_format \<Rightarrow> ('q, 'p) Provide \<Rightarrow> string \<Rightarrow> u16 \<Rightarrow> string \<Rightarrow> net_event list" where
  "provider_net hf p ip port bytes =
     (if serving p \<and> ip = pv_ip p \<and> port = pv_port p
      then case Provide_onMessage (length bytes + 1) hf p bytes of
             None \<Rightarrow> [ConnUp]
           | Some (evs, _) \<Rightarrow> ConnUp # client_sees evs
      else [])"

text \<open>A published method, and what its service answers to the arguments.\<close>

definition serves :: "('q, 'p) Provide \<Rightarrow> ('q, 'p) ServiceInfo \<Rightarrow> MethodDescriptor \<Rightarrow> string \<Rightarrow> string \<Rightarrow> bool" where
  "serves p si m args b \<longleftrightarrow>
     um_find (pv_servicesMap p) (sd_name (si_service si)) = Some si
     \<and> um_find (si_methodsMap si) (md_name m) = Some m
     \<and> (case sv_parse_request (si_service si) m args of
          None \<Rightarrow> False
        | Some q \<Rightarrow> (case snd (sv_CallMethod (si_service si) m q) of
            None \<Rightarrow> False
          | Some r \<Rightarrow> sv_serialize (si_service si) m r = Some b))"

lemma completed_running [simp]: "completed (running cores p) h args = completed p h args"
  by (simp add: completed_def)

lemma serves_running [simp]: "serves (running cores p) si m args b = serves p si m args b"
  by (simp add: serves_def)

lemma serves_completed:
  "serves p si m args b \<Longrightarrow> completed p (call_header (sd_name (si_service si)) m args) args = Some (Some b)"
  by (auto simp: serves_def completed_def call_header_def split: option.splits)

text \<open>What the client sees of one request, whatever becomes of it on the provider's side.\<close>

definition answer_events :: "string option option \<Rightarrow> net_event list" where
  "answer_events a = (case a of None \<Rightarrow> [] | Some None \<Rightarrow> [ConnDown]
     | Some (Some b) \<Rightarrow> (if b = [] then [] else [Msg b]) @ [ConnDown])"

lemma client_sees_handled: "client_sees (Provide_handleRpcRequest p h args) = answer_events (completed p h args)"
  by (simp add: Provide_handleRpcRequest_def completed_def answer_events_def Provide_sendRpcResponse_def Let_def
      split: option.split prod.split)

lemma onMessage_call:
  assumes "codec_ok hf good" "good (call_header sname m args)"
    and "length (request_bytes hf (call_header sname m args, args)) < 2 ^ 32"
  shows "Provide_onMessage (length (request_bytes hf (call_header sname m args, args)) + 1) hf p
      (request_bytes hf (call_header sname m args, args)) =
    Some (Provide_handleRpcRequest p (call_header sname m args) args, None)"
proof -
  let ?h = "call_header sname m args"
  have "length args < 2 ^ 32" using assms(3) by (simp add: request_bytes_def frame_def)
  then have ok: "\<forall>r \<in> set [(?h, args)]. request_ok good r"
    using assms(2) by (simp add: request_ok_def call_header_def unat_of_nat_u32)
  have l: "length (batch hf [(?h, args)]) < 2 ^ 32" using assms(3) by simp
  have "0 < length (request_bytes hf (?h, args))" by (simp add: request_bytes_def frame_def)
  then show ?thesis
    using onMessage_batch_all [OF assms(1) ok l, of "length (request_bytes hf (?h, args)) + 1" p] by simp
qed

lemma provider_net_events:
  assumes "codec_ok hf good" "good (call_header sname m args)"
    and "length (request_bytes hf (call_header sname m args, args)) < 2 ^ 32" "serving p"
  shows "provider_net hf p (pv_ip p) (pv_port p) (request_bytes hf (call_header sname m args, args)) =
    ConnUp # answer_events (completed p (call_header sname m args) args)"
  using onMessage_call [OF assms(1-3), where p = p] assms(4) by (simp add: provider_net_def client_sees_handled)

text \<open>The client's part, on any state of the service that holds the method's address.\<close>

lemma call_answered:
  assumes "codec_ok hf good" "zk_laws api nodes eph" "serves p si m args b" "NUL \<notin> set b" "parse b = (True, r)"
    and "call_ready hf good connect kc (nodes z) (sd_name (si_service si)) m args ip port"
    and "serving p" "pv_ip p = ip" "pv_port p = of_nat port"
  shows "\<exists>st. KitRpcChannel_CallMethod hf api connect kc (provider_net hf p) parse
        (sd_name (si_service si)) m (Some args) ctrl resp z = Some (Inr (st, []))
    \<and> cs_response st = (if b = [] then resp else r) \<and> cs_controller st = ctrl"
proof -
  let ?sn = "sd_name (si_service si)"
  have g: "good (call_header ?sn m args)" and len: "length (request_bytes hf (call_header ?sn m args, args)) < 2 ^ 31"
    using assms(6) by (simp_all add: call_ready_def)
  have net: "provider_net hf p ip (of_nat port) (request_bytes hf (call_header ?sn m args, args))
      = ConnUp # (if b = [] then [] else [Msg b]) @ [ConnDown]"
    using provider_net_events [OF assms(1) g, where p = p] serves_completed [OF assms(3)] len assms(7-9) by (simp add: answer_events_def)
  have "cstr b = b" using assms(4) by simp
  with loop_reply [OF len, of parse b r] loop_nothing [OF len, of parse] assms(5) show ?thesis
    unfolding CallMethod_reaches_network [OF assms(1,2,6)] Let_def net
    by (cases "b = []") (simp_all add: call_start_def del: channel_loop.simps)
qed

text \<open>C4. What becomes of a call is what the service made of it: the call returns exactly when the provider
  has the method, the arguments parse and the handler completes, and hangs otherwise; a response that does not
  serialize, or serializes to no bytes, comes back as a success with the response object untouched; else the response is
  what the parser makes of the answer up to its first NUL, and the controller is failed exactly
  when that does not parse.\<close>

theorem call_outcome:
  assumes "codec_ok hf good" "zk_laws api nodes eph" "call_ready hf good connect kc (nodes z) sname m args ip port"
    and "\<not> KitRpcController_Failed c" "serving p" "pv_ip p = ip" "pv_port p = of_nat port"
  shows "case completed p (call_header sname m args) args of
      None \<Rightarrow> KitRpcChannel_CallMethod hf api connect kc (provider_net hf p) parse sname m (Some args) (Some c) resp z = None
    | Some answer \<Rightarrow> \<exists>st c'. KitRpcChannel_CallMethod hf api connect kc (provider_net hf p) parse
          sname m (Some args) (Some c) resp z = Some (Inr (st, []))
        \<and> cs_controller st = Some c'
        \<and> (case answer of
             None \<Rightarrow> cs_response st = resp \<and> \<not> KitRpcController_Failed c'
           | Some b \<Rightarrow>
               if b = [] then cs_response st = resp \<and> \<not> KitRpcController_Failed c'
               else cs_response st = snd (parse (cstr b)) \<and> KitRpcController_Failed c' = (\<not> fst (parse (cstr b))))"
proof -
  let ?bytes = "request_bytes hf (call_header sname m args, args)"
  have g: "good (call_header sname m args)" and n: "length ?bytes < 2 ^ 31"
    using assms(3) by (simp_all add: call_ready_def)
  have net: "provider_net hf p ip (of_nat port) ?bytes = ConnUp # answer_events (completed p (call_header sname m args) args)"
    using provider_net_events [OF assms(1) g _ assms(5)] n assms(6,7) by simp
  note start = CallMethod_reaches_network [OF assms(1-3)]
  note pieces = loop_connected [OF n, where parse = parse and c = c and resp = resp]
  show ?thesis
  proof (cases "completed p (call_header sname m args) args")
    case None
    then show ?thesis using loop_connected_waits [OF n, where parse = parse and c = c and resp = resp] n
      by (simp add: start net answer_events_def Let_def)
  next
    case (Some answer)
    let ?bs = "case answer of None \<Rightarrow> [] | Some b \<Rightarrow> if b = [] then [] else [b]"
    have "answer_events (Some answer) = map Msg ?bs @ [ConnDown]"
      by (simp add: answer_events_def split: option.split)
    with pieces [of ?bs] assms(4) show ?thesis
      by (cases answer) (auto simp: Some start net Let_def simp del: channel_loop.simps)
  qed
qed

lemma echo_answers:
  "completed echo_provider (call_header ''Echo'' echo_method ''hi'') ''hi'' = Some (Some ''hi'')"
  "completed (Provide_new ip port name) h args = None"
  by (simp_all add: demo_header echo_completed) (simp add: completed_def Provide_new_def um_find_def)

lemma echo_addr:
  "pv_ip (Provide_new ip port name) = ip" "pv_port (Provide_new ip port name) = port"
  "pv_ip echo_provider = ''127.0.0.1''" "pv_port echo_provider = 8080"
  by (simp_all add: echo_provider_def Provide_notifyService_def Provide_new_def pv_ip_def pv_port_def TcpServer_new_def Let_def)

theorem call_outcome_witness:
  "KitRpcChannel_CallMethod proto_format mem_zoo (\<lambda>_. Connected) demo_app
      (provider_net proto_format (running 4 (Provide_new ''127.0.0.1'' 8080 []) :: (string, string) Provide)) (Pair True) ''Echo'' echo_method
      (Some ''hi'') (Some KitRpcController_new) [] demo_zk = None
   \<and> (\<exists>st c'. KitRpcChannel_CallMethod proto_format mem_zoo (\<lambda>_. Connected) demo_app
        (provider_net proto_format (running 4 echo_provider)) (Pair True) ''Echo'' echo_method
        (Some ''hi'') (Some KitRpcController_new) [] demo_zk = Some (Inr (st, []))
      \<and> cs_controller st = Some c' \<and> cs_response st = ''hi'' \<and> \<not> KitRpcController_Failed c')"
proof -
  have ready: "call_ready proto_format (\<lambda>h. True) (\<lambda>_. Connected) demo_app (mem_nodes demo_zk) ''Echo'' echo_method ''hi'' ''127.0.0.1'' 8080"
    by (rule demo_ready) simp
  have c: "\<not> KitRpcController_Failed KitRpcController_new"
    by (simp add: KitRpcController_new_def KitRpcController_Failed_def)
  note outcome = call_outcome [OF proto_codec_ok mem_zoo_laws ready c, where parse = "Pair True" and resp = "[]"]
  show ?thesis
    using outcome [where p = "running 4 (Provide_new ''127.0.0.1'' 8080 []) :: (string, string) Provide"] outcome [where p = "running 4 echo_provider"]
    by (simp add: echo_answers echo_addr)
qed

text \<open>C1. A published method can be called: after the provider has registered its services, in any iteration
  order, a client with the same ZooKeeper that calls a method with arguments its service answers
  gets that answer, when the method was not registered before and the answer has no NUL byte (an
  answer of no bytes leaves the response object as it was); the
  request is parsed back from the client's bytes by the provider's loop, the address from its
  registration.\<close>

theorem rpc_end_to_end:
  assumes "codec_ok hf good" "zk_laws api nodes eph"
    and "names_ok p" "iteration_of p order" "services_kept eph order z" "serves p si m args b" "NUL \<notin> set b" "parse b = (True, r)"
    and "Provide_host ks = Inr (ip @ '':'' @ dec port)" "ZkClient_start connect ks ZkClient_new = Inr cli"
    and "pv_ip p = ip" "pv_port p = of_nat port"
    and "nodes z (method_path (si_service si) m) = None"
    and "call_ready hf good connect kc ((nodes z)(method_path (si_service si) m \<mapsto> ip @ '':'' @ dec port))
      (sd_name (si_service si)) m args ip port"
  shows "\<exists>p' z' lg st. Provide_run cores api connect ks order p z = Inr (p', z', lg)
    \<and> KitRpcChannel_CallMethod hf api connect kc (provider_net hf p') parse
        (sd_name (si_service si)) m (Some args) ctrl resp z' = Some (Inr (st, []))
    \<and> cs_response st = (if b = [] then resp else r) \<and> cs_controller st = ctrl"
proof -
  let ?sn = "sd_name (si_service si)" and ?path = "method_path (si_service si) m"
  have path: "node_path ?sn m = ?path" by (simp add: node_path_def method_path_def service_path_def)
  from assms(6) have finds: "um_find (pv_servicesMap p) ?sn = Some si" "um_find (si_methodsMap si) (md_name m) = Some m"
    by (simp_all add: serves_def)
  have "length (ip @ '':'' @ dec port) < 2 ^ 16" using assms(14) by (simp add: call_ready_def)
  from run_nodes [OF assms(2-5) this assms(9,10) finds, of cores] assms(13) obtain z' lg where
    run: "Provide_run cores api connect ks order p z = Inr (running cores p, z', lg)" and n: "nodes z' ?path = Some (ip @ '':'' @ dec port)"
    by auto
  have "call_ready hf good connect kc (nodes z') ?sn m args ip port"
    using assms(14) n by (simp add: call_ready_def path)
  from call_answered [where p = "running cores p" and nodes = nodes and z = z' and parse = parse and r = r, OF assms(1,2) _ assms(7,8) this]
    assms(6,11,12) run show ?thesis by simp
qed

text \<open>The example service called over the protobuf wire format.\<close>

definition demo_args :: string where
  "demo_args = login_bytes \<lparr>lreq_name = ''zhang san'', lreq_pwd = ''123456''\<rparr>"

definition login_ok :: UserResponse where
  "login_ok = \<lparr>ur_result = \<lparr>rc_errcode = 0, rc_errmsg = ''Login OK''\<rparr>, ur_success = True\<rparr>"

definition logout_faild :: UserResponse where
  "logout_faild = \<lparr>ur_result = \<lparr>rc_errcode = 11, rc_errmsg = ''LogOut Faild''\<rparr>, ur_success = False\<rparr>"

abbreviation "demo_provider \<equiv> user_provider proto_messages ''127.0.0.1'' 8080 ''unknow''"
abbreviation "demo_info \<equiv> info_of (user_service proto_messages)"

lemma demo_service: "si_service demo_info = user_service proto_messages"
  by (simp add: info_of_def)

lemma user_name: "sd_name (user_service um) = ''UserServiceRpc''"
  by (simp add: user_service_def)

lemma user_method_names: "md_name login_method = ''Login''" "md_name logout_method = ''LogOut''"
  by (simp_all add: login_method_def logout_method_def)

lemmas user_names = demo_service user_name user_method_names

lemma user_serves:
  "serves (user_provider proto_messages ip port name) demo_info login_method (login_bytes r) (response_bytes login_ok)"
  "serves (user_provider proto_messages ip port name) demo_info logout_method (logout_bytes q) (response_bytes logout_faild)"
proof -
  have f: "sv_parse_request (user_service proto_messages) login_method (login_bytes r) = Some (LoginReq r)"
    "sv_parse_request (user_service proto_messages) logout_method (logout_bytes q) = Some (LogOutReq q)"
    "sv_CallMethod (user_service proto_messages) = user_CallMethod"
    "sv_serialize (user_service proto_messages) m' = (\<lambda>r. Some (response_bytes r))" for m'
    by (simp_all add: user_service_def user_method_names proto_messages_def proto_login_roundtrip proto_logout_roundtrip)
  show "serves (user_provider proto_messages ip port name) demo_info login_method (login_bytes r) (response_bytes login_ok)"
    by (simp add: serves_def user_names user_map user_methods f user_CallMethod_def UserService_Login_def
        UserService_Login_local_def login_ok_def)
  show "serves (user_provider proto_messages ip port name) demo_info logout_method (logout_bytes q) (response_bytes logout_faild)"
    by (simp add: serves_def user_names user_map user_methods f user_CallMethod_def UserService_LogOut_def
        UserService_LogOut_local_def logout_faild_def)
qed

lemma response_not_nil: "response_bytes login_ok \<noteq> []" "response_bytes logout_faild \<noteq> []"
  by (simp_all add: response_bytes_def login_ok_def logout_faild_def put_fields_def)

lemma response_no_nul: "NUL \<notin> set (response_bytes login_ok)" "NUL \<notin> set (response_bytes logout_faild)"
  by (simp_all add: response_bytes_def login_ok_def logout_faild_def put_fields_def field_simps varint.simps nul_char_of)

lemma response_parses:
  "proto_response (response_bytes login_ok) = (True, login_ok)"
  "proto_response (response_bytes logout_faild) = (True, logout_faild)"
  by (simp_all add: proto_response_roundtrip login_ok_def logout_faild_def)

text \<open>The service's tables and names.\<close>

lemma user_tables:
  "pv_servicesMap (user_provider proto_messages ip port name) = [(''UserServiceRpc'', demo_info)]"
  "si_methodsMap demo_info = [(''Login'', login_method), (''LogOut'', logout_method)]"
  using publish_map [of "[user_service proto_messages]" "Provide_new ip port name"]
  by (simp_all add: publish_def user_provider_def Provide_new_def um_insert_def user_service_def info_of_def
      login_method_def logout_method_def)

lemma user_names_ok:
  "name_ok ''UserServiceRpc''" "name_ok (md_name login_method)" "name_ok (md_name logout_method)"
  by (simp_all add: name_ok_def zk_name_ok_def user_method_names)

lemma user_provider_names: "names_ok (user_provider proto_messages ip port name)"
  using user_names_ok by (simp add: names_ok_def user_tables user_names)

lemma user_provider_addr:
  "pv_ip (user_provider um ip port name) = ip" "pv_port (user_provider um ip port name) = port"
  by (simp_all add: user_provider_def Provide_notifyService_def Provide_new_def pv_ip_def pv_port_def TcpServer_new_def Let_def)

lemma demo_host: "Provide_host demo_app = Inr (''127.0.0.1'' @ '':'' @ dec 8080)"
proof -
  have "dec 8080 = ''8080''" by (simp add: dec.simps char_of_def bit_0)
  then show ?thesis using demo_get(1) by simp
qed

lemma user_call_length:
  assumes "length args < 128"
  shows "length (request_bytes proto_format (call_header ''UserServiceRpc'' login_method args, args)) < 256"
    "length (request_bytes proto_format (call_header ''UserServiceRpc'' logout_method args, args)) < 256"
  using assms
  by (simp_all add: request_bytes_def frame_def call_header_def user_method_names proto_format_def proto_serialize_def
      put_fields_def field_simps varint.simps unat_of_nat_u32)

lemma demo_ready_user:
  "call_ready proto_format (\<lambda>h. True) (\<lambda>_. Connected) demo_app
     ((mem_nodes [])(method_path (si_service demo_info) login_method \<mapsto> ''127.0.0.1'' @ '':'' @ dec 8080))
     (sd_name (si_service demo_info)) login_method demo_args ''127.0.0.1'' 8080"
proof -
  have "length (dec 8080) \<le> 4" using dec_length [of 8080 3] by simp
  moreover have "length demo_args = 19"
    by (simp add: demo_args_def login_bytes_def put_fields_def put_bytes_def varint.simps)
  ultimately show ?thesis
    using demo_get(2) user_call_length(1) [of demo_args] user_names_ok
    by (simp add: call_ready_def user_names node_path_def method_path_def service_path_def)
qed

theorem rpc_end_to_end_witness:
  "\<exists>p' z' lg st. Provide_run 4 mem_zoo (\<lambda>_. Connected) demo_app [(demo_info, [logout_method, login_method])] demo_provider []
      = Inr (p', z', lg)
    \<and> KitRpcChannel_CallMethod proto_format mem_zoo (\<lambda>_. Connected) demo_app
        (provider_net proto_format p') proto_response
        (sd_name (si_service demo_info)) login_method (Some demo_args) (Some KitRpcController_new) empty_response z' = Some (Inr (st, []))
    \<and> cs_response st = login_ok \<and> cs_controller st = Some KitRpcController_new"
proof -
  have "\<exists>p' z' lg st. Provide_run 4 mem_zoo (\<lambda>_. Connected) demo_app [(demo_info, [logout_method, login_method])] demo_provider []
      = Inr (p', z', lg)
    \<and> KitRpcChannel_CallMethod proto_format mem_zoo (\<lambda>_. Connected) demo_app
        (provider_net proto_format p') proto_response
        (sd_name (si_service demo_info)) login_method (Some demo_args) (Some KitRpcController_new) empty_response z' = Some (Inr (st, []))
    \<and> cs_response st = (if response_bytes login_ok = [] then empty_response else login_ok) \<and> cs_controller st = Some KitRpcController_new"
  proof (rule rpc_end_to_end [where p = demo_provider and nodes = mem_nodes and eph = mem_eph and good = "\<lambda>h. True"
        and si = demo_info and b = "response_bytes login_ok" and parse = proto_response and ip = "''127.0.0.1''" and port = 8080])
    show "serves demo_provider demo_info login_method demo_args (response_bytes login_ok)"
      unfolding demo_args_def by (rule user_serves)
    show "call_ready proto_format (\<lambda>h. True) (\<lambda>_. Connected) demo_app
       ((mem_nodes [])(method_path (si_service demo_info) login_method \<mapsto> ''127.0.0.1'' @ '':'' @ dec 8080))
       (sd_name (si_service demo_info)) login_method demo_args ''127.0.0.1'' 8080"
      by (rule demo_ready_user)
    show "Provide_host demo_app = Inr (''127.0.0.1'' @ '':'' @ dec 8080)" by (rule demo_host)
  qed (simp_all add: proto_codec_ok mem_zoo_laws user_provider_names user_provider_addr response_no_nul response_parses demo_get(2)
      iteration_of_def user_tables mem_nodes_def mem_eph_def um_find_def services_kept_def)
  then show ?thesis by (simp add: response_not_nil)
qed

end
