(* ===== verification/Programs.thy ===== *)
theory Programs
  imports EndToEnd
begin

text \<open>
  \<^verbatim>\<open>example/callee/test_callee.cpp\<close> and \<^verbatim>\<open>example/caller/test_caller.cpp\<close>: the example server and the
  example client as wholes, from the command line to the answers, and what they do together when
  both read the same configuration.
\<close>

section \<open>The server\<close>

text \<open>\<^verbatim>\<open>rpc_init\<close>: the number of cores and the order of the hash maps' iteration in \<open>run\<close> are arguments.\<close>

definition callee_main ::
  "nat \<Rightarrow> file_system \<Rightarrow> string \<Rightarrow> nat \<Rightarrow> (char \<times> string) list \<Rightarrow> user_messages \<Rightarrow> 'z zoo_api \<Rightarrow> (string \<Rightarrow> zk_conn) \<Rightarrow>
   ((user_request, UserResponse) ServiceInfo \<times> MethodDescriptor list) list \<Rightarrow> 'z \<Rightarrow>
   ((user_request, UserResponse) Provide \<times> 'z \<times> logger_op list) res" where
  "callee_main cores fs err argc opts um api connect order z =
     bindR (KitRpcApplication_Init fs err argc opts KitRpcApplication_new) (\<lambda>(k, ops).
     bindR (app_get k ''rpc_server_ip'') (\<lambda>ip.
     bindR (app_get_int k ''rpc_server_port'') (\<lambda>port.
       let p = Provide_notifyService (user_service um) (Provide_new ip (of_int port) ''UserService'')
       in bindR (Provide_run cores api connect k order p z) (\<lambda>(p, z, lg). Inr (p, z, ops @ log_ops lg)))))"

section \<open>The client\<close>

text \<open>One call through a stub: \<^verbatim>\<open>UserServiceRpc_Stub\<close> calls its channel with the method's descriptor.\<close>

definition stub_call ::
  "header_format \<Rightarrow> user_messages \<Rightarrow> 'z zoo_api \<Rightarrow> (string \<Rightarrow> zk_conn) \<Rightarrow> KitRpcApplication \<Rightarrow>
   (string \<Rightarrow> u16 \<Rightarrow> string \<Rightarrow> net_event list) \<Rightarrow> MethodDescriptor \<Rightarrow> string option \<Rightarrow> KitRpcController \<Rightarrow> 'z \<Rightarrow>
   (UserResponse call_state \<times> log_calls) res option" where
  "stub_call hf um api connect k net m request controller z =
     KitRpcChannel_CallMethod hf api connect k net (us_parse_response um) ''UserServiceRpc'' m request (Some controller)
       empty_response z"

definition login_request :: LoginRequest where
  "login_request = \<lparr>lreq_name = ''zhangsan'', lreq_pwd = ''1891891981''\<rparr>"

definition logout_request :: LogOutRequest where
  "logout_request = \<lparr>oreq_name = ''abcdef''\<rparr>"

text \<open>
  \<^verbatim>\<open>sendReq\<close>: a login, and after a reset of the controller a logout through the same stub. The result
  is the responses of the calls that did not fail, the controller, and what went to the logger;
  what the test prints and its expectations on the responses are left out.
\<close>

definition stub_error :: "string \<Rightarrow> KitRpcController \<Rightarrow> logger_op list" where
  "stub_error call c = [LogCall ERROR (''stub.'' @ call @ '' error: '' @ cstr (KitRpcController_ErrorText c) @ '' '' @ [LF])]"

definition caller_main ::
  "file_system \<Rightarrow> string \<Rightarrow> nat \<Rightarrow> (char \<times> string) list \<Rightarrow> header_format \<Rightarrow> user_messages \<Rightarrow> 'z zoo_api \<Rightarrow>
   (string \<Rightarrow> zk_conn) \<Rightarrow> (string \<Rightarrow> u16 \<Rightarrow> string \<Rightarrow> net_event list) \<Rightarrow> 'z \<Rightarrow>
   (UserResponse list \<times> KitRpcController \<times> logger_op list) res option" where
  "caller_main fs err argc opts hf um api connect net z =
     (case KitRpcApplication_Init fs err argc opts KitRpcApplication_new of
        Inl e \<Rightarrow> Some (Inl e)
      | Inr (k, ops) \<Rightarrow>
          (case stub_call hf um api connect k net login_method (us_serialize_login um login_request) KitRpcController_new z of
             None \<Rightarrow> None
           | Some (Inl e) \<Rightarrow> Some (Inl e)
           | Some (Inr (st, lg)) \<Rightarrow>
               (case cs_controller st of
                  None \<Rightarrow> Some (Inl NullDeref)
                | Some c \<Rightarrow>
                    if KitRpcController_Failed c then Some (Inr ([], c, ops @ log_ops lg @ stub_error ''Login'' c))
                    else (case stub_call hf um api connect k net logout_method (us_serialize_logout um logout_request)
                                 (KitRpcController_Reset c) z of
                            None \<Rightarrow> None
                          | Some (Inl e) \<Rightarrow> Some (Inl e)
                          | Some (Inr (st2, lg2)) \<Rightarrow>
                              (case cs_controller st2 of
                                 None \<Rightarrow> Some (Inl NullDeref)
                               | Some c2 \<Rightarrow>
                                   Some (Inr (if KitRpcController_Failed c2
                                     then ([cs_response st], c2, ops @ log_ops lg @ log_ops lg2 @ stub_error ''LogOut'' c2)
                                     else ([cs_response st, cs_response st2], c2, ops @ log_ops lg @ log_ops lg2))))))))"

section \<open>Together\<close>

text \<open>A configuration that names the server's address and the naming service.\<close>

definition example_config :: "ini_part list \<Rightarrow> string \<Rightarrow> nat \<Rightarrow> string \<Rightarrow> string \<Rightarrow> bool" where
  "example_config ps ip port zk_ip zk_port \<longleftrightarrow>
     ini_file ps
     \<and> map_of (ini_entries ps) ''rpc_server_ip'' = Some ip \<and> map_of (ini_entries ps) ''rpc_server_port'' = Some (dec port)
     \<and> map_of (ini_entries ps) ''zookeeper_ip'' = Some zk_ip \<and> map_of (ini_entries ps) ''zookeepr_port'' = Some zk_port
     \<and> CHR '':'' \<notin> set ip \<and> length ip < 100 \<and> port < 2 ^ 31"

lemma example_app:
  assumes "example_config ps ip port zk_ip zk_port"
    and "fs file = Some (render_ini ps, True)" "NUL \<notin> set file" "2 \<le> argc"
    and "connect (cstr (zk_ip @ '':'' @ zk_port)) = Connected"
  shows "\<exists>k ops cli. KitRpcApplication_Init fs err argc [(CHR ''i'', file)] KitRpcApplication_new = Inr (k, ops)
    \<and> app_get k ''rpc_server_ip'' = Inr ip \<and> app_get_int k ''rpc_server_port'' = Inr (int port)
    \<and> Provide_host k = Inr (ip @ '':'' @ dec port) \<and> ZkClient_start connect k ZkClient_new = Inr cli"
proof -
  note cfg = assms(1) [unfolded example_config_def]
  from init_from_file [of ps fs "file" argc err KitRpcApplication_new] cfg assms(2-4) obtain k c ops where
    k: "KitRpcApplication_Init fs err argc [(CHR ''i'', file)] KitRpcApplication_new = Inr (k, ops)"
    and i: "app_isInit k" "app_config k = Some c" "\<forall>x. um_find (rc_configItem c) x = map_option AnyString (map_of (ini_entries ps) x)"
    by blast
  have "um_find (rc_configItem c) ''rpc_server_port'' = Some (AnyString (dec port))" using i(3) cfg by simp
  then have "app_get_int k ''rpc_server_port'' = Inr (int port)"
    using get_int_dec cfg i(1,2) by (simp add: app_get_int_def KitRpcApplication_getConfig_def)
  moreover note g = app_get_found [OF i]
  ultimately show ?thesis using k cfg assms(5)
    by (simp add: Provide_host_def ZkClient_start_def ZkClient_host_def)
qed

lemma proto_message_functions:
  "us_parse_response proto_messages = proto_response"
  "us_serialize_login proto_messages = (\<lambda>r. Some (login_bytes r))"
  "us_serialize_logout proto_messages = (\<lambda>r. Some (logout_bytes r))"
  by (simp_all add: proto_messages_def)

lemma callee_serves:
  assumes "zk_laws api nodes eph" "nodes z ''/UserServiceRpc/Login'' = None" "nodes z ''/UserServiceRpc/LogOut'' = None"
    and "\<not> eph z ''/UserServiceRpc''" "iteration_of (user_provider proto_messages ip (of_nat port) ''UserService'') order"
    and "KitRpcApplication_Init fs err argc opts KitRpcApplication_new = Inr (k, ops)"
    and "app_get k ''rpc_server_ip'' = Inr ip" "app_get_int k ''rpc_server_port'' = Inr (int port)"
    and "Provide_host k = Inr host" "length host < 2 ^ 16" "ZkClient_start connect k ZkClient_new = Inr cli"
  shows "\<exists>z' lg. callee_main cores fs err argc opts proto_messages api connect order z =
      Inr (running cores (user_provider proto_messages ip (of_nat port) ''UserService''), z', lg)
    \<and> nodes z' (node_path ''UserServiceRpc'' login_method) = Some host
    \<and> nodes z' (node_path ''UserServiceRpc'' logout_method) = Some host"
proof -
  let ?p = "user_provider proto_messages ip (of_nat port) ''UserService''"
  have path: "method_path (si_service demo_info) m = node_path ''UserServiceRpc'' m" for m
    by (simp add: method_path_def service_path_def node_path_def user_names)
  have "fst ` set order = {demo_info}" using iteration_sets(1) [OF assms(5)] by (simp add: user_tables)
  then have "\<forall>x \<in> set order. fst x = demo_info" by blast
  then have kept: "services_kept eph order z"
    using assms(4) by (fastforce simp: services_kept_def service_path_def user_names)
  have s: "um_find (pv_servicesMap ?p) ''UserServiceRpc'' = Some demo_info" by (simp add: user_map)
  note run = run_nodes [OF assms(1) user_provider_names assms(5) kept assms(10,9,11) s]
  from run [OF user_methods(1), of cores] run [OF user_methods(2), of cores] assms(2,3) obtain z' lg where
    "Provide_run cores api connect k order ?p z = Inr (running cores ?p, z', lg)"
    "nodes z' (node_path ''UserServiceRpc'' login_method) = Some host"
    "nodes z' (node_path ''UserServiceRpc'' logout_method) = Some host"
    by (auto simp: path) (auto simp: node_path_def user_method_names)
  with assms(6-8) show ?thesis by (simp add: callee_main_def user_provider_def Let_def)
qed

lemma stub_answered:
  assumes "zk_laws api nodes eph" "ZkClient_start connect k ZkClient_new = Inr cli"
    and "nodes z (node_path ''UserServiceRpc'' m) = Some (ip @ '':'' @ dec port)"
    and "CHR '':'' \<notin> set ip" "NUL \<notin> set ip" "length ip < 100" "port < 2 ^ 31"
    and "m = login_method \<and> args = login_bytes lr \<and> r = login_ok \<or> m = logout_method \<and> args = logout_bytes lo \<and> r = logout_faild"
    and "length args < 128"
  shows "\<exists>st. stub_call proto_format proto_messages api connect k
      (provider_net proto_format (running cores (user_provider proto_messages ip (of_nat port) name)))
      m (Some args) c z = Some (Inr (st, [])) \<and> cs_response st = r \<and> cs_controller st = Some c"
proof -
  have d: "length (dec port) \<le> 10" using dec_length [of port 9] assms(7) by simp
  have "length (request_bytes proto_format (call_header ''UserServiceRpc'' m args, args)) < 256"
    using user_call_length [OF assms(9)] assms(8) by auto
  then have ready: "call_ready proto_format (\<lambda>h. True) connect k (nodes z) (sd_name (si_service demo_info)) m args ip port"
    using assms d user_names_ok by (auto simp: call_ready_def user_names)
  have "serves (running cores (user_provider proto_messages ip (of_nat port) name)) demo_info m args (response_bytes r)"
    using assms(8) user_serves by auto
  moreover have "NUL \<notin> set (response_bytes r)" "proto_response (response_bytes r) = (True, r)"
    using assms(8) response_no_nul response_parses by auto
  moreover have "response_bytes r \<noteq> []" using assms(8) response_not_nil by auto
  ultimately show ?thesis
    using call_answered [where nodes = nodes and z = z and parse = proto_response and r = r and b = "response_bytes r", OF proto_codec_ok assms(1) _ _ _ ready]
    by (simp add: stub_call_def proto_message_functions user_names user_provider_addr)
qed

text \<open>C16. The example works as a whole: with a configuration file that names the server's address and the
  naming service, on a healthy ZooKeeper where the methods are not registered, the example server
  gets to serving, and the example client then logs in with success and, on the same controller,
  logs out with the service's error, none of its calls having failed.\<close>

theorem example_programs_run:
  assumes "zk_laws api nodes eph" "nodes z ''/UserServiceRpc/Login'' = None" "nodes z ''/UserServiceRpc/LogOut'' = None"
    and "\<not> eph z ''/UserServiceRpc''" "iteration_of (user_provider proto_messages ip (of_nat port) ''UserService'') order"
    and "example_config ps ip port zk_ip zk_port" "fs file = Some (render_ini ps, True)" "NUL \<notin> set file" "2 \<le> argc"
    and "connect (cstr (zk_ip @ '':'' @ zk_port)) = Connected"
  shows "\<exists>p z' lg c ops. callee_main cores fs err argc [(CHR ''i'', file)] proto_messages api connect order z = Inr (p, z', lg)
    \<and> caller_main fs err argc [(CHR ''i'', file)] proto_format proto_messages api connect
        (provider_net proto_format p) z' = Some (Inr ([login_ok, logout_faild], c, ops))
    \<and> \<not> KitRpcController_Failed c"
proof -
  let ?p = "running cores (user_provider proto_messages ip (of_nat port) ''UserService'')" and ?net = "\<lambda>p. provider_net proto_format p"
  note cfg = assms(6) [unfolded example_config_def]
  have ip: "CHR '':'' \<notin> set ip" "NUL \<notin> set ip" "length ip < 100" "port < 2 ^ 31"
    using cfg ini_file_token by (auto simp: ini_token_def)
  have "length (ip @ '':'' @ dec port) < 2 ^ 16" using ip(3,4) dec_length [of port 9] by simp
  from example_app [OF assms(6), of fs "file" argc connect err] assms(7-10) obtain k ops cli where
    k: "KitRpcApplication_Init fs err argc [(CHR ''i'', file)] KitRpcApplication_new = Inr (k, ops)"
    "app_get k ''rpc_server_ip'' = Inr ip" "app_get_int k ''rpc_server_port'' = Inr (int port)"
    "Provide_host k = Inr (ip @ '':'' @ dec port)" and cli: "ZkClient_start connect k ZkClient_new = Inr cli" by blast
  from callee_serves [where nodes = nodes and z = z and fs = fs and err = err and argc = argc,
      OF assms(1-5) k \<open>length (ip @ '':'' @ dec port) < 2 ^ 16\<close> cli, of cores] obtain z' lg where
    callee: "callee_main cores fs err argc [(CHR ''i'', file)] proto_messages api connect order z = Inr (?p, z', lg)"
    and n: "nodes z' (node_path ''UserServiceRpc'' login_method) = Some (ip @ '':'' @ dec port)"
      "nodes z' (node_path ''UserServiceRpc'' logout_method) = Some (ip @ '':'' @ dec port)" by blast
  have len: "length (login_bytes login_request) < 128" "length (logout_bytes logout_request) < 128"
    by (simp_all add: login_bytes_def logout_bytes_def login_request_def logout_request_def put_fields_def put_bytes_def
        varint.simps)
  note stub = stub_answered [where nodes = nodes and z = z' and name = "''UserService''" and cores = cores, OF assms(1) cli _ ip]
  from stub [OF n(1) _ len(1), of login_request login_ok] obtain st where
    1: "stub_call proto_format proto_messages api connect k (?net ?p) login_method (Some (login_bytes login_request))
        KitRpcController_new z' = Some (Inr (st, []))" "cs_response st = login_ok" "cs_controller st = Some KitRpcController_new"
    by auto
  let ?c = "KitRpcController_Reset KitRpcController_new"
  from stub [OF n(2) _ len(2), of _ logout_faild logout_request] obtain st2 where
    2: "stub_call proto_format proto_messages api connect k (?net ?p) logout_method (Some (logout_bytes logout_request))
        ?c z' = Some (Inr (st2, []))" "cs_response st2 = logout_faild" "cs_controller st2 = Some ?c"
    by auto
  have "\<not> KitRpcController_Failed KitRpcController_new" "\<not> KitRpcController_Failed ?c"
    by (simp_all add: KitRpcController_new_def KitRpcController_Reset_def KitRpcController_Failed_def)
  with k(1) 1 2 have "caller_main fs err argc [(CHR ''i'', file)] proto_format proto_messages api connect (?net ?p) z' =
      Some (Inr ([login_ok, logout_faild], ?c, ops @ log_ops [] @ log_ops []))" "\<not> KitRpcController_Failed ?c"
    by (simp_all add: caller_main_def proto_message_functions)
  with callee show ?thesis by blast
qed

lemma dec_8000: "dec 8000 = ''8000''"
  by (simp add: dec.simps char_of_def bit_0)

theorem example_programs_run_witness:
  "\<exists>p z' lg c ops. callee_main 4 (one_file ''c.ini'' (render_ini default_conf)) ''2'' 3 [(CHR ''i'', ''c.ini'')] proto_messages mem_zoo
      (\<lambda>_. Connected) [(demo_info, [login_method, logout_method])] [] = Inr (p, z', lg)
    \<and> caller_main (one_file ''c.ini'' (render_ini default_conf)) ''2'' 3 [(CHR ''i'', ''c.ini'')] proto_format proto_messages mem_zoo
        (\<lambda>_. Connected) (provider_net proto_format p) z' = Some (Inr ([login_ok, logout_faild], c, ops))
    \<and> \<not> KitRpcController_Failed c"
proof (rule example_programs_run [OF mem_zoo_laws, where ps = default_conf and ip = "''192.168.77.136''" and port = 8000])
  show "example_config default_conf ''192.168.77.136'' 8000 ''192.168.77.136'' ''2181''"
    by (simp add: example_config_def default_conf_file default_conf_entries dec_8000)
qed (simp_all add: mem_nodes_def mem_eph_def um_find_def one_file_def iteration_of_def user_tables)

section \<open>The tests beside them\<close>

text \<open>\<^verbatim>\<open>mock_UserService\<close> calls the service's handler directly with a closure of its own: what is printed.\<close>

definition MyRun_Run :: string where
  "MyRun_Run = ''MyRun::run()'' @ [LF]"

definition mock_UserService :: string where
  "mock_UserService =
     (case UserService_Login \<lparr>lreq_name = ''ljk'', lreq_pwd = ''123456''\<rparr> True of
        (out, resp, has_run) \<Rightarrow> out @ (if has_run then MyRun_Run else []))"

text \<open>
  \<^verbatim>\<open>mock_sendReq\<close>, which is disabled: a client that builds a login's frame by hand and keeps a bare
  connection. Its callbacks for the events of all its connections, as what they do in order; the
  pause of a second after an answer is left out.
\<close>

datatype raw_action = RawOut string | RawErr string | RawSend string | RawDestroyed | RawConnect | RawShutdown

definition raw_answer :: "string \<Rightarrow> UserResponse \<Rightarrow> raw_action list" where
  "raw_answer data resp =
     [RawOut (''===========Response recv============ size: '' @ dec (length data) @ [LF]),
      RawOut (''errcode: '' @ dec_int (rc_errcode (ur_result resp)) @ [LF]),
      RawOut (''errmsg: '' @ rc_errmsg (ur_result resp) @ [LF]),
      RawOut (''success: '' @ dec (if ur_success resp then 1 else 0) @ [LF]),
      RawShutdown]"

fun raw_event :: "(string \<Rightarrow> bool \<times> UserResponse) \<Rightarrow> string \<Rightarrow> u32 \<Rightarrow> net_event \<Rightarrow> raw_action list" where
  "raw_event parse send_data len ConnUp = [RawOut (''connect server OK!'' @ [LF]), RawSend (take (unat len) send_data)]"
| "raw_event parse send_data len ConnDown = [RawOut (''disconnect...!'' @ [LF]), RawDestroyed, RawConnect]"
| "raw_event parse send_data len (Msg data) =
     (case parse data of
        (ok, resp) \<Rightarrow> if \<not> ok then [RawErr (''LoginResponse parse error'' @ [LF])] else raw_answer data resp)"

text \<open>The result, and whether the test returns: past \<^verbatim>\<open>loop.loop()\<close> nothing quits the loop.\<close>

definition mock_sendReq :: "header_format \<Rightarrow> user_messages \<Rightarrow> net_event list \<Rightarrow> (raw_action list \<times> bool) res" where
  "mock_sendReq hf um events =
     (case us_serialize_login um \<lparr>lreq_name = ''ljk'', lreq_pwd = ''666666''\<rparr> of
        None \<Rightarrow> Inr ([RawErr (''req.SerializePartialToString error'' @ [LF])], True)
      | Some args_str \<Rightarrow>
          (case hf_serialize hf \<lparr>rh_service_name = ''UserServiceRpc'', rh_method_name = ''Login'',
                  rh_args_size = of_nat (length args_str)\<rparr> of
             None \<Rightarrow> Inr ([RawErr (''req.SerializePartialToString error'' @ [LF])], True)
           | Some head_str \<Rightarrow>
               bindR (call_bytes head_str args_str) (\<lambda>(send_data, len).
                 Inr (RawOut (''send_data size '' @ dec (length send_data) @ [LF]) # RawConnect
                   # RawOut (''client start....'' @ [LF]) # concat (map (raw_event (us_parse_response um) send_data len) events),
                   False))))"

text \<open>The bare client has no end: each time its connection goes down it connects again, and each time it
  is connected it sends the same login, so a provider that closes after every answer is sent the
  login over and over.\<close>

lemma raw_client_repeats:
  assumes "mock_sendReq hf um events = Inr (acts, False)"
  shows "\<exists>bytes. filter (\<lambda>a. \<exists>b. a = RawSend b) acts = replicate (count_list events ConnUp) (RawSend bytes)"
    and "count_list acts RawConnect = Suc (count_list events ConnDown)"
proof -
  from assms obtain send_data len x y z where
    a: "acts = RawOut x # RawConnect # RawOut y # concat (map (raw_event z send_data len) events)"
    by (auto simp: mock_sendReq_def split: option.splits)
  have "filter (\<lambda>a. \<exists>b. a = RawSend b) (raw_event z send_data len e) =
      (if e = ConnUp then [RawSend (take (unat len) send_data)] else [])" for e
    by (cases e) (simp_all add: raw_answer_def split: prod.split)
  then have "filter (\<lambda>a. \<exists>b. a = RawSend b) (concat (map (raw_event z send_data len) es)) =
      replicate (count_list es ConnUp) (RawSend (take (unat len) send_data))" for es
    by (induction es) simp_all
  then show "\<exists>bytes. filter (\<lambda>a. \<exists>b. a = RawSend b) acts = replicate (count_list events ConnUp) (RawSend bytes)"
    by (auto simp: a)
  have "count_list (raw_event z send_data len e) RawConnect = (if e = ConnDown then 1 else 0)" for e
    by (cases e) (simp_all add: raw_answer_def split: prod.split)
  then have "count_list (concat (map (raw_event z send_data len) es)) RawConnect = count_list es ConnDown" for es
    by (induction es) simp_all
  then show "count_list acts RawConnect = Suc (count_list events ConnDown)" by (simp add: a)
qed

end
