(* ===== verification/LogStreams.thy ===== *)
theory LogStreams
  imports Prelude "HOL-Library.Sublist"
begin

text \<open>
  \<^verbatim>\<open>include/muduo/base/LogStream.h\<close> and the file names of \<^verbatim>\<open>include/muduo/base/Logging.h\<close>: a
  buffer of fixed size that takes an item whole or not at all, the stream operators over it,
  and the base name of a source file. Formatted numbers come as text.
\<close>

section \<open>FixedBuffer\<close>

datatype cookie = CookieStart | CookieEnd

record FixedBuffer =
  fb_data :: string
  fb_cur :: nat
  fb_cookie :: cookie

text \<open>The array is not initialised: what is in it comes as an argument, and with it the size.\<close>

definition FixedBuffer_new :: "string \<Rightarrow> FixedBuffer" where
  "FixedBuffer_new memory = \<lparr>fb_data = memory, fb_cur = 0, fb_cookie = CookieStart\<rparr>"

definition FixedBuffer_delete :: "FixedBuffer \<Rightarrow> FixedBuffer" where
  "FixedBuffer_delete b = b\<lparr>fb_cookie := CookieEnd\<rparr>"

definition fb_avail :: "FixedBuffer \<Rightarrow> int" where
  "fb_avail b = int (length (fb_data b)) - int (fb_cur b)"

text \<open>\<^verbatim>\<open>implicit_cast<size_t>\<close> of an \<^verbatim>\<open>int\<close>: a negative one becomes large.\<close>

definition to_size_t :: "int \<Rightarrow> int" where
  "to_size_t i = i mod 2 ^ 64"

definition fb_append :: "FixedBuffer \<Rightarrow> string \<Rightarrow> FixedBuffer res" where
  "fb_append b buf =
     (if to_size_t (fb_avail b) > int (length buf)
      then if fb_cur b + length buf \<le> length (fb_data b)
           then Inr (b\<lparr>fb_data := take (fb_cur b) (fb_data b) @ buf @ drop (fb_cur b + length buf) (fb_data b),
                       fb_cur := fb_cur b + length buf\<rparr>)
           else Inl UndefinedBehaviour
      else Inr b)"

definition fb_length :: "FixedBuffer \<Rightarrow> nat" where
  "fb_length b = fb_cur b"

definition fb_add :: "FixedBuffer \<Rightarrow> nat \<Rightarrow> FixedBuffer" where
  "fb_add b len = b\<lparr>fb_cur := fb_cur b + len\<rparr>"

definition fb_reset :: "FixedBuffer \<Rightarrow> FixedBuffer" where
  "fb_reset b = b\<lparr>fb_cur := 0\<rparr>"

definition fb_bzero :: "FixedBuffer \<Rightarrow> FixedBuffer" where
  "fb_bzero b = b\<lparr>fb_data := replicate (length (fb_data b)) NUL\<rparr>"

definition fb_toString :: "FixedBuffer \<Rightarrow> string" where
  "fb_toString b = take (fb_cur b) (fb_data b)"

definition fb_toStringPiece :: "FixedBuffer \<Rightarrow> string" where
  "fb_toStringPiece b = take (fb_cur b) (fb_data b)"

section \<open>LogStream\<close>

definition kSmallBuffer :: nat where "kSmallBuffer = 4000"

definition kLargeBuffer :: nat where "kLargeBuffer = 4000 * 1000"

type_synonym LogStream = FixedBuffer

text \<open>The operators of the header: on booleans, characters, C strings, strings, pieces and buffers.\<close>

definition ls_bool :: "LogStream \<Rightarrow> bool \<Rightarrow> LogStream res" where
  "ls_bool s v = fb_append s (if v then ''1'' else ''0'')"

definition ls_char :: "LogStream \<Rightarrow> char \<Rightarrow> LogStream res" where
  "ls_char s v = fb_append s [v]"

definition ls_cstr :: "LogStream \<Rightarrow> string option \<Rightarrow> LogStream res" where
  "ls_cstr s str = (case str of Some t \<Rightarrow> fb_append s (cstr t) | None \<Rightarrow> fb_append s ''(null)'')"

definition ls_string :: "LogStream \<Rightarrow> string \<Rightarrow> LogStream res" where
  "ls_string s v = fb_append s v"

definition ls_piece :: "LogStream \<Rightarrow> string \<Rightarrow> LogStream res" where
  "ls_piece s v = fb_append s v"

definition ls_buffer :: "LogStream \<Rightarrow> FixedBuffer \<Rightarrow> LogStream res" where
  "ls_buffer s v = ls_piece s (fb_toStringPiece v)"

definition ls_append :: "LogStream \<Rightarrow> string \<Rightarrow> LogStream res" where
  "ls_append s data = fb_append s data"

definition ls_fmt :: "LogStream \<Rightarrow> string \<Rightarrow> LogStream res" where
  "ls_fmt s fmt = ls_append s fmt"

definition ls_resetBuffer :: "LogStream \<Rightarrow> LogStream" where
  "ls_resetBuffer s = fb_reset s"

datatype log_item = LBool bool | LChar char | LCstr "string option" | LStr string | LPiece string
  | LBuffer FixedBuffer | LFmt string

fun ls_put :: "LogStream \<Rightarrow> log_item \<Rightarrow> LogStream res" where
  "ls_put s (LBool v) = ls_bool s v"
| "ls_put s (LChar v) = ls_char s v"
| "ls_put s (LCstr v) = ls_cstr s v"
| "ls_put s (LStr v) = ls_string s v"
| "ls_put s (LPiece v) = ls_piece s v"
| "ls_put s (LBuffer v) = ls_buffer s v"
| "ls_put s (LFmt v) = ls_fmt s v"

fun ls_puts :: "LogStream \<Rightarrow> log_item list \<Rightarrow> LogStream res" where
  "ls_puts s [] = Inr s"
| "ls_puts s (i # is) = bindR (ls_put s i) (\<lambda>s. ls_puts s is)"

fun item_text :: "log_item \<Rightarrow> string" where
  "item_text (LBool v) = (if v then ''1'' else ''0'')"
| "item_text (LChar v) = [v]"
| "item_text (LCstr v) = (case v of None \<Rightarrow> ''(null)'' | Some t \<Rightarrow> cstr t)"
| "item_text (LStr v) = v"
| "item_text (LPiece v) = v"
| "item_text (LBuffer v) = fb_toStringPiece v"
| "item_text (LFmt v) = v"

text \<open>The specification: each item whole while it leaves a byte free, else dropped.\<close>

fun fitting :: "nat \<Rightarrow> nat \<Rightarrow> string list \<Rightarrow> string list" where
  "fitting n k [] = []"
| "fitting n k (t # ts) = (if k + length t < n then t # fitting n (k + length t) ts else fitting n k ts)"

definition fb_ok :: "FixedBuffer \<Rightarrow> bool" where
  "fb_ok b \<longleftrightarrow> fb_cur b < length (fb_data b) \<and> length (fb_data b) < 2 ^ 31"

lemma fb_append_ok:
  assumes "fb_ok b"
  shows "\<exists>b'. fb_append b t = Inr b' \<and> fb_ok b' \<and> length (fb_data b') = length (fb_data b)
    \<and> (if fb_cur b + length t < length (fb_data b)
        then fb_toString b' = fb_toString b @ t \<and> fb_cur b' = fb_cur b + length t
        else b' = b)"
proof -
  have "to_size_t (fb_avail b) = int (length (fb_data b) - fb_cur b)"
    using assms by (simp add: to_size_t_def fb_avail_def fb_ok_def of_nat_diff)
  then have "to_size_t (fb_avail b) > int (length t) \<longleftrightarrow> fb_cur b + length t < length (fb_data b)"
    using assms by (auto simp: fb_ok_def)
  then show ?thesis using assms by (auto simp: fb_append_def fb_ok_def fb_toString_def)
qed

lemma ls_put_append: "ls_put s i = fb_append s (item_text i)"
  by (cases i) (auto simp: ls_bool_def ls_char_def ls_cstr_def ls_string_def ls_piece_def ls_buffer_def
      ls_fmt_def ls_append_def split: option.splits)

lemma ls_puts_ok:
  "fb_ok s \<Longrightarrow> \<exists>s'. ls_puts s is = Inr s' \<and> fb_ok s' \<and> length (fb_data s') = length (fb_data s)
     \<and> fb_toString s' = fb_toString s @ concat (fitting (length (fb_data s)) (fb_cur s) (map item_text is))"
proof (induction "is" arbitrary: s)
  case Nil
  then show ?case by simp
next
  case (Cons i "is")
  from fb_append_ok [OF Cons.prems, of "item_text i"] obtain s1 where
    s1: "fb_append s (item_text i) = Inr s1" "fb_ok s1" "length (fb_data s1) = length (fb_data s)"
    and c: "if fb_cur s + length (item_text i) < length (fb_data s)
        then fb_toString s1 = fb_toString s @ item_text i \<and> fb_cur s1 = fb_cur s + length (item_text i) else s1 = s"
    by blast
  from Cons.IH [OF s1(2)] s1 c show ?case by (auto simp: ls_put_append split: if_splits)
qed

text \<open>A log stream never writes outside its buffer, keeps every item whole or drops it whole, and holds
  fewer bytes than its size: its text is that of the items that fit, in order.\<close>

theorem logstream_whole_items:
  assumes "length memory = kSmallBuffer"
  shows "\<exists>s. ls_puts (FixedBuffer_new memory) items = Inr s \<and> fb_length s < kSmallBuffer
    \<and> fb_toString s = concat (fitting kSmallBuffer 0 (map item_text items))"
proof -
  have "fb_ok (FixedBuffer_new memory)" "fb_toString (FixedBuffer_new memory) = []"
    "fb_cur (FixedBuffer_new memory) = 0" "length (fb_data (FixedBuffer_new memory)) = kSmallBuffer"
    using assms by (simp_all add: fb_ok_def FixedBuffer_new_def kSmallBuffer_def fb_toString_def)
  with ls_puts_ok [of "FixedBuffer_new memory" items] show ?thesis by (auto simp: fb_ok_def fb_length_def)
qed

theorem logstream_whole_items_witness:
  "\<exists>s. ls_puts (FixedBuffer_new (replicate kSmallBuffer CHR ''?'')) [LBool True, LCstr None, LChar CHR ''x''] = Inr s
    \<and> fb_length s < kSmallBuffer
    \<and> fb_toString s = concat (fitting kSmallBuffer 0 (map item_text [LBool True, LCstr None, LChar CHR ''x'']))"
  by (rule logstream_whole_items) simp

text \<open>The check is on the room left as a number without sign: once \<open>add\<close> has moved past the end, an append
  is no longer stopped.\<close>

lemma fb_append_overrun:
  assumes "length (fb_data b) < fb_cur b" "fb_cur b < 2 ^ 31" "length t < 2 ^ 31"
  shows "fb_append b t = Inl UndefinedBehaviour"
proof -
  have "fb_avail b + 2 ^ 64 = (fb_avail b + 2 ^ 64) mod 2 ^ 64"
    using assms(1,2) by (intro mod_pos_pos_trivial [symmetric]) (simp_all add: fb_avail_def)
  then have "to_size_t (fb_avail b) = fb_avail b + 2 ^ 64" by (simp add: to_size_t_def)
  then show ?thesis using assms by (simp add: fb_append_def fb_avail_def)
qed

section \<open>Base names\<close>

text \<open>\<^verbatim>\<open>strrchr\<close>: the last position of a character in a C string.\<close>

definition strrchr :: "string \<Rightarrow> char \<Rightarrow> nat option" where
  "strrchr s c = map_option (\<lambda>i. length (cstr s) - Suc i) (index_of (\<lambda>x. x = c) (rev (cstr s)))"

record SourceFile =
  sf_data :: string
  sf_size :: int

definition SourceFile_arr :: "string \<Rightarrow> SourceFile" where
  "SourceFile_arr arr =
     (case strrchr arr CHR ''/'' of
        None \<Rightarrow> \<lparr>sf_data = arr, sf_size = int (length arr)\<rparr>
      | Some i \<Rightarrow> \<lparr>sf_data = drop (i + 1) arr, sf_size = int (length arr) - int (i + 1)\<rparr>)"

definition SourceFile_cstr :: "string \<Rightarrow> SourceFile" where
  "SourceFile_cstr filename =
     (let data = (case strrchr filename CHR ''/'' of None \<Rightarrow> filename | Some i \<Rightarrow> drop (i + 1) filename)
      in \<lparr>sf_data = data, sf_size = int (length (cstr data))\<rparr>)"

lemma strrchr_last:
  "NUL \<notin> set d \<Longrightarrow> NUL \<notin> set n \<Longrightarrow> CHR ''/'' \<notin> set n \<Longrightarrow> strrchr (d @ ''/'' @ n) CHR ''/'' = Some (length d)"
  using index_of_hit [of "rev n" "\<lambda>x. x = CHR ''/''" "CHR ''/''" "rev d"] by (force simp: strrchr_def)

lemma strrchr_none: "NUL \<notin> set n \<Longrightarrow> CHR ''/'' \<notin> set n \<Longrightarrow> strrchr n CHR ''/'' = None"
  using index_of_None [of "\<lambda>x. x = CHR ''/''" "rev n"] by (auto simp: strrchr_def)

text \<open>Both constructors keep the part behind the last slash, and its length.\<close>

lemma sourcefile_basename:
  assumes "NUL \<notin> set d" "NUL \<notin> set n" "CHR ''/'' \<notin> set n"
  shows "SourceFile_arr (d @ ''/'' @ n) = \<lparr>sf_data = n, sf_size = int (length n)\<rparr>"
    "SourceFile_cstr (d @ ''/'' @ n) = SourceFile_arr (d @ ''/'' @ n)"
    "SourceFile_cstr n = SourceFile_arr n"
  using strrchr_last [OF assms] strrchr_none [OF assms(2,3)] assms(2)
  by (simp_all add: SourceFile_arr_def SourceFile_cstr_def Let_def)

end
