(* ===== verification/LogMacros.thy ===== *)
theory LogMacros
  imports LogStreams
begin

text \<open>
  The logging macros and \<open>CheckNotNull\<close> of \<^verbatim>\<open>include/muduo/base/Logging.h\<close>: which \<open>Logger\<close> each one
  constructs, under which global level, with what is then written to its stream. What a logger
  does with it (format, output, \<^verbatim>\<open>abort\<close> after \<open>FATAL\<close>) is in the binary library.
\<close>

datatype MuduoLevel = MTRACE | MDEBUG | MINFO | MWARN | MERROR | MFATAL | NUM_LOG_LEVELS

fun MuduoLevel_code :: "MuduoLevel \<Rightarrow> nat" where
  "MuduoLevel_code MTRACE = 0"
| "MuduoLevel_code MDEBUG = 1"
| "MuduoLevel_code MINFO = 2"
| "MuduoLevel_code MWARN = 3"
| "MuduoLevel_code MERROR = 4"
| "MuduoLevel_code MFATAL = 5"
| "MuduoLevel_code NUM_LOG_LEVELS = 6"

text \<open>The constructor that is called, without the file and the line.\<close>

datatype LoggerCall = LgPlain | LgLevel MuduoLevel | LgFunc MuduoLevel string | LgErrno bool

type_synonym log_output = "(LoggerCall \<times> string) list"

definition LOG_TRACE :: "MuduoLevel \<Rightarrow> string \<Rightarrow> string \<Rightarrow> log_output" where
  "LOG_TRACE logLevel func s =
     (if MuduoLevel_code logLevel \<le> MuduoLevel_code MTRACE then [(LgFunc MTRACE func, s)] else [])"

definition LOG_DEBUG :: "MuduoLevel \<Rightarrow> string \<Rightarrow> string \<Rightarrow> log_output" where
  "LOG_DEBUG logLevel func s =
     (if MuduoLevel_code logLevel \<le> MuduoLevel_code MDEBUG then [(LgFunc MDEBUG func, s)] else [])"

definition LOG_INFO :: "MuduoLevel \<Rightarrow> string \<Rightarrow> log_output" where
  "LOG_INFO logLevel s = (if MuduoLevel_code logLevel \<le> MuduoLevel_code MINFO then [(LgPlain, s)] else [])"

definition LOG_WARN :: "string \<Rightarrow> log_output" where "LOG_WARN s = [(LgLevel MWARN, s)]"

definition LOG_ERROR :: "string \<Rightarrow> log_output" where "LOG_ERROR s = [(LgLevel MERROR, s)]"

definition LOG_FATAL :: "string \<Rightarrow> log_output" where "LOG_FATAL s = [(LgLevel MFATAL, s)]"

definition LOG_SYSERR :: "string \<Rightarrow> log_output" where "LOG_SYSERR s = [(LgErrno False, s)]"

definition LOG_SYSFATAL :: "string \<Rightarrow> log_output" where "LOG_SYSFATAL s = [(LgErrno True, s)]"

text \<open>The pointer is returned in any case; the names come with the quotes and the text of the macro.\<close>

definition CheckNotNull :: "string \<Rightarrow> 'a option \<Rightarrow> 'a option \<times> log_output" where
  "CheckNotNull names ptr = (ptr, if ptr = None then LOG_FATAL names else [])"

definition CHECK_NOTNULL :: "string \<Rightarrow> 'a option \<Rightarrow> 'a option \<times> log_output" where
  "CHECK_NOTNULL val ptr = CheckNotNull (CHR 0x27 # val @ CHR 0x27 # '' Must be non NULL'') ptr"

text \<open>A higher global level only takes output away, and never that of a warning or worse.\<close>

lemma log_level_monotone:
  assumes "MuduoLevel_code l \<le> MuduoLevel_code l'"
  shows "LOG_INFO l' s = [] \<or> LOG_INFO l' s = LOG_INFO l s"
    and "LOG_TRACE l' f s = [] \<or> LOG_TRACE l' f s = LOG_TRACE l f s"
    and "LOG_DEBUG l' f s = [] \<or> LOG_DEBUG l' f s = LOG_DEBUG l f s"
  using assms by (auto simp: LOG_INFO_def LOG_TRACE_def LOG_DEBUG_def)

text \<open>
  The header's warning: \<^verbatim>\<open>if (good) LOG_INFO << a; else LOG_WARN << b;\<close> gives its \<^verbatim>\<open>else\<close> to the
  \<^verbatim>\<open>if\<close> inside the macro.
\<close>

definition dangling_else :: "MuduoLevel \<Rightarrow> bool \<Rightarrow> string \<Rightarrow> string \<Rightarrow> log_output" where
  "dangling_else logLevel good a b =
     (if good then
        if MuduoLevel_code logLevel \<le> MuduoLevel_code MINFO then [(LgPlain, a)] else LOG_WARN b
      else [])"

lemma dangling_else_wrong:
  "dangling_else logLevel good a b = (if good then LOG_INFO logLevel a else LOG_WARN b)
     \<longleftrightarrow> good \<and> MuduoLevel_code logLevel \<le> 2"
  by (auto simp: dangling_else_def LOG_INFO_def LOG_WARN_def)

end
