(* ===== verification/StringPieces.thy ===== *)
theory StringPieces
  imports Prelude "HOL-Library.Char_ord" "HOL-Library.List_Lexorder" "HOL-Library.Sublist"
begin

text \<open>
  \<^verbatim>\<open>include/muduo/base/StringPiece.h\<close>: a pointer and a length. The pointer is an offset into
  the block of memory it points into; a null pointer points into an empty block. Reading
  outside the block is undefined.
\<close>

record StringPiece =
  sp_mem :: string
  sp_off :: int
  sp_length :: int

text \<open>\<^verbatim>\<open>StringArg\<close> keeps the C string of what it is made of.\<close>

definition StringArg_new :: "string \<Rightarrow> string" where
  "StringArg_new str = cstr str"

definition StringPiece_new :: StringPiece where
  "StringPiece_new = \<lparr>sp_mem = [], sp_off = 0, sp_length = 0\<rparr>"

text \<open>From a C string, from a \<^verbatim>\<open>std::string\<close>, and from a pointer into a block and a length.\<close>

definition StringPiece_cstr :: "string \<Rightarrow> StringPiece" where
  "StringPiece_cstr str = \<lparr>sp_mem = str @ [NUL], sp_off = 0, sp_length = int (length (cstr str))\<rparr>"

definition StringPiece_str :: "string \<Rightarrow> StringPiece" where
  "StringPiece_str str = \<lparr>sp_mem = str @ [NUL], sp_off = 0, sp_length = int (length str)\<rparr>"

definition StringPiece_mem :: "string \<Rightarrow> int \<Rightarrow> int \<Rightarrow> StringPiece" where
  "StringPiece_mem mem offset len = \<lparr>sp_mem = mem, sp_off = offset, sp_length = len\<rparr>"

definition sp_size :: "StringPiece \<Rightarrow> int" where "sp_size p = sp_length p"

definition sp_empty :: "StringPiece \<Rightarrow> bool" where "sp_empty p \<longleftrightarrow> sp_length p = 0"

definition sp_begin :: "StringPiece \<Rightarrow> int" where "sp_begin p = sp_off p"

definition sp_end :: "StringPiece \<Rightarrow> int" where "sp_end p = sp_off p + sp_length p"

definition sp_clear :: "StringPiece \<Rightarrow> StringPiece" where "sp_clear p = StringPiece_new"

definition sp_set_mem :: "StringPiece \<Rightarrow> string \<Rightarrow> int \<Rightarrow> int \<Rightarrow> StringPiece" where
  "sp_set_mem p mem offset len = p\<lparr>sp_mem := mem, sp_off := offset, sp_length := len\<rparr>"

definition sp_set_cstr :: "StringPiece \<Rightarrow> string \<Rightarrow> StringPiece" where
  "sp_set_cstr p str = p\<lparr>sp_mem := str @ [NUL], sp_off := 0, sp_length := int (length (cstr str))\<rparr>"

text \<open>The \<open>n\<close> bytes from the pointer.\<close>

definition sp_read :: "StringPiece \<Rightarrow> int \<Rightarrow> string res" where
  "sp_read p n =
     (if 0 \<le> n \<and> 0 \<le> sp_off p \<and> sp_off p + n \<le> int (length (sp_mem p))
      then Inr (take (nat n) (drop (nat (sp_off p)) (sp_mem p)))
      else Inl UndefinedBehaviour)"

definition sp_index :: "StringPiece \<Rightarrow> int \<Rightarrow> char res" where
  "sp_index p i =
     (let j = sp_off p + i
      in if 0 \<le> j \<and> j < int (length (sp_mem p)) then Inr (sp_mem p ! nat j) else Inl UndefinedBehaviour)"

definition remove_prefix :: "StringPiece \<Rightarrow> int \<Rightarrow> StringPiece" where
  "remove_prefix p n = p\<lparr>sp_off := sp_off p + n, sp_length := sp_length p - n\<rparr>"

definition remove_suffix :: "StringPiece \<Rightarrow> int \<Rightarrow> StringPiece" where
  "remove_suffix p n = p\<lparr>sp_length := sp_length p - n\<rparr>"

text \<open>\<^verbatim>\<open>memcmp\<close> on bytes as unsigned numbers: the sign of its result.\<close>

fun memcmp :: "string \<Rightarrow> string \<Rightarrow> int" where
  "memcmp (a # as) (b # bs) =
     (if (of_char a :: nat) < of_char b then - 1 else if (of_char a :: nat) > of_char b then 1 else memcmp as bs)"
| "memcmp _ _ = 0"

definition sp_memcmp :: "StringPiece \<Rightarrow> StringPiece \<Rightarrow> int \<Rightarrow> int res" where
  "sp_memcmp p x n = bindR (sp_read p n) (\<lambda>a. bindR (sp_read x n) (\<lambda>b. Inr (memcmp a b)))"

definition sp_eq :: "StringPiece \<Rightarrow> StringPiece \<Rightarrow> bool res" where
  "sp_eq p x =
     (if sp_length p = sp_length x then bindR (sp_memcmp p x (sp_length p)) (\<lambda>r. Inr (r = 0)) else Inr False)"

definition sp_ne :: "StringPiece \<Rightarrow> StringPiece \<Rightarrow> bool res" where
  "sp_ne p x = bindR (sp_eq p x) (\<lambda>b. Inr (\<not> b))"

text \<open>The macro \<^verbatim>\<open>STRINGPIECE_BINARY_PREDICATE\<close> and its four uses.\<close>

definition binary_predicate ::
  "(int \<Rightarrow> int \<Rightarrow> bool) \<Rightarrow> (int \<Rightarrow> int \<Rightarrow> bool) \<Rightarrow> StringPiece \<Rightarrow> StringPiece \<Rightarrow> bool res" where
  "binary_predicate cmp auxcmp p x =
     bindR (sp_memcmp p x (if sp_length p < sp_length x then sp_length p else sp_length x)) (\<lambda>r.
       Inr (auxcmp r 0 \<or> (r = 0 \<and> cmp (sp_length p) (sp_length x))))"

definition sp_lt :: "StringPiece \<Rightarrow> StringPiece \<Rightarrow> bool res" where
  "sp_lt = binary_predicate (\<lambda>a b. a < b) (\<lambda>a b. a < b)"

definition sp_le :: "StringPiece \<Rightarrow> StringPiece \<Rightarrow> bool res" where
  "sp_le = binary_predicate (\<lambda>a b. a \<le> b) (\<lambda>a b. a < b)"

definition sp_ge :: "StringPiece \<Rightarrow> StringPiece \<Rightarrow> bool res" where
  "sp_ge = binary_predicate (\<lambda>a b. a \<ge> b) (\<lambda>a b. a > b)"

definition sp_gt :: "StringPiece \<Rightarrow> StringPiece \<Rightarrow> bool res" where
  "sp_gt = binary_predicate (\<lambda>a b. a > b) (\<lambda>a b. a > b)"

definition sp_compare :: "StringPiece \<Rightarrow> StringPiece \<Rightarrow> int res" where
  "sp_compare p x =
     bindR (sp_memcmp p x (if sp_length p < sp_length x then sp_length p else sp_length x)) (\<lambda>r.
       Inr (if r = 0 then (if sp_length p < sp_length x then - 1 else if sp_length p > sp_length x then 1 else r) else r))"

definition as_string :: "StringPiece \<Rightarrow> string res" where
  "as_string p = sp_read p (sp_length p)"

definition CopyToString :: "StringPiece \<Rightarrow> string res" where
  "CopyToString p = sp_read p (sp_length p)"

definition starts_with :: "StringPiece \<Rightarrow> StringPiece \<Rightarrow> bool res" where
  "starts_with p x =
     (if sp_length p \<ge> sp_length x then bindR (sp_memcmp p x (sp_length x)) (\<lambda>r. Inr (r = 0)) else Inr False)"

section \<open>Pieces as strings\<close>

definition sp_ok :: "StringPiece \<Rightarrow> bool" where
  "sp_ok p \<longleftrightarrow> 0 \<le> sp_off p \<and> 0 \<le> sp_length p \<and> sp_off p + sp_length p \<le> int (length (sp_mem p))"

definition sp_view :: "StringPiece \<Rightarrow> string" where
  "sp_view p = take (nat (sp_length p)) (drop (nat (sp_off p)) (sp_mem p))"

lemma view_length: "sp_ok p \<Longrightarrow> int (length (sp_view p)) = sp_length p"
  by (auto simp: sp_view_def sp_ok_def)

lemma read_view: "sp_ok p \<Longrightarrow> 0 \<le> n \<Longrightarrow> n \<le> sp_length p \<Longrightarrow> sp_read p n = Inr (take (nat n) (sp_view p))"
  by (auto simp: sp_read_def sp_view_def sp_ok_def min_def)

lemma memcmp_zero: "length a = length b \<Longrightarrow> memcmp a b = 0 \<longleftrightarrow> a = b"
  by (induction a b rule: memcmp.induct) auto

lemma nil_less: "([] :: 'a::order list) < x \<longleftrightarrow> x \<noteq> []"
  by (cases x) auto

lemma memcmp_lex:
  "let n = min (length a) (length b); r = memcmp (take n a) (take n b)
   in (r < 0 \<or> (r = 0 \<and> length a < length b) \<longleftrightarrow> a < b) \<and> (r > 0 \<or> (r = 0 \<and> length a > length b) \<longleftrightarrow> b < a)
     \<and> (r = 0 \<and> length a = length b \<longleftrightarrow> a = b)"
proof (induction a b rule: memcmp.induct)
  case (1 a as b bs)
  consider "(of_char a :: nat) < of_char b" | "(of_char a :: nat) > of_char b" | "a = b"
    by (metis linorder_neqE_nat of_char_eq_iff)
  then show ?case
  proof cases
    case 3
    with 1 show ?thesis by (simp add: Let_def)
  qed (auto simp: Let_def less_char_def)
qed (auto simp: nil_less)

lemma sp_memcmp_min:
  assumes "sp_ok p" "sp_ok x"
  shows "sp_memcmp p x (if sp_length p < sp_length x then sp_length p else sp_length x) =
    Inr (memcmp (take (min (length (sp_view p)) (length (sp_view x))) (sp_view p))
      (take (min (length (sp_view p)) (length (sp_view x))) (sp_view x)))"
proof -
  have n: "nat (if sp_length p < sp_length x then sp_length p else sp_length x)
      = min (length (sp_view p)) (length (sp_view x))"
    using view_length [OF assms(1)] view_length [OF assms(2)] by auto
  show ?thesis
    using assms by (simp add: sp_memcmp_def read_view n [symmetric] sp_ok_def)
qed

lemma view_less: "sp_ok p \<Longrightarrow> sp_ok x \<Longrightarrow> sp_length p < sp_length x \<longleftrightarrow> length (sp_view p) < length (sp_view x)"
  using view_length [of p] view_length [of x] by linarith

lemma prefix_take: "prefix ys xs \<longleftrightarrow> take (length ys) xs = ys"
proof
  assume "take (length ys) xs = ys"
  with take_is_prefix [of "length ys" xs] show "prefix ys xs" by simp
qed (auto elim: prefixE)

text \<open>On pieces inside their memory, the six comparison operators and \<open>compare\<close> are those of the
  lexicographic order of unsigned bytes, a total order, and \<open>starts_with\<close> is the prefix order: no
  comparison reads outside the pieces.\<close>

theorem stringpiece_is_lexicographic:
  assumes "sp_ok p" "sp_ok x"
  shows "sp_eq p x = Inr (sp_view p = sp_view x) \<and> sp_ne p x = Inr (sp_view p \<noteq> sp_view x)
    \<and> sp_lt p x = Inr (sp_view p < sp_view x) \<and> sp_le p x = Inr (sp_view p \<le> sp_view x)
    \<and> sp_gt p x = Inr (sp_view x < sp_view p) \<and> sp_ge p x = Inr (sp_view x \<le> sp_view p)
    \<and> (\<exists>r. sp_compare p x = Inr r \<and> (r < 0 \<longleftrightarrow> sp_view p < sp_view x) \<and> (r > 0 \<longleftrightarrow> sp_view x < sp_view p))
    \<and> starts_with p x = Inr (prefix (sp_view x) (sp_view p))"
proof -
  note lex = memcmp_lex [of "sp_view p" "sp_view x", unfolded Let_def]
  have len: "sp_length p = int (length (sp_view p))" "sp_length x = int (length (sp_view x))"
    using view_length assms by simp_all
  have nn: "0 \<le> sp_length p" "0 \<le> sp_length x" using assms by (auto simp: sp_ok_def)
  have eq: "sp_eq p x = Inr (sp_view p = sp_view x)"
    using assms nn len by (auto simp: sp_eq_def sp_memcmp_def read_view memcmp_zero)
  have sw: "starts_with p x = Inr (prefix (sp_view x) (sp_view p))"
  proof (cases "sp_length x \<le> sp_length p")
    case True
    then have "starts_with p x = Inr (take (length (sp_view x)) (sp_view p) = sp_view x)"
      using assms nn len by (simp add: starts_with_def sp_memcmp_def read_view memcmp_zero)
    then show ?thesis by (simp add: prefix_take)
  next
    case False
    then show ?thesis using len prefix_length_le [of "sp_view x" "sp_view p"] by (auto simp: starts_with_def)
  qed
  define a b where "a = sp_view p" and "b = sp_view x"
  define r where "r = memcmp (take (min (length a) (length b)) a) (take (min (length a) (length b)) b)"
  have min: "sp_memcmp p x (if sp_length p < sp_length x then sp_length p else sp_length x) = Inr r"
    unfolding r_def a_def b_def by (rule sp_memcmp_min [OF assms])
  have l: "r < 0 \<or> (r = 0 \<and> length a < length b) \<longleftrightarrow> a < b"
    and g: "r > 0 \<or> (r = 0 \<and> length a > length b) \<longleftrightarrow> b < a"
    and e: "r = 0 \<and> length a = length b \<longleftrightarrow> a = b"
    using lex unfolding r_def a_def b_def by blast+
  have le: "a \<le> b \<longleftrightarrow> a < b \<or> a = b" "b \<le> a \<longleftrightarrow> b < a \<or> a = b" by auto
  have len': "sp_length p = int (length a)" "sp_length x = int (length b)" using len by (simp_all add: a_def b_def)
  have bp: "binary_predicate cmp aux p x = Inr (aux r 0 \<or> (r = 0 \<and> cmp (int (length a)) (int (length b))))" for cmp aux
    unfolding binary_predicate_def min by (simp add: len')
  have "sp_lt p x = Inr (a < b)" "sp_gt p x = Inr (b < a)"
    using l g by (simp_all add: sp_lt_def sp_gt_def bp)
  moreover have "sp_le p x = Inr (a \<le> b)" "sp_ge p x = Inr (b \<le> a)"
    using l g e le by (auto simp: sp_le_def sp_ge_def bp)
  moreover have "\<exists>c. sp_compare p x = Inr c \<and> (c < 0 \<longleftrightarrow> a < b) \<and> (c > 0 \<longleftrightarrow> b < a)"
    unfolding sp_compare_def min using l g by (auto simp: len')
  ultimately show ?thesis using eq sw by (simp add: sp_ne_def a_def b_def)
qed

theorem stringpiece_is_lexicographic_witness:
  "let p = StringPiece_str ''ab''; x = StringPiece_str ''abc'' in
    sp_eq p x = Inr (sp_view p = sp_view x) \<and> sp_ne p x = Inr (sp_view p \<noteq> sp_view x)
    \<and> sp_lt p x = Inr (sp_view p < sp_view x) \<and> sp_le p x = Inr (sp_view p \<le> sp_view x)
    \<and> sp_gt p x = Inr (sp_view x < sp_view p) \<and> sp_ge p x = Inr (sp_view x \<le> sp_view p)
    \<and> (\<exists>r. sp_compare p x = Inr r \<and> (r < 0 \<longleftrightarrow> sp_view p < sp_view x) \<and> (r > 0 \<longleftrightarrow> sp_view x < sp_view p))
    \<and> starts_with p x = Inr (prefix (sp_view x) (sp_view p))"
  unfolding Let_def by (rule stringpiece_is_lexicographic) (simp_all add: sp_ok_def StringPiece_str_def)

end
