(* ===== verification/Buffer.thy ===== *)
theory Buffer
  imports StringPieces
begin

text \<open>
  \<^verbatim>\<open>include/muduo/net/Buffer.h\<close> and \<^verbatim>\<open>include/muduo/net/Endian.h\<close>: the byte buffer of a
  connection, from which the provider and the client take their data. A failed \<^verbatim>\<open>assert\<close> is
  the error \<open>AssertFailed\<close>. Pointers into the buffer are indices into its vector; integers of
  8 to 64 bits, signed or not, are words; the machine is little-endian. The index arithmetic
  is on \<^verbatim>\<open>size_t\<close>, which the invariant keeps from wrapping.
\<close>

section \<open>Byte order\<close>

text \<open>The \<open>k\<close> bytes of a number in memory, and the number they are.\<close>

primrec le_bytes :: "nat \<Rightarrow> nat \<Rightarrow> string" where
  "le_bytes 0 n = []"
| "le_bytes (Suc k) n = char_of n # le_bytes k (n div 256)"

definition le_value :: "string \<Rightarrow> nat" where
  "le_value s = foldr (\<lambda>c n. of_char c + 256 * n) s 0"

lemma le_bytes_length [simp]: "length (le_bytes k n) = k"
  by (induction k arbitrary: n) auto

lemma le_value_simps [simp]: "le_value [] = 0" "le_value (c # s) = of_char c + 256 * le_value s"
  by (simp_all add: le_value_def)

lemma le_value_bytes: "le_value (le_bytes k n) = n mod 256 ^ k"
proof (induction k arbitrary: n)
  case (Suc k)
  show ?case by (simp add: Suc mod_mult2_eq)
qed simp

lemma le_value_less: "le_value s < 256 ^ length s"
proof (induction s)
  case (Cons c s)
  have "(of_char c :: nat) < 256" by simp
  moreover have "le_value s + 1 \<le> 256 ^ length s" using Cons by simp
  then have "256 * le_value s + 256 \<le> 256 * 256 ^ length s" by (metis add_mult_distrib2 mult.right_neutral mult_le_mono2)
  ultimately have "of_char c + 256 * le_value s < 256 * 256 ^ length s" by linarith
  then show ?case by simp
qed simp

lemma le_bytes_value: "le_bytes (length s) (le_value s) = s"
proof (induction s)
  case (Cons c s)
  have "(of_char c + 256 * le_value s) div 256 = (le_value s :: nat)" by simp
  moreover have "char_of (of_char c + 256 * le_value s :: nat) = c" by (simp add: char_of_eq_iff take_bit_eq_mod)
  ultimately show ?case using Cons by simp
qed simp

definition byte_swap :: "nat \<Rightarrow> nat \<Rightarrow> nat" where
  "byte_swap k n = le_value (rev (le_bytes k n))"

definition hostToNetwork64 :: "u64 \<Rightarrow> u64" where
  "hostToNetwork64 host64 = of_nat (byte_swap 8 (unat host64))"

definition hostToNetwork32 :: "u32 \<Rightarrow> u32" where
  "hostToNetwork32 host32 = of_nat (byte_swap 4 (unat host32))"

definition hostToNetwork16 :: "u16 \<Rightarrow> u16" where
  "hostToNetwork16 host16 = of_nat (byte_swap 2 (unat host16))"

definition networkToHost64 :: "u64 \<Rightarrow> u64" where
  "networkToHost64 net64 = of_nat (byte_swap 8 (unat net64))"

definition networkToHost32 :: "u32 \<Rightarrow> u32" where
  "networkToHost32 net32 = of_nat (byte_swap 4 (unat net32))"

definition networkToHost16 :: "u16 \<Rightarrow> u16" where
  "networkToHost16 net16 = of_nat (byte_swap 2 (unat net16))"

section \<open>The buffer\<close>

record Buffer =
  buf_data :: string
  readerIndex :: nat
  writerIndex :: nat

definition kCheapPrepend :: nat where "kCheapPrepend = 8"

definition kInitialSize :: nat where "kInitialSize = 1024"

definition assert_that :: "bool \<Rightarrow> 'a res \<Rightarrow> 'a res" where
  "assert_that P r = (if P then r else Inl AssertFailed)"

definition readableBytes :: "Buffer \<Rightarrow> nat" where
  "readableBytes b = writerIndex b - readerIndex b"

definition writableBytes :: "Buffer \<Rightarrow> nat" where
  "writableBytes b = length (buf_data b) - writerIndex b"

definition prependableBytes :: "Buffer \<Rightarrow> nat" where
  "prependableBytes b = readerIndex b"

definition Buffer_new :: "nat \<Rightarrow> Buffer res" where
  "Buffer_new initialSize =
     (let b = \<lparr>buf_data = replicate (kCheapPrepend + initialSize) NUL, readerIndex = kCheapPrepend,
               writerIndex = kCheapPrepend\<rparr>
      in assert_that (readableBytes b = 0) (
         assert_that (writableBytes b = initialSize) (
         assert_that (prependableBytes b = kCheapPrepend) (Inr b))))"

definition Buffer_swap :: "Buffer \<Rightarrow> Buffer \<Rightarrow> Buffer \<times> Buffer" where
  "Buffer_swap b rhs = (rhs, b)"

text \<open>The bytes in \<open>[peek() + from, peek() + from + n)\<close>.\<close>

definition peek_bytes :: "Buffer \<Rightarrow> nat \<Rightarrow> string" where
  "peek_bytes b n = take n (drop (readerIndex b) (buf_data b))"

subsection \<open>Searching\<close>

fun search_crlf :: "string \<Rightarrow> nat option" where
  "search_crlf (c # d # s) = (if c = CHR 0x0D \<and> d = CHR 0x0A then Some 0 else map_option Suc (search_crlf (d # s)))"
| "search_crlf _ = None"

definition written_from :: "Buffer \<Rightarrow> nat \<Rightarrow> string" where
  "written_from b start = take (writerIndex b - start) (drop start (buf_data b))"

definition findCRLF :: "Buffer \<Rightarrow> nat option" where
  "findCRLF b = map_option (\<lambda>i. readerIndex b + i) (search_crlf (written_from b (readerIndex b)))"

definition findCRLF_from :: "Buffer \<Rightarrow> nat \<Rightarrow> nat option res" where
  "findCRLF_from b start =
     assert_that (readerIndex b \<le> start) (
     assert_that (start \<le> writerIndex b) (
       Inr (map_option (\<lambda>i. start + i) (search_crlf (written_from b start)))))"

definition findEOL :: "Buffer \<Rightarrow> nat option" where
  "findEOL b = map_option (\<lambda>i. readerIndex b + i) (index_of (\<lambda>c. c = CHR 0x0A) (peek_bytes b (readableBytes b)))"

definition findEOL_from :: "Buffer \<Rightarrow> nat \<Rightarrow> nat option res" where
  "findEOL_from b start =
     assert_that (readerIndex b \<le> start) (
     assert_that (start \<le> writerIndex b) (
       Inr (map_option (\<lambda>i. start + i) (index_of (\<lambda>c. c = CHR 0x0A) (written_from b start)))))"

subsection \<open>Retrieving\<close>

definition retrieveAll :: "Buffer \<Rightarrow> Buffer" where
  "retrieveAll b = b\<lparr>readerIndex := kCheapPrepend, writerIndex := kCheapPrepend\<rparr>"

definition retrieve :: "Buffer \<Rightarrow> nat \<Rightarrow> Buffer res" where
  "retrieve b len =
     assert_that (len \<le> readableBytes b) (
       Inr (if len < readableBytes b then b\<lparr>readerIndex := readerIndex b + len\<rparr> else retrieveAll b))"

definition retrieveUntil :: "Buffer \<Rightarrow> nat \<Rightarrow> Buffer res" where
  "retrieveUntil b end' =
     assert_that (readerIndex b \<le> end') (
     assert_that (end' \<le> writerIndex b) (retrieve b (end' - readerIndex b)))"

definition retrieveInt64 :: "Buffer \<Rightarrow> Buffer res" where "retrieveInt64 b = retrieve b 8"

definition retrieveInt32 :: "Buffer \<Rightarrow> Buffer res" where "retrieveInt32 b = retrieve b 4"

definition retrieveInt16 :: "Buffer \<Rightarrow> Buffer res" where "retrieveInt16 b = retrieve b 2"

definition retrieveInt8 :: "Buffer \<Rightarrow> Buffer res" where "retrieveInt8 b = retrieve b 1"

definition retrieveAsString :: "Buffer \<Rightarrow> nat \<Rightarrow> (string \<times> Buffer) res" where
  "retrieveAsString b len =
     assert_that (len \<le> readableBytes b) (
       let result = peek_bytes b len
       in bindR (retrieve b len) (\<lambda>b. Inr (result, b)))"

definition retrieveAllAsString :: "Buffer \<Rightarrow> (string \<times> Buffer) res" where
  "retrieveAllAsString b = retrieveAsString b (readableBytes b)"

text \<open>The length of a piece is an \<^verbatim>\<open>int\<close>: the number of readable bytes is cut to 32 bits and read as signed.\<close>

definition toStringPiece :: "Buffer \<Rightarrow> StringPiece" where
  "toStringPiece b =
     StringPiece_mem (buf_data b) (int (readerIndex b)) (sint (of_nat (readableBytes b) :: 32 word))"

subsection \<open>Writing\<close>

definition vec_resize :: "string \<Rightarrow> nat \<Rightarrow> string" where
  "vec_resize v n = take n v @ replicate (n - length v) NUL"

text \<open>\<^verbatim>\<open>std::copy\<close> of a string into the vector at an index.\<close>

definition write_at :: "string \<Rightarrow> nat \<Rightarrow> string \<Rightarrow> string" where
  "write_at v pos s = take pos v @ s @ drop (pos + length s) v"

definition makeSpace :: "Buffer \<Rightarrow> nat \<Rightarrow> Buffer res" where
  "makeSpace b len =
     (if writableBytes b + prependableBytes b < len + kCheapPrepend
      then Inr (b\<lparr>buf_data := vec_resize (buf_data b) (writerIndex b + len)\<rparr>)
      else assert_that (kCheapPrepend < readerIndex b) (
        let readable = readableBytes b;
            b' = b\<lparr>buf_data := write_at (buf_data b) kCheapPrepend (peek_bytes b readable),
                   readerIndex := kCheapPrepend, writerIndex := kCheapPrepend + readable\<rparr>
        in assert_that (readable = readableBytes b') (Inr b')))"

definition ensureWritableBytes :: "Buffer \<Rightarrow> nat \<Rightarrow> Buffer res" where
  "ensureWritableBytes b len =
     bindR (if writableBytes b < len then makeSpace b len else Inr b) (\<lambda>b.
       assert_that (len \<le> writableBytes b) (Inr b))"

definition hasWritten :: "Buffer \<Rightarrow> nat \<Rightarrow> Buffer res" where
  "hasWritten b len = assert_that (len \<le> writableBytes b) (Inr (b\<lparr>writerIndex := writerIndex b + len\<rparr>))"

definition unwrite :: "Buffer \<Rightarrow> nat \<Rightarrow> Buffer res" where
  "unwrite b len = assert_that (len \<le> readableBytes b) (Inr (b\<lparr>writerIndex := writerIndex b - len\<rparr>))"

definition append_bytes :: "Buffer \<Rightarrow> string \<Rightarrow> Buffer res" where
  "append_bytes b s =
     bindR (ensureWritableBytes b (length s)) (\<lambda>b.
       hasWritten (b\<lparr>buf_data := write_at (buf_data b) (writerIndex b) s\<rparr>) (length s))"

text \<open>A piece with a negative length has no bytes to append: its size as \<^verbatim>\<open>size_t\<close> exceeds every block.\<close>

definition append_piece :: "Buffer \<Rightarrow> StringPiece \<Rightarrow> Buffer res" where
  "append_piece b str = bindR (sp_read str (sp_size str)) (append_bytes b)"

definition prepend :: "Buffer \<Rightarrow> string \<Rightarrow> Buffer res" where
  "prepend b s =
     assert_that (length s \<le> prependableBytes b) (
       let r = readerIndex b - length s
       in Inr (b\<lparr>readerIndex := r, buf_data := write_at (buf_data b) r s\<rparr>))"

definition shrink :: "Buffer \<Rightarrow> nat \<Rightarrow> Buffer res" where
  "shrink b reserve =
     bindR (Buffer_new kInitialSize) (\<lambda>other.
     bindR (ensureWritableBytes other (readableBytes b + reserve)) (\<lambda>other.
     bindR (append_piece other (toStringPiece b)) (\<lambda>other.
       Inr (fst (Buffer_swap b other)))))"

subsection \<open>Integers in network order\<close>

definition appendInt64 :: "Buffer \<Rightarrow> u64 \<Rightarrow> Buffer res" where
  "appendInt64 b x = (let be64 = hostToNetwork64 x in append_bytes b (le_bytes 8 (unat be64)))"

definition appendInt32 :: "Buffer \<Rightarrow> u32 \<Rightarrow> Buffer res" where
  "appendInt32 b x = (let be32 = hostToNetwork32 x in append_bytes b (le_bytes 4 (unat be32)))"

definition appendInt16 :: "Buffer \<Rightarrow> u16 \<Rightarrow> Buffer res" where
  "appendInt16 b x = (let be16 = hostToNetwork16 x in append_bytes b (le_bytes 2 (unat be16)))"

definition appendInt8 :: "Buffer \<Rightarrow> u8 \<Rightarrow> Buffer res" where
  "appendInt8 b x = append_bytes b (le_bytes 1 (unat x))"

definition prependInt64 :: "Buffer \<Rightarrow> u64 \<Rightarrow> Buffer res" where
  "prependInt64 b x = (let be64 = hostToNetwork64 x in prepend b (le_bytes 8 (unat be64)))"

definition prependInt32 :: "Buffer \<Rightarrow> u32 \<Rightarrow> Buffer res" where
  "prependInt32 b x = (let be32 = hostToNetwork32 x in prepend b (le_bytes 4 (unat be32)))"

definition prependInt16 :: "Buffer \<Rightarrow> u16 \<Rightarrow> Buffer res" where
  "prependInt16 b x = (let be16 = hostToNetwork16 x in prepend b (le_bytes 2 (unat be16)))"

definition prependInt8 :: "Buffer \<Rightarrow> u8 \<Rightarrow> Buffer res" where
  "prependInt8 b x = prepend b (le_bytes 1 (unat x))"

definition peekInt64 :: "Buffer \<Rightarrow> u64 res" where
  "peekInt64 b = assert_that (8 \<le> readableBytes b) (Inr (networkToHost64 (of_nat (le_value (peek_bytes b 8)))))"

definition peekInt32 :: "Buffer \<Rightarrow> u32 res" where
  "peekInt32 b = assert_that (4 \<le> readableBytes b) (Inr (networkToHost32 (of_nat (le_value (peek_bytes b 4)))))"

definition peekInt16 :: "Buffer \<Rightarrow> u16 res" where
  "peekInt16 b = assert_that (2 \<le> readableBytes b) (Inr (networkToHost16 (of_nat (le_value (peek_bytes b 2)))))"

definition peekInt8 :: "Buffer \<Rightarrow> u8 res" where
  "peekInt8 b = assert_that (1 \<le> readableBytes b) (Inr (of_nat (le_value (peek_bytes b 1))))"

definition readInt64 :: "Buffer \<Rightarrow> (u64 \<times> Buffer) res" where
  "readInt64 b = bindR (peekInt64 b) (\<lambda>result. bindR (retrieveInt64 b) (\<lambda>b. Inr (result, b)))"

definition readInt32 :: "Buffer \<Rightarrow> (u32 \<times> Buffer) res" where
  "readInt32 b = bindR (peekInt32 b) (\<lambda>result. bindR (retrieveInt32 b) (\<lambda>b. Inr (result, b)))"

definition readInt16 :: "Buffer \<Rightarrow> (u16 \<times> Buffer) res" where
  "readInt16 b = bindR (peekInt16 b) (\<lambda>result. bindR (retrieveInt16 b) (\<lambda>b. Inr (result, b)))"

definition readInt8 :: "Buffer \<Rightarrow> (u8 \<times> Buffer) res" where
  "readInt8 b = bindR (peekInt8 b) (\<lambda>result. bindR (retrieveInt8 b) (\<lambda>b. Inr (result, b)))"

end
