(* ===== verification/BufferProps.thy ===== *)
theory BufferProps
  imports Buffer
begin

text \<open>
  The buffer is a queue of bytes: no assertion of it fails while its user retrieves no more
  than there is, and what comes out is what went in. Its integers round-trip in network
  order. The contract is the locale \<open>byte_stream\<close>.
\<close>

section \<open>The contract of a byte stream\<close>

datatype stream_op = Append string | Retrieve nat

locale byte_stream =
  fixes content :: "'b \<Rightarrow> string"
    and append :: "'b \<Rightarrow> string \<Rightarrow> 'b res"
    and take_out :: "'b \<Rightarrow> nat \<Rightarrow> 'b res"
    and ok :: "'b \<Rightarrow> bool"
  assumes append_ok: "ok b \<Longrightarrow> \<exists>b'. append b s = Inr b' \<and> ok b' \<and> content b' = content b @ s"
    and take_ok: "ok b \<Longrightarrow> n \<le> length (content b) \<Longrightarrow>
      \<exists>b'. take_out b n = Inr b' \<and> ok b' \<and> content b' = drop n (content b)"
    and take_asserts: "ok b \<Longrightarrow> length (content b) < n \<Longrightarrow> take_out b n = Inl AssertFailed"
begin

fun run_ops :: "stream_op list \<Rightarrow> 'b \<Rightarrow> (string \<times> 'b) res" where
  "run_ops [] b = Inr ([], b)"
| "run_ops (Append s # os) b = bindR (append b s) (run_ops os)"
| "run_ops (Retrieve n # os) b =
     bindR (take_out b n) (\<lambda>b'. bindR (run_ops os b') (\<lambda>(out, b''). Inr (take n (content b) @ out, b'')))"

end

fun appended :: "stream_op list \<Rightarrow> string" where
  "appended [] = []"
| "appended (Append s # os) = s @ appended os"
| "appended (Retrieve n # os) = appended os"

fun enough :: "nat \<Rightarrow> stream_op list \<Rightarrow> bool" where
  "enough k [] = True"
| "enough k (Append s # os) = enough (k + length s) os"
| "enough k (Retrieve n # os) = (n \<le> k \<and> enough (k - n) os)"

context byte_stream
begin

lemma run_conserves:
  "ok b \<Longrightarrow> enough (length (content b)) os \<Longrightarrow>
     \<exists>out b'. run_ops os b = Inr (out, b') \<and> ok b' \<and> out @ content b' = content b @ appended os"
proof (induction os arbitrary: b)
  case Nil
  then show ?case by simp
next
  case (Cons x os)
  show ?case
  proof (cases x)
    case (Append s)
    from append_ok [OF Cons.prems(1), of s] obtain b' where
      b': "append b s = Inr b'" "ok b'" "content b' = content b @ s" by blast
    with Cons.IH [of b'] Cons.prems(2) Append show ?thesis by auto
  next
    case (Retrieve n)
    with Cons.prems(2) have n: "n \<le> length (content b)" by simp
    from take_ok [OF Cons.prems(1) n] obtain b' where
      b': "take_out b n = Inr b'" "ok b'" "content b' = drop n (content b)" by blast
    with Cons.IH [of b'] Cons.prems(2) Retrieve obtain out b'' where
      "run_ops os b' = Inr (out, b'')" "ok b''" "out @ content b'' = drop n (content b) @ appended os" by auto
    with b' Retrieve show ?thesis by simp
  qed
qed

lemma run_fails: "ok b \<Longrightarrow> \<not> enough (length (content b)) os \<Longrightarrow> run_ops os b = Inl AssertFailed"
proof (induction os arbitrary: b)
  case Nil
  then show ?case by simp
next
  case (Cons x os)
  show ?case
  proof (cases x)
    case (Append s)
    from append_ok [OF Cons.prems(1), of s] obtain b' where
      b': "append b s = Inr b'" "ok b'" "content b' = content b @ s" by blast
    with Cons.IH [of b'] Cons.prems(2) Append show ?thesis by simp
  next
    case (Retrieve n)
    show ?thesis
    proof (cases "n \<le> length (content b)")
      case True
      from take_ok [OF Cons.prems(1) True] obtain b' where
        b': "take_out b n = Inr b'" "ok b'" "content b' = drop n (content b)" by blast
      with Cons.IH [of b'] Cons.prems(2) Retrieve True show ?thesis by simp
    next
      case False
      with take_asserts [OF Cons.prems(1), of n] Retrieve show ?thesis by simp
    qed
  qed
qed

end

section \<open>The buffer's invariant and content\<close>

definition buf_ok :: "Buffer \<Rightarrow> bool" where
  "buf_ok b \<longleftrightarrow> readerIndex b \<le> writerIndex b \<and> writerIndex b \<le> length (buf_data b)
     \<and> kCheapPrepend \<le> length (buf_data b)"

definition content :: "Buffer \<Rightarrow> string" where
  "content b = peek_bytes b (readableBytes b)"

named_theorems buf_simps \<open>definitions of the buffer\<close>

lemmas [buf_simps] = readableBytes_def writableBytes_def prependableBytes_def peek_bytes_def assert_that_def

lemma content_length: "buf_ok b \<Longrightarrow> length (content b) = readableBytes b"
  by (auto simp: content_def buf_ok_def buf_simps)

lemma content_at: "content b = take (writerIndex b - readerIndex b) (drop (readerIndex b) (buf_data b))"
  by (simp add: content_def buf_simps)

lemma new_ok: "\<exists>b. Buffer_new n = Inr b \<and> buf_ok b \<and> content b = [] \<and> readerIndex b = 8"
  by (auto simp: Buffer_new_def Let_def buf_ok_def content_at buf_simps kCheapPrepend_def)

lemma retrieve_ok:
  assumes "buf_ok b" "n \<le> length (content b)"
  shows "\<exists>b'. retrieve b n = Inr b' \<and> buf_ok b' \<and> content b' = drop n (content b)
    \<and> length (buf_data b') = length (buf_data b)"
proof -
  have n: "n \<le> readableBytes b" using assms content_length by simp
  show ?thesis
  proof (cases "n < readableBytes b")
    case True
    let ?b = "b\<lparr>readerIndex := readerIndex b + n\<rparr>"
    have "retrieve b n = Inr ?b" using True by (simp add: retrieve_def assert_that_def)
    moreover have "buf_ok ?b" using True assms(1) by (auto simp: buf_ok_def readableBytes_def)
    moreover have "content ?b = drop n (content b)" by (simp add: content_at drop_take add.commute)
    ultimately show ?thesis by simp
  next
    case False
    with n assms show ?thesis
      by (auto simp: retrieve_def assert_that_def buf_ok_def content_at readableBytes_def retrieveAll_def)
  qed
qed

lemma retrieve_asserts: "buf_ok b \<Longrightarrow> length (content b) < n \<Longrightarrow> retrieve b n = Inl AssertFailed"
  by (simp add: retrieve_def assert_that_def content_length)

text \<open>Making room keeps the content; its assertion holds whenever it is called.\<close>

lemma makeSpace_ok:
  assumes "buf_ok b" "writableBytes b < n"
  shows "\<exists>b'. makeSpace b n = Inr b' \<and> buf_ok b' \<and> content b' = content b \<and> n \<le> writableBytes b'"
proof (cases "writableBytes b + prependableBytes b < n + kCheapPrepend")
  case True
  then show ?thesis using assms
    by (auto simp: makeSpace_def vec_resize_def buf_ok_def content_at buf_simps)
next
  case False
  have r: "kCheapPrepend < readerIndex b" using False assms(2) by (simp add: prependableBytes_def)
  let ?d = "write_at (buf_data b) kCheapPrepend (content b)"
  have l: "length (content b) = readableBytes b" using assms(1) by (rule content_length)
  have lens: "length ?d = length (buf_data b)"
    using assms(1) r l by (simp add: write_at_def buf_ok_def readableBytes_def)
  have c: "take (readableBytes b) (drop kCheapPrepend ?d) = content b"
    using assms(1) l by (simp add: write_at_def buf_ok_def)
  have "makeSpace b n = Inr (b\<lparr>buf_data := ?d, readerIndex := kCheapPrepend, writerIndex := kCheapPrepend + readableBytes b\<rparr>)"
    using False r by (simp add: makeSpace_def assert_that_def Let_def content_def readableBytes_def)
  then show ?thesis
    using False assms lens r c
    by (auto simp: buf_ok_def content_at [of "b\<lparr>buf_data := _, readerIndex := _, writerIndex := _\<rparr>"]
        readableBytes_def writableBytes_def prependableBytes_def)
qed

lemma ensure_ok:
  assumes "buf_ok b"
  shows "\<exists>b'. ensureWritableBytes b n = Inr b' \<and> buf_ok b' \<and> content b' = content b \<and> n \<le> writableBytes b'"
proof (cases "writableBytes b < n")
  case True
  from makeSpace_ok [OF assms True] True show ?thesis by (auto simp: ensureWritableBytes_def assert_that_def)
next
  case False
  with assms show ?thesis by (simp add: ensureWritableBytes_def assert_that_def)
qed

lemma append_bytes_ok:
  assumes "buf_ok b"
  shows "\<exists>b'. append_bytes b s = Inr b' \<and> buf_ok b' \<and> content b' = content b @ s"
proof -
  from ensure_ok [OF assms, of "length s"] obtain b' where
    b': "ensureWritableBytes b (length s) = Inr b'" "buf_ok b'" "content b' = content b" "length s \<le> writableBytes b'"
    by blast
  let ?b = "b'\<lparr>buf_data := write_at (buf_data b') (writerIndex b') s, writerIndex := writerIndex b' + length s\<rparr>"
  have "append_bytes b s = Inr ?b"
    using b' by (simp add: append_bytes_def hasWritten_def assert_that_def writableBytes_def write_at_def buf_ok_def)
  moreover have "buf_ok ?b" using b'(2,4) by (auto simp: buf_ok_def writableBytes_def write_at_def)
  moreover have "content ?b = content b' @ s"
    using b'(2,4) by (simp add: content_at buf_ok_def writableBytes_def write_at_def min_absorb2 diff_le_mono)
      (simp add: drop_take)
  ultimately show ?thesis using b'(3) by simp
qed

interpretation buf: byte_stream content append_bytes retrieve buf_ok
  by unfold_locales (use append_bytes_ok retrieve_ok retrieve_asserts in blast)+

lemma prepend_ok:
  assumes "buf_ok b" "length s \<le> readerIndex b"
  shows "\<exists>b'. prepend b s = Inr b' \<and> buf_ok b' \<and> content b' = s @ content b \<and> readerIndex b' = readerIndex b - length s"
  using assms
  by (auto simp: prepend_def assert_that_def prependableBytes_def Let_def buf_ok_def content_at write_at_def
      take_append drop_take)

text \<open>C37. The buffer is a first-in first-out stream of bytes: on a fresh buffer of any size, any sequence
  of appends and retrieves that never asks for more than there is runs without a failed
  assertion, and what came out, followed by what is left, is what was appended.\<close>

theorem buffer_is_fifo:
  assumes "enough 0 os"
  shows "\<exists>b0 out b. Buffer_new n = Inr b0 \<and> buf.run_ops os b0 = Inr (out, b) \<and> buf_ok b
    \<and> out @ content b = appended os"
proof -
  obtain b0 where "Buffer_new n = Inr b0" "buf_ok b0" "content b0 = []" using new_ok by blast
  with buf.run_conserves [of b0 os] assms show ?thesis by auto
qed

theorem buffer_is_fifo_witness:
  "\<exists>b0 out b. Buffer_new 4 = Inr b0
    \<and> buf.run_ops [Append ''hello'', Retrieve 2, Append ''world'', Retrieve 8] b0 = Inr (out, b) \<and> buf_ok b
    \<and> out @ content b = appended [Append ''hello'', Retrieve 2, Append ''world'', Retrieve 8]"
  by (rule buffer_is_fifo) simp

lemma retrieveAllAsString_ok:
  assumes "buf_ok b"
  shows "\<exists>b'. retrieveAllAsString b = Inr (content b, b') \<and> buf_ok b' \<and> content b' = []"
proof -
  have "length (content b) = readableBytes b" using assms by (rule content_length)
  with retrieve_ok [OF assms, of "readableBytes b"] show ?thesis
    by (auto simp: retrieveAllAsString_def retrieveAsString_def assert_that_def content_def)
qed

text \<open>\<open>retrieveAllAsString\<close>, which the provider and the client read their data with, returns the whole
  content and leaves the buffer empty; retrieving past the content fails an assertion.\<close>

theorem retrieveAllAsString_takes_all:
  assumes "buf_ok b" "readableBytes b < n"
  shows "\<exists>b'. retrieveAllAsString b = Inr (content b, b') \<and> buf_ok b' \<and> content b' = []
    \<and> retrieveAsString b n = Inl AssertFailed"
  using retrieveAllAsString_ok [OF assms(1)] assms(2) by (auto simp: retrieveAsString_def assert_that_def)

definition demo_buffer :: Buffer where
  "demo_buffer = \<lparr>buf_data = replicate 8 NUL @ ''abcd'', readerIndex = 9, writerIndex = 11\<rparr>"

lemma demo_buffer_ok: "buf_ok demo_buffer" "readableBytes demo_buffer = 2"
  by (simp_all add: demo_buffer_def buf_ok_def kCheapPrepend_def readableBytes_def)

theorem retrieveAllAsString_takes_all_witness:
  "\<exists>b'. retrieveAllAsString demo_buffer = Inr (content demo_buffer, b') \<and> buf_ok b' \<and> content b' = []
    \<and> retrieveAsString demo_buffer 3 = Inl AssertFailed"
  by (rule retrieveAllAsString_takes_all) (simp_all add: demo_buffer_ok)

section \<open>Integers\<close>

lemma byte_swap_swap: "n < 256 ^ k \<Longrightarrow> byte_swap k (byte_swap k n) = n"
proof -
  assume n: "n < 256 ^ k"
  have "le_bytes k (byte_swap k n) = rev (le_bytes k n)"
    using le_bytes_value [of "rev (le_bytes k n)"] by (simp add: byte_swap_def)
  then show ?thesis using n by (simp add: byte_swap_def le_value_bytes)
qed

lemma byte_swap_less: "byte_swap k n < 256 ^ k"
  using le_value_less [of "rev (le_bytes k n)"] by (simp add: byte_swap_def)

lemma peek_after:
  assumes "buf_ok b" "content b = s @ rest"
  shows "peek_bytes b (length s) = s" and "length s \<le> readableBytes b"
proof -
  show l: "length s \<le> readableBytes b" using assms content_length [OF assms(1)] by simp
  have "peek_bytes b (length s) = take (length s) (content b)"
    using l by (simp add: content_def peek_bytes_def min_absorb1)
  with assms(2) show "peek_bytes b (length s) = s" by simp
qed

text \<open>Reading one of \<open>k\<close> bytes: the value, and the rest of the content.\<close>

lemma int_at_front:
  assumes "buf_ok b" "content b = le_bytes k n @ rest"
  shows "peek_bytes b k = le_bytes k n" and "k \<le> readableBytes b"
    and "\<exists>b'. retrieve b k = Inr b' \<and> buf_ok b' \<and> content b' = rest"
proof -
  show "peek_bytes b k = le_bytes k n" "k \<le> readableBytes b" using peek_after [OF assms] by simp_all
  show "\<exists>b'. retrieve b k = Inr b' \<and> buf_ok b' \<and> content b' = rest"
    using retrieve_ok [OF assms(1), of k] assms(2) by auto
qed

lemmas int_ops = appendInt64_def appendInt32_def appendInt16_def appendInt8_def
  prependInt64_def prependInt32_def prependInt16_def prependInt8_def
  readInt64_def readInt32_def readInt16_def readInt8_def
  peekInt64_def peekInt32_def peekInt16_def peekInt8_def
  retrieveInt64_def retrieveInt32_def retrieveInt16_def retrieveInt8_def
  hostToNetwork64_def hostToNetwork32_def hostToNetwork16_def
  networkToHost64_def networkToHost32_def networkToHost16_def

lemma unat_le_value:
  fixes n :: "'a::len word"
  assumes "LENGTH('a) = 8 * k"
  shows "unat (of_nat (le_value (le_bytes k (unat n))) :: 'a word) = unat n"
proof -
  have "unat n < 256 ^ k" using unsigned_less [of n, where ?'a = nat] by (simp add: assms power_mult)
  then show ?thesis by (simp add: le_value_bytes)
qed

lemma swap_back:
  fixes x :: "'a::len word"
  assumes "LENGTH('a) = 8 * k"
  shows "of_nat (byte_swap k (unat (of_nat (le_value (le_bytes k (unat (of_nat (byte_swap k (unat x)) :: 'a word)))) :: 'a word))) = x"
proof -
  have e: "(256::nat) ^ k = 2 ^ LENGTH('a)" by (simp add: assms power_mult)
  have 1: "unat (of_nat (byte_swap k (unat x)) :: 'a word) = byte_swap k (unat x)"
    using byte_swap_less [of k "unat x"] e by (simp add: unsigned_of_nat take_bit_eq_mod)
  have 2: "unat x < 256 ^ k" using e by simp
  have 3: "of_nat (byte_swap k (unat (of_nat (le_value (le_bytes k (unat n))) :: 'a word)))
      = (of_nat (byte_swap k (unat n)) :: 'a word)" for n :: "'a word"
    by (simp only: unat_le_value [OF assms])
  show ?thesis by (rule trans [OF 3]) (simp only: 1 byte_swap_swap [OF 2], simp)
qed

lemma read_front64:
  assumes "buf_ok b" "content b = le_bytes 8 (unat (hostToNetwork64 x)) @ rest"
  shows "\<exists>b'. readInt64 b = Inr (x, b') \<and> buf_ok b' \<and> content b' = rest"
proof -
  note f = int_at_front [OF assms]
  have "networkToHost64 (of_nat (le_value (peek_bytes b 8))) = x"
    unfolding f(1) networkToHost64_def hostToNetwork64_def by (rule swap_back) simp
  then show ?thesis using f(2,3) by (auto simp: readInt64_def peekInt64_def retrieveInt64_def assert_that_def)
qed

lemma read_front32:
  assumes "buf_ok b" "content b = le_bytes 4 (unat (hostToNetwork32 x)) @ rest"
  shows "\<exists>b'. readInt32 b = Inr (x, b') \<and> buf_ok b' \<and> content b' = rest"
proof -
  note f = int_at_front [OF assms]
  have "networkToHost32 (of_nat (le_value (peek_bytes b 4))) = x"
    unfolding f(1) networkToHost32_def hostToNetwork32_def by (rule swap_back) simp
  then show ?thesis using f(2,3) by (auto simp: readInt32_def peekInt32_def retrieveInt32_def assert_that_def)
qed

lemma read_front16:
  assumes "buf_ok b" "content b = le_bytes 2 (unat (hostToNetwork16 x)) @ rest"
  shows "\<exists>b'. readInt16 b = Inr (x, b') \<and> buf_ok b' \<and> content b' = rest"
proof -
  note f = int_at_front [OF assms]
  have "networkToHost16 (of_nat (le_value (peek_bytes b 2))) = x"
    unfolding f(1) networkToHost16_def hostToNetwork16_def by (rule swap_back) simp
  then show ?thesis using f(2,3) by (auto simp: readInt16_def peekInt16_def retrieveInt16_def assert_that_def)
qed

lemma read_front8:
  assumes "buf_ok b" "content b = le_bytes 1 (unat (x :: u8)) @ rest"
  shows "\<exists>b'. readInt8 b = Inr (x, b') \<and> buf_ok b' \<and> content b' = rest"
proof -
  note f = int_at_front [OF assms]
  have "(of_nat (le_value (peek_bytes b 1)) :: u8) = x"
    unfolding f(1) by (simp add: word_unat_eq_iff unat_le_value del: le_bytes.simps)
  then show ?thesis using f(2,3) by (auto simp: readInt8_def peekInt8_def retrieveInt8_def assert_that_def)
qed

lemma then_read:
  "\<exists>b'. w = Inr b' \<and> buf_ok b' \<and> content b' = s @ r \<Longrightarrow>
   (\<And>b'. buf_ok b' \<Longrightarrow> content b' = s @ r \<Longrightarrow> \<exists>b2. rd b' = Inr (x, b2) \<and> buf_ok b2 \<and> content b2 = r) \<Longrightarrow>
   \<exists>b1 b2. w = Inr b1 \<and> rd b1 = Inr (x, b2) \<and> content b2 = r"
  by blast

text \<open>C38. Integers of every width round-trip through the buffer: what is appended to an empty buffer, or
  prepended to a buffer with room in front, is what is read next, and the content behind it stays.\<close>

theorem buffer_int_roundtrip:
  assumes "buf_ok b" "content b = []" "buf_ok p" "8 \<le> readerIndex p"
  shows "(\<exists>b1 b2. appendInt64 b x64 = Inr b1 \<and> readInt64 b1 = Inr (x64, b2) \<and> content b2 = [])
    \<and> (\<exists>b1 b2. appendInt32 b x32 = Inr b1 \<and> readInt32 b1 = Inr (x32, b2) \<and> content b2 = [])
    \<and> (\<exists>b1 b2. appendInt16 b x16 = Inr b1 \<and> readInt16 b1 = Inr (x16, b2) \<and> content b2 = [])
    \<and> (\<exists>b1 b2. appendInt8 b x8 = Inr b1 \<and> readInt8 b1 = Inr (x8, b2) \<and> content b2 = [])
    \<and> (\<exists>p1 p2. prependInt64 p x64 = Inr p1 \<and> readInt64 p1 = Inr (x64, p2) \<and> content p2 = content p)
    \<and> (\<exists>p1 p2. prependInt32 p x32 = Inr p1 \<and> readInt32 p1 = Inr (x32, p2) \<and> content p2 = content p)
    \<and> (\<exists>p1 p2. prependInt16 p x16 = Inr p1 \<and> readInt16 p1 = Inr (x16, p2) \<and> content p2 = content p)
    \<and> (\<exists>p1 p2. prependInt8 p x8 = Inr p1 \<and> readInt8 p1 = Inr (x8, p2) \<and> content p2 = content p)"
proof -
  have app: "\<exists>b'. append_bytes b s = Inr b' \<and> buf_ok b' \<and> content b' = s @ []" for s
    using append_bytes_ok [OF assms(1), of s] assms(2) by simp
  have pre: "\<exists>b'. prepend p s = Inr b' \<and> buf_ok b' \<and> content b' = s @ content p" if "length s \<le> 8" for s
    using prepend_ok [OF assms(3), of s] assms(4) that by auto
  show ?thesis
    unfolding appendInt64_def appendInt32_def appendInt16_def appendInt8_def
      prependInt64_def prependInt32_def prependInt16_def prependInt8_def Let_def
    by (intro conjI; (rule then_read [OF app] then_read [OF pre]))
      (simp_all add: read_front64 read_front32 read_front16 read_front8 del: le_bytes.simps)
qed

definition empty_buffer :: Buffer where
  "empty_buffer = \<lparr>buf_data = replicate 8 NUL, readerIndex = 8, writerIndex = 8\<rparr>"

lemma empty_buffer_ok: "buf_ok empty_buffer" "content empty_buffer = []" "readerIndex empty_buffer = 8"
  by (simp_all add: empty_buffer_def buf_ok_def kCheapPrepend_def content_at)

theorem buffer_int_roundtrip_witness:
  "(\<exists>b1 b2. appendInt64 empty_buffer 1 = Inr b1 \<and> readInt64 b1 = Inr (1, b2) \<and> content b2 = [])
    \<and> (\<exists>b1 b2. appendInt32 empty_buffer 2 = Inr b1 \<and> readInt32 b1 = Inr (2, b2) \<and> content b2 = [])
    \<and> (\<exists>b1 b2. appendInt16 empty_buffer 3 = Inr b1 \<and> readInt16 b1 = Inr (3, b2) \<and> content b2 = [])
    \<and> (\<exists>b1 b2. appendInt8 empty_buffer 4 = Inr b1 \<and> readInt8 b1 = Inr (4, b2) \<and> content b2 = [])
    \<and> (\<exists>p1 p2. prependInt64 demo_buffer 1 = Inr p1 \<and> readInt64 p1 = Inr (1, p2) \<and> content p2 = content demo_buffer)
    \<and> (\<exists>p1 p2. prependInt32 demo_buffer 2 = Inr p1 \<and> readInt32 p1 = Inr (2, p2) \<and> content p2 = content demo_buffer)
    \<and> (\<exists>p1 p2. prependInt16 demo_buffer 3 = Inr p1 \<and> readInt16 p1 = Inr (3, p2) \<and> content p2 = content demo_buffer)
    \<and> (\<exists>p1 p2. prependInt8 demo_buffer 4 = Inr p1 \<and> readInt8 p1 = Inr (4, p2) \<and> content p2 = content demo_buffer)"
  by (rule buffer_int_roundtrip [OF empty_buffer_ok(1,2) demo_buffer_ok(1)]) (simp add: demo_buffer_def)

section \<open>Searching and shrinking\<close>

lemma search_crlf_Some:
  "search_crlf s = Some i \<Longrightarrow> i + 1 < length s \<and> s ! i = CHR 0x0D \<and> s ! (i + 1) = CHR 0x0A
     \<and> (\<forall>j < i. \<not> (s ! j = CHR 0x0D \<and> s ! (j + 1) = CHR 0x0A))"
proof (induction s arbitrary: i rule: search_crlf.induct)
  case (1 c d s)
  show ?case
  proof (cases "c = CHR 0x0D \<and> d = CHR 0x0A")
    case True
    with 1 show ?thesis by auto
  next
    case False
    with 1 obtain k where k: "search_crlf (d # s) = Some k" "i = Suc k" by (auto split: if_splits)
    from 1(1) [OF False k(1)] False k(2) show ?thesis by (auto simp: less_Suc_eq_0_disj)
  qed
qed simp_all

lemma search_crlf_None:
  "search_crlf s = None \<Longrightarrow> i + 1 < length s \<Longrightarrow> \<not> (s ! i = CHR 0x0D \<and> s ! (i + 1) = CHR 0x0A)"
proof (induction s arbitrary: i rule: search_crlf.induct)
  case (1 c d s)
  then have nc: "\<not> (c = CHR 0x0D \<and> d = CHR 0x0A)" and none: "search_crlf (d # s) = None"
    by (auto split: if_splits)
  show ?case
  proof (cases i)
    case 0
    with nc show ?thesis by simp
  next
    case (Suc k)
    with 1(1) [OF nc none, of k] 1(3) show ?thesis by simp
  qed
qed simp_all

text \<open>\<open>findCRLF\<close> finds the first carriage return followed by a line feed of the readable content: the
  line it ends can be retrieved without a failed assertion, and there is none exactly when the
  result is null.\<close>

theorem findCRLF_first:
  assumes "buf_ok b"
  shows "case findCRLF b of
      Some p \<Rightarrow> \<exists>i b'. p = readerIndex b + i \<and> i + 1 < length (content b)
        \<and> content b ! i = CHR 0x0D \<and> content b ! (i + 1) = CHR 0x0A
        \<and> (\<forall>j < i. \<not> (content b ! j = CHR 0x0D \<and> content b ! (j + 1) = CHR 0x0A))
        \<and> retrieveUntil b (p + 2) = Inr b' \<and> content b' = drop (i + 2) (content b)
    | None \<Rightarrow> \<forall>i. i + 1 < length (content b) \<longrightarrow> \<not> (content b ! i = CHR 0x0D \<and> content b ! (i + 1) = CHR 0x0A)"
proof -
  have w: "written_from b (readerIndex b) = content b" by (simp add: written_from_def content_at)
  show ?thesis
  proof (cases "search_crlf (content b)")
    case None
    with search_crlf_None show ?thesis by (auto simp: findCRLF_def w)
  next
    case (Some i)
    note s = search_crlf_Some [OF Some]
    have l: "length (content b) = writerIndex b - readerIndex b"
      using content_length [OF assms] by (simp add: readableBytes_def)
    moreover have "i + 1 < length (content b)" using s by simp
    ultimately have "readerIndex b + i + 2 \<le> writerIndex b" by linarith
    moreover obtain b' where "retrieve b (i + 2) = Inr b'" "content b' = drop (i + 2) (content b)"
      using retrieve_ok [OF assms, of "i + 2"] s by auto
    ultimately have "retrieveUntil b (readerIndex b + i + 2) = Inr b'" "content b' = drop (i + 2) (content b)"
      by (simp_all add: retrieveUntil_def assert_that_def)
    with s show ?thesis by (simp add: findCRLF_def w Some)
  qed
qed

text \<open>A piece of a buffer whose length fits an \<^verbatim>\<open>int\<close> is its content; one from 2 to 4 gigabytes has a negative
  length and cannot be appended.\<close>

lemma sint_of_size: "sint (of_nat n :: 32 word) = (int n + 2 ^ 31) mod 2 ^ 32 - 2 ^ 31"
  by (simp add: signed_of_nat signed_take_bit_eq_take_bit_shift take_bit_eq_mod)

lemma append_piece_content:
  assumes "buf_ok b" "readableBytes b < 2 ^ 31"
  shows "append_piece other (toStringPiece b) = append_bytes other (content b)"
proof -
  have "sint (of_nat (readableBytes b) :: 32 word) = int (readableBytes b)"
    using assms(2) by (simp add: sint_of_size)
  moreover have "int (readerIndex b) + int (readableBytes b) \<le> int (length (buf_data b))"
    using assms(1) by (simp add: buf_ok_def readableBytes_def)
  ultimately show ?thesis
    by (simp add: append_piece_def toStringPiece_def StringPiece_mem_def sp_size_def sp_read_def content_def peek_bytes_def)
qed

lemma append_piece_negative:
  assumes "2 ^ 31 \<le> readableBytes b" "readableBytes b < 2 ^ 32"
  shows "append_piece other (toStringPiece b) = Inl UndefinedBehaviour"
proof -
  have "(int (readableBytes b) + 2 ^ 31) mod 2 ^ 32 = int (readableBytes b) + 2 ^ 31 - 2 ^ 32"
    using assms by (subst mod_pos_geq) (simp_all)
  then have "sint (of_nat (readableBytes b) :: 32 word) < 0"
    using assms(2) unfolding sint_of_size by simp
  then show ?thesis by (simp add: append_piece_def toStringPiece_def StringPiece_mem_def sp_size_def sp_read_def)
qed

text \<open>\<open>shrink\<close> keeps the content and leaves a buffer just large enough for it and the reserve (never
  below the initial size), read from the cheap prepend position.\<close>

theorem shrink_keeps_content:
  assumes "buf_ok b" "readableBytes b < 2 ^ 31"
  shows "\<exists>b'. shrink b reserve = Inr b' \<and> buf_ok b' \<and> content b' = content b \<and> readerIndex b' = kCheapPrepend
    \<and> length (buf_data b') = kCheapPrepend + max kInitialSize (readableBytes b + reserve)"
proof -
  let ?n = "readableBytes b + reserve"
  have l: "length (content b) = readableBytes b" using assms(1) by (rule content_length)
  let ?b0 = "\<lparr>buf_data = replicate (kCheapPrepend + max kInitialSize ?n) NUL, readerIndex = kCheapPrepend, writerIndex = kCheapPrepend\<rparr>"
  have new: "Buffer_new kInitialSize = Inr \<lparr>buf_data = replicate (kCheapPrepend + kInitialSize) NUL,
      readerIndex = kCheapPrepend, writerIndex = kCheapPrepend\<rparr>"
    by (simp add: Buffer_new_def Let_def buf_simps)
  have ens: "ensureWritableBytes \<lparr>buf_data = replicate (kCheapPrepend + kInitialSize) NUL,
      readerIndex = kCheapPrepend, writerIndex = kCheapPrepend\<rparr> ?n = Inr ?b0"
  proof (cases "kInitialSize < ?n")
    case True
    then have "max kInitialSize ?n = ?n" by simp
    with True show ?thesis
      by (simp add: ensureWritableBytes_def makeSpace_def vec_resize_def buf_simps [abs_def] replicate_add [symmetric])
  next
    case False
    then show ?thesis by (simp add: ensureWritableBytes_def assert_that_def writableBytes_def max_def)
  qed
  let ?b1 = "\<lparr>buf_data = write_at (buf_data ?b0) kCheapPrepend (content b), readerIndex = kCheapPrepend,
      writerIndex = kCheapPrepend + readableBytes b\<rparr>"
  have app: "append_bytes ?b0 (content b) = Inr ?b1"
    using l by (simp add: append_bytes_def ensureWritableBytes_def hasWritten_def assert_that_def writableBytes_def write_at_def)
  have "shrink b reserve = Inr ?b1"
    by (simp add: shrink_def new ens app [simplified] Buffer_swap_def append_piece_content [OF assms] app)
  then show ?thesis using l
    by (simp add: buf_ok_def content_at [of "\<lparr>buf_data = _, readerIndex = _, writerIndex = _\<rparr>"] write_at_def)
qed

definition crlf_buffer :: Buffer where
  "crlf_buffer = \<lparr>buf_data = replicate 8 NUL @ [CHR ''a'', CHR 0x0D, CHR 0x0A, CHR ''b''], readerIndex = 8, writerIndex = 12\<rparr>"

lemma crlf_buffer_ok: "buf_ok crlf_buffer"
  by (simp add: crlf_buffer_def buf_ok_def kCheapPrepend_def)

theorem findCRLF_first_witness:
  "case findCRLF crlf_buffer of
      Some p \<Rightarrow> \<exists>i b'. p = readerIndex crlf_buffer + i \<and> i + 1 < length (content crlf_buffer)
        \<and> content crlf_buffer ! i = CHR 0x0D \<and> content crlf_buffer ! (i + 1) = CHR 0x0A
        \<and> (\<forall>j < i. \<not> (content crlf_buffer ! j = CHR 0x0D \<and> content crlf_buffer ! (j + 1) = CHR 0x0A))
        \<and> retrieveUntil crlf_buffer (p + 2) = Inr b' \<and> content b' = drop (i + 2) (content crlf_buffer)
    | None \<Rightarrow> \<forall>i. i + 1 < length (content crlf_buffer) \<longrightarrow>
        \<not> (content crlf_buffer ! i = CHR 0x0D \<and> content crlf_buffer ! (i + 1) = CHR 0x0A)"
  by (rule findCRLF_first [OF crlf_buffer_ok])

theorem shrink_keeps_content_witness:
  "\<exists>b'. shrink demo_buffer 5 = Inr b' \<and> buf_ok b' \<and> content b' = content demo_buffer \<and> readerIndex b' = kCheapPrepend
    \<and> length (buf_data b') = kCheapPrepend + max kInitialSize (readableBytes demo_buffer + 5)"
  by (rule shrink_keeps_content [OF demo_buffer_ok(1)]) (simp add: demo_buffer_def readableBytes_def)

end
