(* ===== verification/Tests.thy ===== *)
theory Tests
  imports Programs LogMacros BufferProps
begin

text \<open>
  The programs under \<^verbatim>\<open>tests/\<close>: what each of them does and prints, and that they show what they
  were written to show. \<^verbatim>\<open>test_proto.cpp\<close> only exercises generated code and \<^verbatim>\<open>test_rpc.cpp\<close> has no test.
\<close>

section \<open>test_config.cpp\<close>

text \<open>What is printed; the result of \<open>load\<close> is not looked at.\<close>

definition test_config :: "file_system \<Rightarrow> string \<Rightarrow> 'f float_lib \<Rightarrow> (string list \<times> log_calls) res" where
  "test_config fs err fl =
     bindR (RpcConfig_load fs err (RpcConfig_new_cstr ''../default_conf.ini'' (FileType_code INI_FILE))) (\<lambda>(ok, c, lg).
       let val1 = RpcConfig_get c ''rpc_server_ip''
       in bindR (RpcConfig_get_int True 32 c ''rpc_server_port'') (\<lambda>val2.
       let val3 = RpcConfig_get c ''zookeeper_ip''
       in bindR (RpcConfig_get_int True 32 c ''zookeepr_port'') (\<lambda>val4.
          bindR (RpcConfig_get_int True 32 c ''aaa'') (\<lambda>val5.
          bindR (RpcConfig_get_float fl c ''bbb'') (\<lambda>val6.
       let val7 = RpcConfig_get c ''log_dir''
       in Inr ([''rpc_server_ip:'' @ val1, ''rpc_server_port:'' @ dec_int val2, ''zookeeper_ip:'' @ val3,
            ''rpc_server_port:'' @ dec_int val4, ''aaa:'' @ dec_int val5, ''bbb:'' @ fl_show fl val6,
            ''log_dir:'' @ val7], lg))))))"

lemma dec_2181: "dec 2181 = ''2181''"
  by (simp add: dec.simps char_of_def bit_0)

text \<open>On the shipped file the test prints the file's values, zero for the two keys that are not in it.\<close>

theorem test_config_prints:
  assumes "fs ''../default_conf.ini'' = Some (default_conf_text, True)"
  shows "\<exists>lg. test_config fs err fl = Inr ([''rpc_server_ip:192.168.77.136'', ''rpc_server_port:8000'',
    ''zookeeper_ip:192.168.77.136'', ''rpc_server_port:2181'', ''aaa:0'', ''bbb:'' @ fl_show fl (fl_zero fl),
    ''log_dir:../log/''], lg)"
proof -
  from load_then_get [OF default_conf_file, of fs "''../default_conf.ini''" err] assms obtain c lg where
    c: "RpcConfig_load fs err (RpcConfig_new ''../default_conf.ini'' (FileType_code INI_FILE)) = Inr (True, c, lg)"
    and g: "\<And>k. um_find (rc_configItem c) k = map_option AnyString (map_of (ini_entries default_conf) k)"
    by (auto simp: default_conf_written)
  have "RpcConfig_get_int True 32 c ''rpc_server_port'' = Inr 8000" "RpcConfig_get_int True 32 c ''zookeepr_port'' = Inr 2181"
    using get_int_dec [of c _ 8000] get_int_dec [of c _ 2181]
    by (simp_all add: g default_conf_entries dec_8000 dec_2181)
  moreover have "RpcConfig_get_int True 32 c ''aaa'' = Inr 0" "RpcConfig_get_float fl c ''bbb'' = Inr (fl_zero fl)"
    by (simp_all add: RpcConfig_get_int_def RpcConfig_get_float_def g default_conf_entries)
  moreover have "dec_int 8000 = ''8000''" "dec_int 2181 = ''2181''" "dec_int 0 = ''0''"
    using dec_8000 dec_2181 by (simp_all add: dec_int_def dec.simps char_of_def bit_0)
  moreover have "cstr ''../default_conf.ini'' = ''../default_conf.ini''" by simp
  ultimately show ?thesis
    unfolding test_config_def RpcConfig_new_cstr_def
    by (simp only: c bindR_simps prod.case Let_def get_found [OF g] default_conf_entries) simp
qed

theorem test_config_prints_witness:
  "\<exists>lg. test_config (one_file ''../default_conf.ini'' default_conf_text) ''2''
      \<lparr>fl_zero = (0 :: nat), fl_stof = (\<lambda>_. Inl InvalidArgument), fl_show = dec\<rparr> =
    Inr ([''rpc_server_ip:192.168.77.136'', ''rpc_server_port:8000'',
    ''zookeeper_ip:192.168.77.136'', ''rpc_server_port:2181'', ''aaa:0'',
    ''bbb:'' @ fl_show \<lparr>fl_zero = (0 :: nat), fl_stof = (\<lambda>_. Inl InvalidArgument), fl_show = dec\<rparr>
      (fl_zero \<lparr>fl_zero = (0 :: nat), fl_stof = (\<lambda>_. Inl InvalidArgument), fl_show = dec\<rparr>),
    ''log_dir:../log/''], lg)"
  by (rule test_config_prints) (simp add: one_file_def)

section \<open>test_log.cpp\<close>

definition test_log :: "string \<Rightarrow> string \<Rightarrow> Logger \<Rightarrow> Logger \<times> string list" where
  "test_log tm file l =
     (let (l, o1) = RPC_INFO tm file 16 (''test '' @ dec 1 @ '' '' @ [LF]) l;
          (l, o2) = RPC_INFO tm file 17 (''test '' @ dec 2 @ '' '' @ [LF]) l;
          (l, o3) = RPC_ERR tm file 18 (''test '' @ dec 3 @ '' '' @ [LF]) l;
          (l, o4) = RPC_ERR tm file 19 (''test '' @ dec 4 @ '' '' @ [LF]) l
      in (l, [o1, o2, o3, o4]))"

text \<open>The test leaves four lines in the queue for the writer, in the order they were logged.\<close>

lemma test_log_queues:
  "case test_log tm file l of (l', outs) \<Rightarrow>
     lq_que (lg_logQue l') = lq_que (lg_logQue l) @ outs \<and> length outs = 4 \<and> lg_level l' = LogLevel_code ERROR"
  by (simp add: test_log_def RPC_INFO_def RPC_ERR_def RPC_LOG_def Logger_log_def LogQueue_push_def
      Logger_setLevel_def Let_def)

section \<open>test_zoo.cpp\<close>

text \<open>What is printed, the service afterwards, what went to the logger, and the handles closed at the end.\<close>

definition test_zoo ::
  "file_system \<Rightarrow> string \<Rightarrow> nat \<Rightarrow> (char \<times> string) list \<Rightarrow> 'z zoo_api \<Rightarrow> (string \<Rightarrow> zk_conn) \<Rightarrow> 'z \<Rightarrow>
   (string \<times> 'z \<times> logger_op list \<times> string list) res" where
  "test_zoo fs err argc opts api connect z =
     bindR (KitRpcApplication_Init fs err argc opts KitRpcApplication_new) (\<lambda>(k, ops).
     bindR (ZkClient_start connect k ZkClient_new) (\<lambda>cli.
       let path = ''/TestServiceRpc'';
           (ok, z, lg1) = ZkClient_createNode api path ''test data'' 0 z
       in bindR (ZkClient_getNodeData api path z) (\<lambda>(data2, lg2).
       let (z, lg3) = ZkClient_deleteNode api path z
       in Inr (''data= '' @ data2 @ [LF], z, ops @ log_ops lg1 @ log_ops lg2 @ log_ops lg3, ZkClient_delete cli))))"

text \<open>
  On a healthy service with no nodes under the path the test prints the data that is
  at its path (its own, or what was already there) and leaves nothing there: also a node that it did
  not create is deleted.
\<close>

lemma test_zoo_cleans_up:
  assumes "zk_laws api nodes eph" "\<forall>q. nodes z q \<noteq> None \<longrightarrow> zk_parent q \<noteq> ''/TestServiceRpc''"
    and "\<forall>d. nodes z ''/TestServiceRpc'' = Some d \<longrightarrow> NUL \<notin> set d \<and> length d < 128"
    and "KitRpcApplication_Init fs err argc opts KitRpcApplication_new = Inr (k, ops)"
    and "ZkClient_start connect k ZkClient_new = Inr cli"
  shows "\<exists>z' lg cl. test_zoo fs err argc opts api connect z =
      Inr (''data= '' @ (case nodes z ''/TestServiceRpc'' of None \<Rightarrow> ''test data'' | Some d \<Rightarrow> d) @ [LF], z', lg, cl)
    \<and> nodes z' = (nodes z)(''/TestServiceRpc'' := None)"
proof -
  let ?p = "''/TestServiceRpc''" and ?d = "case nodes z ''/TestServiceRpc'' of None \<Rightarrow> ''test data'' | Some d \<Rightarrow> d"
  have ok: "zk_path_ok ?p" and parent: "zk_parent ?p = []"
    by (simp_all add: zk_path_ok_def zk_components_ok.simps zk_name_def zk_parent_def zk_name_ok_def)
  obtain z1 lg1 where 1: "ZkClient_createNode api ?p ''test data'' 0 z = (True, z1, lg1)"
    and n1: "nodes z1 = (nodes z)(?p \<mapsto> ?d)"
  proof (cases "nodes z ?p")
    case None
    then have "zk_can_create (nodes z) (eph z) ?p" using ok parent by (simp add: zk_can_create_def)
    from zk_createNode_new [OF assms(1) this, of "''test data''" 0] None that show ?thesis by auto
  next
    case (Some d)
    with zk_createNode_there [OF assms(1) ok, of z "''test data''" 0] that [of z "[]"] show ?thesis
      by (simp add: fun_upd_idem)
  qed
  have "NUL \<notin> set ?d" "length ?d < 128" using assms(3) by (auto split: option.split)
  with n1 have 2: "ZkClient_getNodeData api ?p z1 = Inr (?d, [])"
    using getNodeData_healthy [OF assms(1) ok, of z1 ?d] by simp
  have "\<forall>q. nodes z1 q \<noteq> None \<longrightarrow> zk_parent q \<noteq> ?p" using assms(2) parent by (simp add: n1)
  with zk_deleteNode_there [OF assms(1) ok, of z1] obtain z2 where
    3: "ZkClient_deleteNode api ?p z1 = (z2, [])" "nodes z2 = (nodes z1)(?p := None)"
    by (auto simp: n1)
  show ?thesis using 1 2 3 by (simp add: test_zoo_def assms(4,5) n1 Let_def)
qed

section \<open>test_muduo.cpp\<close>

text \<open>
  The echo server: which callbacks it gives its server, what they log and what is sent back. The
  texts of addresses and of the time come from the binary library and are arguments.
\<close>

datatype echo_callback = EchoOnConnection | EchoOnMessage

record EchoServer =
  es_server :: "echo_callback TcpServer"

definition EchoServer_new :: "string \<times> u16 \<Rightarrow> EchoServer" where
  "EchoServer_new listenAddr = \<lparr>es_server = ts_setMessageCallback EchoOnMessage
     (ts_setConnectionCallback EchoOnConnection (TcpServer_new listenAddr ''EchoServer''))\<rparr>"

definition EchoServer_start :: "EchoServer \<Rightarrow> EchoServer" where
  "EchoServer_start e = e\<lparr>es_server := server_called StartServer (es_server e)\<rparr>"

definition EchoServer_onConnection :: "MuduoLevel \<Rightarrow> string \<Rightarrow> string \<Rightarrow> bool \<Rightarrow> log_output" where
  "EchoServer_onConnection logLevel peer local connected =
     LOG_INFO logLevel (''EchoServer - '' @ peer @ '' -> '' @ local @ '' is '' @ (if connected then ''UP'' else ''DOWN''))"

definition EchoServer_onMessage :: "MuduoLevel \<Rightarrow> string \<Rightarrow> Buffer \<Rightarrow> string \<Rightarrow> (string \<times> Buffer \<times> log_output) res" where
  "EchoServer_onMessage logLevel name buf time =
     bindR (retrieveAllAsString buf) (\<lambda>(msg, buf).
       Inr (msg, buf, LOG_INFO logLevel (name @ '' echo '' @ dec (length msg) @ '' bytes, data received at '' @ time)))"

definition test_muduo :: "MuduoLevel \<Rightarrow> string \<Rightarrow> EchoServer \<times> log_output" where
  "test_muduo logLevel pid = (EchoServer_start (EchoServer_new (''0.0.0.0'', 8888)), LOG_INFO logLevel (''pid = '' @ pid))"

text \<open>The messages a connection sends back when bytes arrive in pieces: each piece, unchanged and in order.\<close>

fun echo_all :: "MuduoLevel \<Rightarrow> string \<Rightarrow> string list \<Rightarrow> Buffer \<Rightarrow> string list res" where
  "echo_all logLevel name [] buf = Inr []"
| "echo_all logLevel name (d # ds) buf =
     bindR (append_bytes buf d) (\<lambda>buf.
     bindR (EchoServer_onMessage logLevel name buf []) (\<lambda>(msg, buf, lg).
     bindR (echo_all logLevel name ds buf) (\<lambda>msgs. Inr (msg # msgs))))"

lemma echo_returns_bytes: "buf_ok buf \<Longrightarrow> content buf = [] \<Longrightarrow> echo_all logLevel name ds buf = Inr ds"
proof (induction ds arbitrary: buf)
  case (Cons d ds)
  from append_bytes_ok [OF Cons.prems(1), of d] Cons.prems(2) obtain b1 where
    1: "append_bytes buf d = Inr b1" "buf_ok b1" "content b1 = d" by auto
  from retrieveAllAsString_ok [OF 1(2)] 1(3) obtain b2 where
    2: "retrieveAllAsString b1 = Inr (d, b2)" "buf_ok b2" "content b2 = []" by auto
  from Cons.IH [OF 2(2,3)] 1(1) 2(1) show ?case by (simp add: EchoServer_onMessage_def)
qed simp

end
