(* ===== verification/Connections.thy ===== *)
theory Connections
  imports Registration BufferProps
begin

text \<open>
  The provider's connections: the reads of one connection, and the events of several connections
  in any order on the same provider, through the callbacks \<open>run\<close> has set.
\<close>

section \<open>Reads of a connection\<close>

text \<open>
  One read: the bytes that arrived go into the connection's buffer, and \<open>onMessage\<close> takes all
  of it. The fuel is one pass more than there are bytes.
\<close>

definition on_read ::
  "header_format \<Rightarrow> ('q, 'p) Provide \<Rightarrow> string \<Rightarrow> Buffer \<Rightarrow> (pv_event list \<times> cxx_error option \<times> Buffer) option" where
  "on_read hf p chunk b =
     (case append_bytes b chunk of
        Inl e \<Rightarrow> Some ([], Some e, b)
      | Inr b1 \<Rightarrow>
          (case retrieveAllAsString b1 of
             Inl e \<Rightarrow> Some ([], Some e, b1)
           | Inr (data, b2) \<Rightarrow>
               map_option (\<lambda>(evs, r). (evs, r, b2)) (Provide_onMessage (length data + 1) hf p data)))"

fun on_reads ::
  "header_format \<Rightarrow> ('q, 'p) Provide \<Rightarrow> string list \<Rightarrow> Buffer \<Rightarrow> (pv_event list \<times> cxx_error option) option" where
  "on_reads hf p [] b = Some ([], None)"
| "on_reads hf p (c # cs) b =
     (case on_read hf p c b of
        None \<Rightarrow> None
      | Some (evs, Some e, b') \<Rightarrow> Some (evs, Some e)
      | Some (evs, None, b') \<Rightarrow> map_option (\<lambda>(evs', r). (evs @ evs', r)) (on_reads hf p cs b'))"

text \<open>Each read handled as a message of its own, with nothing carried over.\<close>

fun separate_reads :: "header_format \<Rightarrow> ('q, 'p) Provide \<Rightarrow> string list \<Rightarrow> (pv_event list \<times> cxx_error option) option" where
  "separate_reads hf p [] = Some ([], None)"
| "separate_reads hf p (c # cs) =
     (case Provide_onMessage (length c + 1) hf p c of
        None \<Rightarrow> None
      | Some (evs, Some e) \<Rightarrow> Some (evs, Some e)
      | Some (evs, None) \<Rightarrow> map_option (\<lambda>(evs', r). (evs @ evs', r)) (separate_reads hf p cs))"

lemma on_read_message:
  assumes "buf_ok b" "content b = []"
  shows "\<exists>b'. on_read hf p c b = map_option (\<lambda>(evs, r). (evs, r, b')) (Provide_onMessage (length c + 1) hf p c)
    \<and> buf_ok b' \<and> content b' = []"
proof -
  from append_bytes_ok [OF assms(1), of c] obtain b1 where
    b1: "append_bytes b c = Inr b1" "buf_ok b1" "content b1 = c" using assms(2) by auto
  from retrieveAllAsString_ok [OF b1(2)] b1 show ?thesis by (auto simp: on_read_def)
qed

text \<open>C11. The provider takes message boundaries from reads: over any sequence of reads of a connection, its
  buffer is empty between them and each read is parsed as if it were a message by itself, so a
  request that TCP delivers in two pieces is not put together.\<close>

theorem reads_are_separate_messages:
  assumes "buf_ok b" "content b = []"
  shows "on_reads hf p chunks b = separate_reads hf p chunks"
  using assms
proof (induction chunks arbitrary: b)
  case Nil
  then show ?case by simp
next
  case (Cons c cs)
  from on_read_message [OF Cons.prems, of hf p c] obtain b' where
    r: "on_read hf p c b = map_option (\<lambda>(evs, r). (evs, r, b')) (Provide_onMessage (length c + 1) hf p c)"
    and ok: "buf_ok b'" "content b' = []" by blast
  show ?case using Cons.IH [OF ok]
    by (simp add: r split: option.split prod.split)
qed

theorem reads_are_separate_messages_witness:
  "on_reads proto_format echo_provider
      [take 10 (request_bytes proto_format (echo_header, ''hi'')), drop 10 (request_bytes proto_format (echo_header, ''hi''))]
      empty_buffer
   = separate_reads proto_format echo_provider
      [take 10 (request_bytes proto_format (echo_header, ''hi'')), drop 10 (request_bytes proto_format (echo_header, ''hi''))]"
  by (rule reads_are_separate_messages) (simp_all add: empty_buffer_ok)

section \<open>Several connections\<close>

text \<open>
  What the server calls back for: a connection has come up or gone down, bytes have arrived, what
  was sent has been written. The provider's part of it, by the callback that is set; what a
  server does where none is set is the binary library's and an argument (\<open>dflt\<close>).
\<close>

datatype conn_event = ConnChange string | DataIn string | DataOut string

type_synonym ('q, 'p) default_callback = "conn_event \<Rightarrow> Buffer \<Rightarrow> (pv_event list \<times> cxx_error option \<times> Buffer) option"

definition server_event ::
  "('q, 'p) default_callback \<Rightarrow> header_format \<Rightarrow> ('q, 'p) Provide \<Rightarrow> conn_event \<Rightarrow> Buffer \<Rightarrow>
     (pv_event list \<times> cxx_error option \<times> Buffer) option" where
  "server_event dflt hf p ev b =
     (case ev of
        ConnChange peer \<Rightarrow>
          (if ts_connectionCallback (pv_server p) = Some CbOnConnection then Some (Provide_onConnection peer, None, b) else dflt ev b)
      | DataIn chunk \<Rightarrow>
          (if ts_messageCallback (pv_server p) = Some CbOnMessage then on_read hf p chunk b else dflt ev b)
      | DataOut peer \<Rightarrow>
          (if ts_writeCompleteCallback (pv_server p) = Some CbOnWriteComplete then Some (Provide_onWriteComplete peer, None, b)
           else dflt ev b))"

text \<open>
  The events of all connections, in the order in which their handlers run. The handlers only read
  the provider's tables, so handlers on different threads act as in some such order. An
  exception that leaves a handler ends the process.
\<close>

fun serve_events ::
  "('q, 'p) default_callback \<Rightarrow> header_format \<Rightarrow> ('q, 'p) Provide \<Rightarrow> ('c \<times> conn_event) list \<Rightarrow> ('c \<Rightarrow> Buffer) \<Rightarrow>
     (('c \<times> pv_event) list \<times> ('c \<times> cxx_error) option) option" where
  "serve_events dflt hf p [] bufs = Some ([], None)"
| "serve_events dflt hf p ((c, ev) # rs) bufs =
     (case server_event dflt hf p ev (bufs c) of
        None \<Rightarrow> None
      | Some (evs, Some e, b') \<Rightarrow> Some (map (Pair c) evs, Some (c, e))
      | Some (evs, None, b') \<Rightarrow>
          map_option (\<lambda>(evs', r). (map (Pair c) evs @ evs', r)) (serve_events dflt hf p rs (bufs(c := b'))))"

text \<open>One connection alone.\<close>

fun on_events ::
  "('q, 'p) default_callback \<Rightarrow> header_format \<Rightarrow> ('q, 'p) Provide \<Rightarrow> conn_event list \<Rightarrow> Buffer \<Rightarrow>
     (pv_event list \<times> cxx_error option) option" where
  "on_events dflt hf p [] b = Some ([], None)"
| "on_events dflt hf p (ev # es) b =
     (case server_event dflt hf p ev b of
        None \<Rightarrow> None
      | Some (evs, Some e, b') \<Rightarrow> Some (evs, Some e)
      | Some (evs, None, b') \<Rightarrow> map_option (\<lambda>(evs', r). (evs @ evs', r)) (on_events dflt hf p es b'))"

text \<open>What is one connection's.\<close>

definition part_of :: "'c \<Rightarrow> ('c \<times> 'a) list \<Rightarrow> 'a list" where
  "part_of c xs = map snd (filter (\<lambda>x. fst x = c) xs)"

lemma part_of_simps [simp]:
  "part_of c [] = []"
  "part_of c ((d, x) # xs) = (if d = c then x # part_of c xs else part_of c xs)"
  "part_of c (xs @ ys) = part_of c xs @ part_of c ys"
  "part_of c (map (Pair d) zs) = (if d = c then zs else [])"
  by (simp_all add: part_of_def filter_map comp_def)

lemma part_of_map: "part_of c (map (map_prod id f) xs) = map f (part_of c xs)"
  by (induction xs) auto

lemma part_of_in: "x \<in> set (part_of c xs) \<Longrightarrow> (c, x) \<in> set xs"
  by (auto simp: part_of_def)

lemma serve_split:
  "serve_events dflt hf p rs bufs = Some (evs, None) \<Longrightarrow>
     on_events dflt hf p (part_of c rs) (bufs c) = Some (part_of c evs, None)"
proof (induction rs arbitrary: bufs evs)
  case (Cons r rs)
  obtain d ev where r: "r = (d, ev)" by fastforce
  from Cons.prems obtain e1 b' evs' where
    1: "server_event dflt hf p ev (bufs d) = Some (e1, None, b')" "serve_events dflt hf p rs (bufs(d := b')) = Some (evs', None)"
    and e: "evs = map (Pair d) e1 @ evs'"
    by (auto simp: r split: option.splits prod.splits)
  from Cons.IH [OF 1(2)] 1(1) show ?case by (auto simp: r e)
qed simp

lemma serve_join:
  "(\<And>c. \<exists>evs. on_events dflt hf p (part_of c rs) (bufs c) = Some (evs, None)) \<Longrightarrow>
     \<exists>evs. serve_events dflt hf p rs bufs = Some (evs, None)"
proof (induction rs arbitrary: bufs)
  case (Cons r rs)
  obtain d ev where r: "r = (d, ev)" by fastforce
  from Cons.prems [of d] obtain e1 b' evs' where
    1: "server_event dflt hf p ev (bufs d) = Some (e1, None, b')" "on_events dflt hf p (part_of d rs) b' = Some (evs', None)"
    by (auto simp: r split: option.splits prod.splits)
  have "\<exists>evs. serve_events dflt hf p rs (bufs(d := b')) = Some (evs, None)"
  proof (rule Cons.IH)
    fix c show "\<exists>evs. on_events dflt hf p (part_of c rs) ((bufs(d := b')) c) = Some (evs, None)"
      using Cons.prems [of c] 1(2) by (cases "c = d") (simp_all add: r)
  qed
  with 1(1) show ?case by (auto simp: r)
qed simp

text \<open>Connections do not interfere: in whatever order the events of all connections are handled, the
  provider gets through them exactly when it gets through those of each connection alone, and what
  a connection then sees is what it would see alone.\<close>

lemma connections_independent:
  "(\<exists>evs. serve_events dflt hf p rs bufs = Some (evs, None) \<and> (\<forall>c. part_of c evs = out c)) \<longleftrightarrow>
     (\<forall>c. on_events dflt hf p (part_of c rs) (bufs c) = Some (out c, None))"
proof
  assume "\<exists>evs. serve_events dflt hf p rs bufs = Some (evs, None) \<and> (\<forall>c. part_of c evs = out c)"
  then show "\<forall>c. on_events dflt hf p (part_of c rs) (bufs c) = Some (out c, None)" using serve_split by fastforce
next
  assume a: "\<forall>c. on_events dflt hf p (part_of c rs) (bufs c) = Some (out c, None)"
  then have "\<exists>evs. serve_events dflt hf p rs bufs = Some (evs, None)" by (intro serve_join) blast
  then obtain evs where "serve_events dflt hf p rs bufs = Some (evs, None)" ..
  with a serve_split [OF this] show "\<exists>evs. serve_events dflt hf p rs bufs = Some (evs, None) \<and> (\<forall>c. part_of c evs = out c)"
    by fastforce
qed

text \<open>What the clients do, and what a provider is to make of it: a line in the log for a change of a
  connection and for an answer that has been written, and the handling of complete requests.\<close>

datatype client_act = ChangesTo string | Requests "(RpcHeader \<times> string) list" | HasRead string

fun act_event :: "header_format \<Rightarrow> client_act \<Rightarrow> conn_event" where
  "act_event hf (ChangesTo peer) = ConnChange peer"
| "act_event hf (Requests rs) = DataIn (batch hf rs)"
| "act_event hf (HasRead peer) = DataOut peer"

fun act_ok :: "header_format \<Rightarrow> (RpcHeader \<Rightarrow> bool) \<Rightarrow> client_act \<Rightarrow> bool" where
  "act_ok hf good (Requests rs) \<longleftrightarrow> list_all (request_ok good) rs \<and> length (batch hf rs) < 2 ^ 32"
| "act_ok hf good a \<longleftrightarrow> True"

fun reaction :: "('q, 'p) Provide \<Rightarrow> client_act \<Rightarrow> pv_event list" where
  "reaction p (ChangesTo peer) = Provide_onConnection peer"
| "reaction p (Requests rs) = handled p rs"
| "reaction p (HasRead peer) = Provide_onWriteComplete peer"

lemma batch_longer: "length rs \<le> length (batch hf rs)"
proof (induction rs)
  case (Cons r rs)
  then show ?case by (cases r) (simp add: request_bytes_def frame_def)
qed simp

lemma handled_running [simp]: "handled (running cores p) rs = handled p rs"
  by (simp add: handled_def Provide_handleRpcRequest_def)

lemma running_event:
  assumes "codec_ok hf good" "buf_ok b" "content b = []" "act_ok hf good a"
  shows "\<exists>b'. server_event dflt hf (running cores p) (act_event hf a) b = Some (reaction p a, None, b')
    \<and> buf_ok b' \<and> content b' = []"
proof (cases a)
  case (Requests rs)
  have "length rs < length (batch hf rs) + 1" using batch_longer [of rs hf] by simp
  then have "Provide_onMessage (length (batch hf rs) + 1) hf (running cores p) (batch hf rs) = Some (handled p rs, None)"
    using assms(4) Requests onMessage_batch_all [OF assms(1), of rs _ "running cores p"] by (simp add: list_all_iff)
  with on_read_message [OF assms(2,3), of hf "running cores p" "batch hf rs"] show ?thesis
    by (auto simp: server_event_def running_callbacks Requests)
qed (use assms(2,3) in \<open>auto simp: server_event_def running_callbacks\<close>)

lemma running_events:
  assumes "codec_ok hf good" "buf_ok b" "content b = []" "list_all (act_ok hf good) acts"
  shows "on_events dflt hf (running cores p) (map (act_event hf) acts) b = Some (concat (map (reaction p) acts), None)"
  using assms(2-4)
proof (induction acts arbitrary: b)
  case (Cons a acts)
  from running_event [OF assms(1) Cons.prems(1,2), of a dflt cores p] Cons.prems(3) obtain b' where
    "server_event dflt hf (running cores p) (act_event hf a) b = Some (reaction p a, None, b')"
    and ok: "buf_ok b'" "content b' = []" by auto
  with Cons.IH [OF ok] Cons.prems(3) show ?case by simp
qed simp

text \<open>C25. A provider that \<open>run\<close> has brought into its loop serves all its connections: in whatever order
  connections change, complete requests arrive and answers are written, all of it is handled without an
  error, and what happens on a connection is the reaction to that connection's own events, all
  of them and in their order.\<close>

theorem connections_answered:
  assumes "Provide_run cores api connect k order p z = Inr (p', z', lg)"
    and "codec_ok hf good" "\<forall>c. buf_ok (bufs c) \<and> content (bufs c) = []" "list_all (act_ok hf good \<circ> snd) acts"
  shows "\<exists>evs. serve_events dflt hf p' (map (map_prod id (act_event hf)) acts) bufs = Some (evs, None)
    \<and> (\<forall>c. part_of c evs = concat (map (reaction p) (part_of c acts)))"
proof (subst connections_independent, rule allI)
  fix c
  have p': "p' = running cores p"
    using assms(1) by (auto simp: Provide_run_def running_def Let_def split: prod.splits)
  have "list_all (act_ok hf good) (part_of c acts)"
    using assms(4) part_of_in [of _ c acts] by (fastforce simp: list_all_iff)
  then show "on_events dflt hf p' (part_of c (map (map_prod id (act_event hf)) acts)) (bufs c) =
      Some (concat (map (reaction p) (part_of c acts)), None)"
    using running_events [OF assms(2), of "bufs c"] assms(3) by (simp add: part_of_map p')
qed

definition demo_acts :: "(nat \<times> client_act) list" where
  "demo_acts = [(1, ChangesTo ''peer1''), (2, ChangesTo ''peer2''), (1, Requests [(echo_header, ''hi'')]),
     (2, Requests [(echo_header, ''yo'')]), (2, HasRead ''peer2''), (1, HasRead ''peer1'')]"

theorem connections_answered_witness:
  "\<exists>evs. serve_events (\<lambda>_ _. None) proto_format (running 4 echo_provider) (map (map_prod id (act_event proto_format)) demo_acts)
      (\<lambda>_. empty_buffer) = Some (evs, None)
    \<and> (\<forall>c. part_of c evs = concat (map (reaction echo_provider) (part_of c demo_acts)))"
proof -
  have "Provide_run 4 mem_zoo (\<lambda>_. Connected) demo_app [] echo_provider [] = Inr (running 4 echo_provider, [], [])"
    by (simp add: Provide_run_def running_def demo_get Let_def)
  then show ?thesis
    by (rule connections_answered [OF _ proto_codec_ok]) (simp_all add: demo_acts_def empty_buffer_ok echo_length echo_ok)
qed

text \<open>What a read of one to three bytes does to a connection whose buffer is empty.\<close>

lemma on_read_short:
  assumes "codec_ok hf good" "buf_ok b" "content b = []" "0 < length tail" "length tail < 4"
  shows "\<exists>b'. on_read hf p tail b = Some ([], Some OutOfRange, b')"
proof -
  have "Provide_onMessage (length tail + 1) hf p (batch hf [] @ tail) = Some (handled p [], Some OutOfRange)"
    using onMessage_batch_short [OF assms(1), where rs = "[]" and tail = tail and p = p] assms(4,5) by simp
  with on_read_message [OF assms(2,3), of hf p tail] show ?thesis by (auto simp: batch_simps handled_def)
qed

lemma server_event_buffer:
  assumes "serving p" "ts_connectionCallback (pv_server p) = Some CbOnConnection"
    and "ts_writeCompleteCallback (pv_server p) = Some CbOnWriteComplete" "buf_ok b" "content b = []"
    and "server_event dflt hf p ev b = Some (evs, r, b')"
  shows "buf_ok b' \<and> content b' = []"
proof (cases ev)
  case (DataIn chunk)
  with assms on_read_message [OF assms(4,5), of hf p chunk] show ?thesis
    by (auto simp: server_event_def serving_def dest!: sym [of "Some _"])
qed (use assms in \<open>auto simp: server_event_def\<close>)

lemma serve_append:
  assumes "\<forall>c. buf_ok (bufs c) \<and> content (bufs c) = []" "serve_events dflt hf (running cores p) rs bufs = Some (evs, None)"
  shows "\<exists>bufs'. (\<forall>c. buf_ok (bufs' c) \<and> content (bufs' c) = [])
    \<and> serve_events dflt hf (running cores p) (rs @ rs') bufs =
        map_option (\<lambda>(evs', r). (evs @ evs', r)) (serve_events dflt hf (running cores p) rs' bufs')"
  using assms
proof (induction rs arbitrary: bufs evs)
  case Nil
  then show ?case by (intro exI [of _ bufs]) (auto simp: option.map_ident split_def)
next
  case (Cons r rs)
  obtain d ev where r: "r = (d, ev)" by fastforce
  from Cons.prems(2) obtain e1 b' evs' where
    1: "server_event dflt hf (running cores p) ev (bufs d) = Some (e1, None, b')"
    "serve_events dflt hf (running cores p) rs (bufs(d := b')) = Some (evs', None)"
    and e: "evs = map (Pair d) e1 @ evs'"
    by (auto simp: r split: option.splits prod.splits)
  have "\<forall>c. buf_ok ((bufs(d := b')) c) \<and> content ((bufs(d := b')) c) = []"
    using Cons.prems(1) server_event_buffer [OF running_serves running_callbacks(1,3) _ _ 1(1)] by simp
  from Cons.IH [OF this 1(2)] obtain bufs' where
    "\<forall>c. buf_ok (bufs' c) \<and> content (bufs' c) = []"
    "serve_events dflt hf (running cores p) (rs @ rs') (bufs(d := b')) =
       map_option (\<lambda>(e, r). (evs' @ e, r)) (serve_events dflt hf (running cores p) rs' bufs')"
    by blast
  with 1(1) show ?case
    by (intro exI [of _ bufs']) (simp add: r e option.map_comp comp_def split_def)
qed

text \<open>C27. One connection can end the provider for all: after any events that were handled, a read of one to
  three bytes on any connection is the last thing the provider does, whatever the other
  connections send next.\<close>

theorem short_read_ends_provider:
  assumes "codec_ok hf good" "\<forall>c. buf_ok (bufs c) \<and> content (bufs c) = []"
    and "serve_events dflt hf (running cores p) rs bufs = Some (evs, None)" "0 < length tail" "length tail < 4"
  shows "serve_events dflt hf (running cores p) (rs @ (c, DataIn tail) # rest) bufs = Some (evs, Some (c, OutOfRange))"
proof -
  from serve_append [OF assms(2,3), of "(c, DataIn tail) # rest"] obtain bufs' where
    b: "\<forall>c. buf_ok (bufs' c) \<and> content (bufs' c) = []"
    and s: "serve_events dflt hf (running cores p) (rs @ (c, DataIn tail) # rest) bufs =
      map_option (\<lambda>(evs', r). (evs @ evs', r)) (serve_events dflt hf (running cores p) ((c, DataIn tail) # rest) bufs')" by blast
  from on_read_short [OF assms(1) _ _ assms(4,5), of "bufs' c" "running cores p"] b
  obtain b' where "on_read hf (running cores p) tail (bufs' c) = Some ([], Some OutOfRange, b')" by blast
  with s show ?thesis by (simp add: server_event_def running_callbacks)
qed

theorem short_read_ends_provider_witness:
  "serve_events (\<lambda>_ _. None) proto_format (running 4 echo_provider)
     [(1 :: nat, DataIn ''x''), (2, DataIn (request_bytes proto_format (echo_header, ''hi'')))]
     (\<lambda>_. empty_buffer) = Some ([], Some (1, OutOfRange))"
  using short_read_ends_provider [OF proto_codec_ok, of "\<lambda>_. empty_buffer" "\<lambda>_ _. None" 4 echo_provider "[]" "[]" "''x''" "1 :: nat"
      "[(2, DataIn (request_bytes proto_format (echo_header, ''hi'')))]"] empty_buffer_ok by simp

end
