(* ===== verification/Traffic.thy ===== *)
theory Traffic
  imports EndToEnd Connections
begin

text \<open>
  Several calls at the same time: every caller has its own event loop and its own connection to
  the provider, and the callbacks of all of them and of the provider run in any order. A step
  relation says what can happen next; the callbacks are those of \<open>ClientChannel\<close> and \<open>Connections\<close>. What TCP
  does is part of the steps: bytes arrive in order, in one read or in several, a provider's shutdown is seen
  after the last byte, and a connection may be lost.
\<close>

section \<open>Calls and their connections\<close>

text \<open>What a stub passes to \<open>CallMethod\<close>.\<close>

record 'p rpc_call =
  ca_service :: string
  ca_method :: MethodDescriptor
  ca_args :: string
  ca_parse :: "string \<Rightarrow> bool \<times> 'p"
  ca_controller :: "KitRpcController option"
  ca_response :: 'p

definition ca_header :: "'p rpc_call \<Rightarrow> RpcHeader" where
  "ca_header ca = call_header (ca_service ca) (ca_method ca) (ca_args ca)"

definition ca_frame :: "header_format \<Rightarrow> 'p rpc_call \<Rightarrow> string" where
  "ca_frame hf ca = request_bytes hf (ca_header ca, ca_args ca)"

text \<open>A connection is stalled when the provider's thread that serves it is in a handler that does not return.\<close>

datatype link = NoLink | Linked | Stalled | LinkDown

text \<open>
  A call in its event loop, with its connection seen from both sides: the call's state (or the fault that ended its
  process), the bytes on their way to the provider and back, the provider's input buffer, and whether the
  provider has shut its side down.
\<close>

record 'p exchange =
  ex_call :: "'p call_state res"
  ex_link :: link
  ex_up :: string
  ex_down :: string
  ex_buffer :: Buffer
  ex_fin :: bool

definition ex_start :: "'p rpc_call \<Rightarrow> Buffer \<Rightarrow> 'p exchange" where
  "ex_start ca b = \<lparr>ex_call = Inr (call_start (ca_controller ca) (ca_response ca)), ex_link = NoLink,
     ex_up = [], ex_down = [], ex_buffer = b, ex_fin = False\<rparr>"

definition in_loop :: "'p exchange \<Rightarrow> 'p call_state \<Rightarrow> bool" where
  "in_loop ex st \<longleftrightarrow> ex_link ex \<in> {Linked, Stalled} \<and> ex_call ex = Inr st \<and> \<not> cs_quit st"

text \<open>The call has returned, or its process has ended.\<close>

definition call_ended :: "'p exchange \<Rightarrow> bool" where
  "call_ended ex = (case ex_call ex of Inl e \<Rightarrow> True | Inr st \<Rightarrow> cs_quit st)"

text \<open>What the provider's handlers do to the connection: nothing is sent after its shutdown.\<close>

fun put_out :: "pv_event list \<Rightarrow> 'p exchange \<Rightarrow> 'p exchange" where
  "put_out [] ex = ex"
| "put_out (PvSend s # es) ex = put_out es (if ex_fin ex then ex else ex\<lparr>ex_down := ex_down ex @ s\<rparr>)"
| "put_out (PvShutdown # es) ex = put_out es (ex\<lparr>ex_fin := True\<rparr>)"
| "put_out (PvLog lv m # es) ex = put_out es ex"
| "put_out (PvOut m # es) ex = put_out es ex"

section \<open>Steps\<close>

text \<open>
  The steps of one call, with whether the provider's process is up. \<open>frag\<close> allows reads of a part of what is on its way,
  \<open>lossy\<close> allows connections to be lost; they are also lost when the provider's process has ended. The relation is the
  network between the two sides; what the sides do in a step is \<open>on_connection\<close>, \<open>on_message\<close> and \<open>server_event\<close>. A
  handler that does not return is a step too: the connection stalls after any number of the passes of \<open>onMessage\<close>, and nothing more is read
  from it; what has been sent still reaches the client.
\<close>

inductive ex_step ::
  "bool \<Rightarrow> bool \<Rightarrow> ('q, 'r) default_callback \<Rightarrow> header_format \<Rightarrow> ('q, 'r) Provide \<Rightarrow> 'p rpc_call \<Rightarrow>
     bool \<times> 'p exchange \<Rightarrow> bool \<times> 'p exchange \<Rightarrow> bool"
  for frag lossy dflt hf p ca where
  ex_connect: "ex_link ex = NoLink \<Longrightarrow> serving p \<Longrightarrow> ex_call ex = Inr st \<Longrightarrow>
    on_connection (ca_frame hf ca) (of_nat (length (ca_frame hf ca))) True st = r \<Longrightarrow>
    bytes = (case r of Inl e \<Rightarrow> [] | Inr st' \<Rightarrow> concat (drop (length (cs_sent st)) (cs_sent st'))) \<Longrightarrow>
    ex_step frag lossy dflt hf p ca (True, ex) (True, ex\<lparr>ex_call := r, ex_link := Linked, ex_up := bytes\<rparr>)"
| ex_read: "ex_link ex = Linked \<Longrightarrow> ex_up ex = d @ up \<Longrightarrow> d \<noteq> [] \<Longrightarrow> frag \<or> up = [] \<Longrightarrow>
    server_event dflt hf p (DataIn d) (ex_buffer ex) = Some (evs, err, b) \<Longrightarrow>
    ex_step frag lossy dflt hf p ca (True, ex) (err = None, put_out evs (ex\<lparr>ex_up := up, ex_buffer := b\<rparr>))"
| ex_hang: "ex_link ex = Linked \<Longrightarrow> ex_up ex = d @ up \<Longrightarrow> d \<noteq> [] \<Longrightarrow> frag \<or> up = [] \<Longrightarrow>
    server_event dflt hf p (DataIn d) (ex_buffer ex) = None \<Longrightarrow>
    ex_step frag lossy dflt hf p ca (True, ex) (True, put_out (events_after hf p d n 0) (ex\<lparr>ex_link := Stalled, ex_up := up\<rparr>))"
| ex_receive: "in_loop ex st \<Longrightarrow> ex_down ex = d @ down \<Longrightarrow> d \<noteq> [] \<Longrightarrow> frag \<or> down = [] \<Longrightarrow>
    ex_step frag lossy dflt hf p ca (up, ex) (up, ex\<lparr>ex_call := on_message (ca_parse ca) d st, ex_down := down\<rparr>)"
| ex_close: "in_loop ex st \<Longrightarrow> ex_fin ex \<Longrightarrow> ex_down ex = [] \<Longrightarrow>
    r = on_connection (ca_frame hf ca) (of_nat (length (ca_frame hf ca))) False st \<Longrightarrow>
    ex_step frag lossy dflt hf p ca (up, ex) (up, ex\<lparr>ex_call := r, ex_link := LinkDown\<rparr>)"
| ex_lost: "in_loop ex st \<Longrightarrow> lossy \<or> \<not> up \<Longrightarrow>
    r = on_connection (ca_frame hf ca) (of_nat (length (ca_frame hf ca))) False st \<Longrightarrow>
    ex_step frag lossy dflt hf p ca (up, ex) (up, ex\<lparr>ex_call := r, ex_link := LinkDown\<rparr>)"

inductive_cases ex_stepE: "ex_step frag lossy dflt hf p ca (up, ex) (up', ex')"

lemmas ex_step_cases = ex_stepE [consumes 1, case_names connect read hang receive close lost]

text \<open>
  All calls together. The provider's threads serve several connections each (\<^verbatim>\<open>setThreadNum\<close>; which ones is up
  to muduo), so any other connection may stall with one that has.
\<close>

record ('c, 'p) traffic =
  tr_up :: bool
  tr_ex :: "'c \<Rightarrow> 'p exchange"

inductive traffic_step ::
  "bool \<Rightarrow> bool \<Rightarrow> ('q, 'r) default_callback \<Rightarrow> header_format \<Rightarrow> ('q, 'r) Provide \<Rightarrow> ('c \<Rightarrow> 'p rpc_call) \<Rightarrow>
     ('c, 'p) traffic \<Rightarrow> ('c, 'p) traffic \<Rightarrow> bool"
  for frag lossy dflt hf p calls where
  one_call: "ex_step frag lossy dflt hf p (calls c) (tr_up s, tr_ex s c) (up, ex) \<Longrightarrow>
    traffic_step frag lossy dflt hf p calls s (s\<lparr>tr_up := up, tr_ex := (tr_ex s)(c := ex)\<rparr>)"
| same_thread: "ex_link (tr_ex s d) = Stalled \<Longrightarrow> ex_link (tr_ex s c) = Linked \<Longrightarrow>
    traffic_step frag lossy dflt hf p calls s (s\<lparr>tr_ex := (tr_ex s)(c := (tr_ex s c)\<lparr>ex_link := Stalled\<rparr>)\<rparr>)"

inductive_cases traffic_stepE: "traffic_step frag lossy dflt hf p calls s t"

lemmas traffic_step_cases = traffic_stepE [consumes 1, case_names call thread]

definition traffic_start :: "('c \<Rightarrow> 'p rpc_call) \<Rightarrow> ('c, 'p) traffic \<Rightarrow> bool" where
  "traffic_start calls s \<longleftrightarrow> tr_up s
     \<and> (\<forall>c. \<exists>b. Buffer_new kInitialSize = Inr b \<and> tr_ex s c = ex_start (calls c) b)"

inductive traffic_reachable ::
  "bool \<Rightarrow> bool \<Rightarrow> ('q, 'r) default_callback \<Rightarrow> header_format \<Rightarrow> ('q, 'r) Provide \<Rightarrow> ('c \<Rightarrow> 'p rpc_call) \<Rightarrow>
     ('c, 'p) traffic \<Rightarrow> bool"
  for frag lossy dflt hf p calls where
  tr_start: "traffic_start calls s \<Longrightarrow> traffic_reachable frag lossy dflt hf p calls s"
| tr_step: "traffic_reachable frag lossy dflt hf p calls s \<Longrightarrow> traffic_step frag lossy dflt hf p calls s t \<Longrightarrow>
    traffic_reachable frag lossy dflt hf p calls t"

section \<open>Runs are finite\<close>

fun link_rank :: "link \<Rightarrow> nat" where
  "link_rank NoLink = 3"
| "link_rank Linked = 2"
| "link_rank Stalled = 1"
| "link_rank LinkDown = 0"

lemma put_out_keeps [simp]:
  "ex_call (put_out evs ex) = ex_call ex" "ex_link (put_out evs ex) = ex_link ex"
  "ex_up (put_out evs ex) = ex_up ex" "ex_buffer (put_out evs ex) = ex_buffer ex"
  by (induction evs ex rule: put_out.induct) auto

lemma ex_step_measure:
  "ex_step frag lossy dflt hf p ca (up, ex) (up', ex') \<Longrightarrow>
     link_rank (ex_link ex') < link_rank (ex_link ex)
     \<or> ex_link ex' = ex_link ex \<and> length (ex_up ex') < length (ex_up ex)
     \<or> ex_link ex' = ex_link ex \<and> ex_up ex' = ex_up ex \<and> length (ex_down ex') < length (ex_down ex)"
  by (erule ex_stepE) (auto simp: in_loop_def)

lemma sum_update:
  fixes g :: "'a \<Rightarrow> nat" and f :: "'c :: finite \<Rightarrow> 'a"
  shows "(\<Sum>c \<in> UNIV. g ((f(c0 := x)) c)) + g (f c0) = (\<Sum>c \<in> UNIV. g (f c)) + g x"
proof -
  have "(\<Sum>c \<in> UNIV - {c0}. g ((f(c0 := x)) c)) = (\<Sum>c \<in> UNIV - {c0}. g (f c))" by (rule sum.cong) auto
  with sum.remove [of UNIV c0 "\<lambda>c. g ((f(c0 := x)) c)"] sum.remove [of UNIV c0 "\<lambda>c. g (f c)"] show ?thesis
    by simp
qed

definition traffic_measure :: "('c :: finite, 'p) traffic \<Rightarrow> nat \<times> nat \<times> nat" where
  "traffic_measure s = (\<Sum>c \<in> UNIV. link_rank (ex_link (tr_ex s c)), \<Sum>c \<in> UNIV. length (ex_up (tr_ex s c)),
     \<Sum>c \<in> UNIV. length (ex_down (tr_ex s c)))"

lemma traffic_step_measure:
  assumes "traffic_step frag lossy dflt hf p calls s t"
  shows "(traffic_measure t, traffic_measure s) \<in> less_than <*lex*> less_than <*lex*> less_than"
  using assms
proof (cases rule: traffic_step_cases)
  case (call c up ex)
  let ?f = "tr_ex s" and ?rank = "\<lambda>e. link_rank (ex_link e)" and ?up = "\<lambda>e. length (ex_up e)" and ?down = "\<lambda>e. length (ex_down e)"
  from ex_step_measure [OF call(2)] show ?thesis
    using sum_update [of ?rank ?f c ex] sum_update [of ?up ?f c ex] sum_update [of ?down ?f c ex]
    by (auto simp: traffic_measure_def call(1) simp del: fun_upd_apply)
next
  case (thread d c)
  then show ?thesis
    using sum_update [of "\<lambda>e. link_rank (ex_link e)" "tr_ex s" c "(tr_ex s c)\<lparr>ex_link := Stalled\<rparr>"]
    by (auto simp: traffic_measure_def simp del: fun_upd_apply)
qed

lemma traffic_wf: "wf {(t, s :: ('c :: finite, 'p) traffic). traffic_step frag lossy dflt hf p calls s t}"
proof (rule wf_subset)
  show "wf (inv_image (less_than <*lex*> less_than <*lex*> less_than) (traffic_measure :: ('c, 'p) traffic \<Rightarrow> _))"
    by (intro wf_inv_image wf_lex_prod wf_less_than)
qed (auto simp: in_inv_image dest: traffic_step_measure)

text \<open>So from every state some run comes to its end.\<close>

lemma traffic_ends:
  fixes s :: "('c :: finite, 'p) traffic"
  assumes "traffic_reachable frag lossy dflt hf p calls s"
  shows "\<exists>t. traffic_reachable frag lossy dflt hf p calls t \<and> (\<forall>u. \<not> traffic_step frag lossy dflt hf p calls t u)"
  using assms
proof (induction s rule: wf_induct_rule [OF traffic_wf [of frag lossy dflt hf p calls]])
  case (1 s)
  then show ?case
    by (cases "\<exists>u. traffic_step frag lossy dflt hf p calls s u") (auto intro: tr_step)
qed

lemma traffic_has_start: "\<exists>s. traffic_start calls s"
proof -
  obtain b where "Buffer_new kInitialSize = Inr b" using new_ok by blast
  then have "traffic_start calls \<lparr>tr_up = True, tr_ex = \<lambda>c. ex_start (calls c) b\<rparr>" by (simp add: traffic_start_def)
  then show ?thesis ..
qed

lemma traffic_has_end:
  fixes calls :: "'c :: finite \<Rightarrow> 'p rpc_call"
  shows "\<exists>s. traffic_reachable frag lossy dflt hf p calls s \<and> (\<nexists>t. traffic_step frag lossy dflt hf p calls s t)"
proof -
  obtain s where "traffic_start calls s" using traffic_has_start by blast
  from traffic_ends [OF tr_start [OF this], of frag lossy dflt hf p] show ?thesis by blast
qed

section \<open>Whole reads\<close>

text \<open>What the provider puts on the connection of a complete call, and the states a call goes through.\<close>

definition answer_bytes :: "string option option \<Rightarrow> string" where
  "answer_bytes a = (case a of Some (Some b) \<Rightarrow> b | _ \<Rightarrow> [])"

definition ca_completed :: "('q, 'r) Provide \<Rightarrow> 'p rpc_call \<Rightarrow> string option option" where
  "ca_completed p ca = completed p (ca_header ca) (ca_args ca)"

definition call_sent :: "header_format \<Rightarrow> 'p rpc_call \<Rightarrow> 'p call_state" where
  "call_sent hf ca = call_start (ca_controller ca) (ca_response ca)\<lparr>cs_sent := [ca_frame hf ca]\<rparr>"

definition call_received :: "header_format \<Rightarrow> ('q, 'r) Provide \<Rightarrow> 'p rpc_call \<Rightarrow> 'p call_state res" where
  "call_received hf p ca =
     (let b = answer_bytes (ca_completed p ca)
      in if b = [] then Inr (call_sent hf ca) else on_message (ca_parse ca) b (call_sent hf ca))"

definition call_down :: "'p call_state \<Rightarrow> 'p call_state res" where
  "call_down st = Inr (st\<lparr>cs_destroyed := True, cs_quit := True\<rparr>)"

inductive ex_inv :: "header_format \<Rightarrow> ('q, 'r) Provide \<Rightarrow> 'p rpc_call \<Rightarrow> 'p exchange \<Rightarrow> bool"
  for hf p ca where
  inv_new: "buf_ok b \<Longrightarrow> content b = [] \<Longrightarrow> ex_inv hf p ca (ex_start ca b)"
| inv_sent: "buf_ok b \<Longrightarrow> content b = [] \<Longrightarrow>
    ex_inv hf p ca \<lparr>ex_call = Inr (call_sent hf ca), ex_link = Linked, ex_up = ca_frame hf ca, ex_down = [],
      ex_buffer = b, ex_fin = False\<rparr>"
| inv_answered: "buf_ok b \<Longrightarrow> content b = [] \<Longrightarrow>
    ex_inv hf p ca \<lparr>ex_call = Inr (call_sent hf ca), ex_link = Linked, ex_up = [],
      ex_down = answer_bytes (ca_completed p ca), ex_buffer = b, ex_fin = (ca_completed p ca \<noteq> None)\<rparr>"
| inv_received: "buf_ok b \<Longrightarrow> content b = [] \<Longrightarrow> answer_bytes (ca_completed p ca) \<noteq> [] \<Longrightarrow>
    ex_inv hf p ca \<lparr>ex_call = call_received hf p ca, ex_link = Linked, ex_up = [], ex_down = [],
      ex_buffer = b, ex_fin = (ca_completed p ca \<noteq> None)\<rparr>"
| inv_down: "buf_ok b \<Longrightarrow> content b = [] \<Longrightarrow> ca_completed p ca \<noteq> None \<Longrightarrow>
    ex_inv hf p ca \<lparr>ex_call = bindR (call_received hf p ca) call_down, ex_link = LinkDown, ex_up = [], ex_down = [],
      ex_buffer = b, ex_fin = True\<rparr>"

inductive_cases ex_invE: "ex_inv hf p ca ex"

lemma call_sent_sel [simp]:
  "cs_sent (call_sent hf ca) = [ca_frame hf ca]" "cs_response (call_sent hf ca) = ca_response ca"
  "cs_controller (call_sent hf ca) = ca_controller ca" "\<not> cs_quit (call_sent hf ca)"
  by (simp_all add: call_sent_def call_start_def)

lemma call_start_sel [simp]:
  "cs_sent (call_start ctrl resp) = []" "\<not> cs_quit (call_start ctrl resp)"
  by (simp_all add: call_start_def)

lemma put_out_handled:
  "ex_down ex = [] \<Longrightarrow> \<not> ex_fin ex \<Longrightarrow> put_out (Provide_handleRpcRequest p (ca_header ca) (ca_args ca)) ex =
     ex\<lparr>ex_down := answer_bytes (ca_completed p ca), ex_fin := (ca_completed p ca \<noteq> None)\<rparr>"
  by (simp add: Provide_handleRpcRequest_def completed_def ca_completed_def answer_bytes_def Provide_sendRpcResponse_def Let_def
      split: option.split prod.split)

text \<open>The circumstances of a call: its frame fits, and the provider it reaches is serving.\<close>

definition ca_good :: "header_format \<Rightarrow> (RpcHeader \<Rightarrow> bool) \<Rightarrow> 'p rpc_call \<Rightarrow> bool" where
  "ca_good hf good ca \<longleftrightarrow> good (ca_header ca) \<and> length (ca_frame hf ca) < 2 ^ 31"

lemma frame_not_nil: "ca_frame hf ca \<noteq> []"
proof -
  have "0 < length (ca_frame hf ca)" by (simp add: ca_frame_def request_bytes_def frame_def)
  then show ?thesis by simp
qed

lemma connect_sends:
  assumes "ca_good hf good ca"
  shows "on_connection (ca_frame hf ca) (of_nat (length (ca_frame hf ca))) True (call_start (ca_controller ca) (ca_response ca))
    = Inr (call_sent hf ca)"
proof -
  have n: "length (ca_frame hf ca) < 2 ^ 31" using assms by (simp add: ca_good_def)
  then have "unat (of_nat (length (ca_frame hf ca)) :: u32) = length (ca_frame hf ca)" by (intro unat_of_nat_u32) simp
  then show ?thesis using n by (simp add: on_connection_def call_sent_def call_start_def)
qed

lemma connection_down: "on_connection bytes n False st = call_down st"
  by (simp add: on_connection_def call_down_def)

lemma read_frame:
  assumes "codec_ok hf good" "ca_good hf good ca" "serving p" "buf_ok b" "content b = []"
  shows "\<exists>b'. server_event dflt hf p (DataIn (ca_frame hf ca)) b =
      Some (Provide_handleRpcRequest p (ca_header ca) (ca_args ca), None, b') \<and> buf_ok b' \<and> content b' = []"
proof -
  have "Provide_onMessage (length (ca_frame hf ca) + 1) hf p (ca_frame hf ca) =
      Some (Provide_handleRpcRequest p (ca_header ca) (ca_args ca), None)"
    using onMessage_call [OF assms(1), where p = p] assms(2) by (simp add: ca_good_def ca_frame_def ca_header_def)
  with on_read_message [OF assms(4,5), of hf p "ca_frame hf ca"] assms(3) show ?thesis
    by (auto simp: server_event_def serving_def)
qed

lemma on_message_keeps:
  "on_message parse b st = Inr st' \<Longrightarrow> cs_quit st' = cs_quit st \<and> cs_sent st' = cs_sent st"
  by (auto simp: on_message_def set_failed_def Let_def split: prod.splits option.splits if_splits)

lemma call_received_keeps: "call_received hf p ca = Inr st \<Longrightarrow> \<not> cs_quit st"
  by (auto simp: call_received_def Let_def split: if_splits dest: on_message_keeps)

text \<open>A call whose connection has been lost before anything was received: it has returned, with what it was given.\<close>

definition dropped :: "'p rpc_call \<Rightarrow> 'p exchange \<Rightarrow> bool" where
  "dropped ca ex \<longleftrightarrow> ex_link ex = LinkDown \<and> (\<exists>st. ex_call ex = Inr st \<and> cs_quit st
     \<and> cs_response st = ca_response ca \<and> cs_controller st = ca_controller ca)"

lemma dropped_stuck: "ex_step frag lossy dflt hf p ca (up, ex) (up', ex') \<Longrightarrow> \<not> dropped ca ex"
  by (erule ex_stepE) (auto simp: dropped_def in_loop_def)

lemma inv_up:
  assumes "ex_inv hf p ca ex" "ex_link ex = Linked" "ex_up ex \<noteq> []"
  shows "\<exists>b. ex = \<lparr>ex_call = Inr (call_sent hf ca), ex_link = Linked, ex_up = ca_frame hf ca,
      ex_down = [], ex_buffer = b, ex_fin = False\<rparr> \<and> buf_ok b \<and> content b = []"
  using assms by (auto elim!: ex_invE simp: ex_start_def)

lemma inv_lost:
  assumes "ex_inv hf p ca ex" "in_loop ex st"
  shows "ex_inv hf p ca (ex\<lparr>ex_call := call_down st, ex_link := LinkDown\<rparr>) \<or> dropped ca (ex\<lparr>ex_call := call_down st, ex_link := LinkDown\<rparr>)"
  using assms(1)
proof (cases rule: ex_inv.cases)
  case (inv_received b)
  with assms(2) have c: "call_received hf p ca = Inr st" "ca_completed p ca \<noteq> None"
    by (auto simp: in_loop_def answer_bytes_def split: option.splits)
  from inv_down [where hf = hf, OF inv_received(2,3) c(2)] inv_received(1) c show ?thesis by (simp add: bindR_def)
qed (use assms(2) in \<open>auto simp: in_loop_def dropped_def call_down_def ex_start_def call_start_def\<close>)

lemma ex_step_inv:
  assumes "codec_ok hf good" "ca_good hf good ca" "serving p"
    and "ex_inv hf p ca ex" "ex_step False lossy dflt hf p ca (True, ex) (up', ex')"
  shows "up' \<and> (ex_inv hf p ca ex' \<or> lossy \<and> dropped ca ex')"
  using assms(5)
proof (cases rule: ex_step_cases)
  case (connect st)
  with assms(4) connect_sends [OF assms(2)] show ?thesis
    by (auto elim!: ex_invE simp: ex_start_def intro!: inv_sent)
next
  case (hang d up)
  with inv_up [OF assms(4)] have e: "d = ca_frame hf ca" "buf_ok (ex_buffer ex)" "content (ex_buffer ex) = []" by auto
  with read_frame [OF assms(1-3) e(2,3), of dflt] hang(6) show ?thesis by simp
next
  case (lost st)
  then have "in_loop ex st" "lossy" by simp_all
  with inv_lost [OF assms(4)] lost show ?thesis by (auto simp: connection_down)
next
  case (read d up evs err b)
  with inv_up [OF assms(4)] obtain b0 where ex: "ex = \<lparr>ex_call = Inr (call_sent hf ca), ex_link = Linked, ex_up = ca_frame hf ca,
      ex_down = [], ex_buffer = b0, ex_fin = False\<rparr>" "buf_ok b0" "content b0 = []"
    by auto
  have d: "d = ca_frame hf ca" "up = []" using read ex by auto
  from read_frame [OF assms(1-3) ex(2,3), of dflt] read ex(1) d have
    e: "evs = Provide_handleRpcRequest p (ca_header ca) (ca_args ca)" "err = None" "buf_ok b" "content b = []"
    by auto
  then show ?thesis using read ex(1) d by (auto simp: put_out_handled simp del: not_None_eq intro!: inv_answered)
next
  case (receive st d down)
  then have d: "down = []" "ex_down ex = d" "d \<noteq> []" by auto
  with receive assms(4) have "ex_call ex = Inr (call_sent hf ca)" "d = answer_bytes (ca_completed p ca)" "ex_up ex = []"
    "ex_link ex = Linked" "ex_fin ex = (ca_completed p ca \<noteq> None)" "buf_ok (ex_buffer ex)" "content (ex_buffer ex) = []"
    by (auto elim!: ex_invE simp: ex_start_def)
  moreover from this d receive have "ex' = \<lparr>ex_call = call_received hf p ca, ex_link = Linked, ex_up = [], ex_down = [],
      ex_buffer = ex_buffer ex, ex_fin = (ca_completed p ca \<noteq> None)\<rparr>"
    by (auto simp: in_loop_def call_received_def intro!: exchange.equality)
  ultimately show ?thesis
    using receive d inv_received [where hf = hf and p = p and ca = ca and b = "ex_buffer ex"] by simp
next
  case (close st)
  then have "ex_call ex = call_received hf p ca" "ex_up ex = []" "ex_link ex = Linked" "ca_completed p ca \<noteq> None"
    "buf_ok (ex_buffer ex)" "content (ex_buffer ex) = []"
    using assms(4) by (auto elim!: ex_invE simp: ex_start_def in_loop_def call_received_def)
  moreover from this close have "ex' = \<lparr>ex_call = bindR (call_received hf p ca) call_down, ex_link = LinkDown, ex_up = [],
      ex_down = [], ex_buffer = ex_buffer ex, ex_fin = True\<rparr>"
    by (auto simp: in_loop_def connection_down intro!: exchange.equality)
  ultimately show ?thesis using close by (auto intro!: inv_down)
qed

definition call_fine :: "bool \<Rightarrow> header_format \<Rightarrow> ('q, 'r) Provide \<Rightarrow> 'p rpc_call \<Rightarrow> 'p exchange \<Rightarrow> bool" where
  "call_fine lossy hf p ca ex \<longleftrightarrow> ex_inv hf p ca ex \<or> lossy \<and> dropped ca ex"

lemma fine_not_stalled: "call_fine lossy hf p ca ex \<Longrightarrow> ex_link ex \<noteq> Stalled"
  by (auto simp: call_fine_def dropped_def ex_start_def elim!: ex_invE)

lemma traffic_fine:
  assumes "traffic_reachable False lossy dflt hf p calls s"
    and "codec_ok hf good" "\<forall>c. ca_good hf good (calls c)" "serving p"
  shows "tr_up s \<and> (\<forall>c. call_fine lossy hf p (calls c) (tr_ex s c))"
  using assms(1)
proof (induction rule: traffic_reachable.induct)
  case (tr_start s)
  then show ?case using new_ok [of kInitialSize] by (fastforce simp: traffic_start_def call_fine_def intro: inv_new)
next
  case (tr_step s t)
  from tr_step(2) show ?case
  proof (cases rule: traffic_step_cases)
    case (call c up ex)
    have "ex_inv hf p (calls c) (tr_ex s c)" using tr_step(3) dropped_stuck [OF call(2)] by (auto simp: call_fine_def)
    with ex_step_inv [OF assms(2) _ assms(4), of "calls c" "tr_ex s c" lossy dflt up ex] call tr_step(3) assms(3)
    show ?thesis by (auto simp: call_fine_def)
  next
    case (thread d c)
    with tr_step(3) fine_not_stalled show ?thesis by blast
  qed
qed

lemma traffic_inv:
  assumes "traffic_reachable False False dflt hf p calls s"
    and "codec_ok hf good" "\<forall>c. ca_good hf good (calls c)" "serving p"
  shows "tr_up s \<and> (\<forall>c. ex_inv hf p (calls c) (tr_ex s c))"
  using traffic_fine [OF assms] by (simp add: call_fine_def)

section \<open>A call among others\<close>

lemma loop_answer:
  assumes "ca_good hf good ca"
  shows "channel_loop (ca_frame hf ca) (of_nat (length (ca_frame hf ca))) (ca_parse ca)
      (ConnUp # answer_events (ca_completed p ca)) (call_start (ca_controller ca) (ca_response ca)) =
    map_option (\<lambda>a. bindR (call_received hf p ca) call_down) (ca_completed p ca)"
proof -
  let ?a = "ca_completed p ca"
  have q: "\<not> cs_quit (call_start (ca_controller ca) (ca_response ca))" by (simp add: call_start_def)
  have down: "channel_loop bytes n parse [ConnDown] st = Some (call_down st)" if "\<not> cs_quit st" for bytes n parse and st :: "'a call_state"
    using that by (simp add: connection_down) (simp add: call_down_def)
  have up: "channel_loop (ca_frame hf ca) (of_nat (length (ca_frame hf ca))) (ca_parse ca) (ConnUp # es)
      (call_start (ca_controller ca) (ca_response ca)) =
    channel_loop (ca_frame hf ca) (of_nat (length (ca_frame hf ca))) (ca_parse ca) es (call_sent hf ca)" for es
    using q connect_sends [OF assms] by simp
  show ?thesis
  proof (cases "answer_bytes ?a = []")
    case True
    then have "answer_events ?a = (if ?a = None then [] else [ConnDown])"
      by (auto simp: answer_events_def answer_bytes_def split: option.split)
    with True show ?thesis
      by (cases ?a) (simp_all add: up call_received_def down del: channel_loop.simps(2))
  next
    case False
    then obtain b where a: "?a = Some (Some b)" "b \<noteq> []" by (auto simp: answer_bytes_def split: option.splits)
    then show ?thesis
      by (simp add: up call_received_def answer_events_def answer_bytes_def Let_def del: channel_loop.simps(2))
        (auto simp: channel_loop.simps(2) [of _ _ _ "Msg b"] connection_down call_down_def dest!: on_message_keeps split: sum.split)
  qed
qed

lemma call_ready_good:
  "call_ready hf good connect k zk (ca_service ca) (ca_method ca) (ca_args ca) ip port \<Longrightarrow> ca_good hf good ca"
  by (simp add: call_ready_def ca_good_def ca_frame_def ca_header_def)

lemma ended_result:
  assumes "ca_good hf good ca" "ex_inv hf p ca ex" "call_ended ex"
  shows "ca_completed p ca \<noteq> None \<and> ex_call ex = bindR (call_received hf p ca) call_down"
  using assms(2)
proof (cases rule: ex_inv.cases)
  case (inv_received b)
  with assms(3) obtain e where "call_received hf p ca = Inl e"
    by (auto simp: call_ended_def dest: call_received_keeps split: sum.splits)
  with inv_received show ?thesis by (auto simp: answer_bytes_def split: option.splits)
qed (use assms(3) in \<open>auto simp: call_ended_def ex_start_def\<close>)

lemma call_alone:
  assumes "codec_ok hf good" "zk_laws api nodes eph" "serving p" "pv_port p = of_nat port"
    and "\<forall>c. call_ready hf good connect k (nodes z) (ca_service (calls c)) (ca_method (calls c)) (ca_args (calls c)) (pv_ip p) port"
    and "ex_inv hf p (calls c) ex" "call_ended ex"
  shows "KitRpcChannel_CallMethod hf api connect k (provider_net hf p) (ca_parse (calls c)) (ca_service (calls c))
      (ca_method (calls c)) (Some (ca_args (calls c))) (ca_controller (calls c)) (ca_response (calls c)) z =
    Some (bindR (ex_call ex) (\<lambda>st. Inr (st, [])))"
proof -
  let ?ca = "calls c"
  have good: "ca_good hf good (calls c)" for c using assms(5) call_ready_good by blast
  have g: "good (ca_header ?ca)" "length (ca_frame hf ?ca) < 2 ^ 32" using good [of c] by (simp_all add: ca_good_def)
  have net: "provider_net hf p (pv_ip p) (of_nat port) (ca_frame hf ?ca) = ConnUp # answer_events (ca_completed p ?ca)"
    using provider_net_events [OF assms(1), of "ca_service ?ca" "ca_method ?ca" "ca_args ?ca" p] g assms(3,4)
    by (simp add: ca_frame_def ca_header_def ca_completed_def)
  from ended_result [OF good assms(6,7)] obtain a where
    "ca_completed p ?ca = Some a" "ex_call ex = bindR (call_received hf p ?ca) call_down" by auto
  then show ?thesis
    unfolding CallMethod_reaches_network [OF assms(1,2) assms(5) [rule_format, of c]] Let_def
      ca_header_def [symmetric] ca_frame_def [symmetric] net loop_answer [OF good [of c]] by simp
qed

text \<open>C14. Calls do not disturb each other: with any number of calls on one provider, whatever order the callbacks of the
  callers and of the provider run in, a call that has ended has ended as \<open>CallMethod\<close> ends when it is
  the only one, with the same response, controller and state, when reads bring all that has been sent and no connection is lost.\<close>

theorem concurrent_calls_refine:
  assumes "codec_ok hf good" "zk_laws api nodes eph" "serving p" "pv_port p = of_nat port"
    and "\<forall>c. call_ready hf good connect k (nodes z) (ca_service (calls c)) (ca_method (calls c)) (ca_args (calls c)) (pv_ip p) port"
    and "traffic_reachable False False dflt hf p calls s" "call_ended (tr_ex s c)"
  shows "KitRpcChannel_CallMethod hf api connect k (provider_net hf p) (ca_parse (calls c)) (ca_service (calls c))
      (ca_method (calls c)) (Some (ca_args (calls c))) (ca_controller (calls c)) (ca_response (calls c)) z =
    Some (bindR (ex_call (tr_ex s c)) (\<lambda>st. Inr (st, [])))"
proof -
  have "\<forall>c. ca_good hf good (calls c)" using assms(5) call_ready_good by blast
  then have "ex_inv hf p (calls c) (tr_ex s c)" using traffic_inv [OF assms(6,1) _ assms(3)] by blast
  then show ?thesis by (rule call_alone [OF assms(1-5) _ assms(7)])
qed

text \<open>With connections that can be lost, a call that waits can always come back.\<close>

lemma lossy_stuck_ended:
  assumes "traffic_reachable False True dflt hf p calls s" "\<nexists>t. traffic_step False True dflt hf p calls s t"
    and "codec_ok hf good" "\<forall>c. ca_good hf good (calls c)" "serving p"
  shows "call_ended (tr_ex s c)"
proof (rule ccontr)
  assume n: "\<not> call_ended (tr_ex s c)"
  then obtain st where st: "ex_call (tr_ex s c) = Inr st" "\<not> cs_quit st" by (auto simp: call_ended_def split: sum.splits)
  from traffic_fine [OF assms(1,3-5)] have f: "tr_up s" "call_fine True hf p (calls c) (tr_ex s c)" by blast+
  have no: "\<not> ex_step False True dflt hf p (calls c) (tr_up s, tr_ex s c) y" for y
    using assms(2) one_call [of False True dflt hf p calls c s "fst y" "snd y"] by auto
  show False
  proof (cases "ex_link (tr_ex s c)")
    case NoLink
    then show ?thesis using no ex_connect [OF NoLink assms(5) st(1) refl refl, of False True dflt hf] f(1) by auto
  next
    case LinkDown
    with f(2) n show ?thesis
      by (auto simp: call_fine_def dropped_def call_ended_def ex_start_def call_down_def bindR_def
          elim!: ex_invE split: sum.splits)
  next
    case Stalled
    with fine_not_stalled [OF f(2)] show ?thesis by simp
  qed (use st no ex_lost [OF _ _ refl, of "tr_ex s c" st True "tr_up s" False] in \<open>fastforce simp: in_loop_def\<close>)
qed

text \<open>C21. Connections that get lost do not disturb the other calls, and a lost call is not told from an answered one. With reads
  that bring all that has been sent, whichever connections are lost at whatever moment, the provider stays up and none of its
  threads hangs; a call that has ended has ended as \<open>CallMethod\<close> ends when it is the only one, or has returned without a failure and with the
  response and the controller that it was given; and when nothing more can happen every call has ended, also those that their
  service does not complete.\<close>

theorem lost_connections_outcome:
  assumes "codec_ok hf good" "zk_laws api nodes eph" "serving p" "pv_port p = of_nat port"
    and "\<forall>c. call_ready hf good connect k (nodes z) (ca_service (calls c)) (ca_method (calls c)) (ca_args (calls c)) (pv_ip p) port"
    and "traffic_reachable False True dflt hf p calls s"
  shows "tr_up s \<and> ex_link (tr_ex s c) \<noteq> Stalled
    \<and> (call_ended (tr_ex s c) \<longrightarrow>
         KitRpcChannel_CallMethod hf api connect k (provider_net hf p) (ca_parse (calls c)) (ca_service (calls c))
           (ca_method (calls c)) (Some (ca_args (calls c))) (ca_controller (calls c)) (ca_response (calls c)) z =
           Some (bindR (ex_call (tr_ex s c)) (\<lambda>st. Inr (st, [])))
         \<or> (\<exists>st. ex_call (tr_ex s c) = Inr st \<and> cs_quit st
              \<and> cs_response st = ca_response (calls c) \<and> cs_controller st = ca_controller (calls c)))
    \<and> ((\<nexists>t. traffic_step False True dflt hf p calls s t) \<longrightarrow> call_ended (tr_ex s c))"
proof -
  have good: "\<forall>c. ca_good hf good (calls c)" using assms(5) call_ready_good by blast
  from traffic_fine [OF assms(6,1) good assms(3)] have f: "tr_up s" "call_fine True hf p (calls c) (tr_ex s c)" by blast+
  have "KitRpcChannel_CallMethod hf api connect k (provider_net hf p) (ca_parse (calls c)) (ca_service (calls c))
           (ca_method (calls c)) (Some (ca_args (calls c))) (ca_controller (calls c)) (ca_response (calls c)) z =
           Some (bindR (ex_call (tr_ex s c)) (\<lambda>st. Inr (st, [])))"
    if "ex_inv hf p (calls c) (tr_ex s c)" "call_ended (tr_ex s c)"
    by (rule call_alone [OF assms(1-5) that])
  with f fine_not_stalled [OF f(2)] lossy_stuck_ended [OF assms(6) _ assms(1) good assms(3)] show ?thesis
    unfolding call_fine_def dropped_def by blast
qed

lemma stuck_ended:
  assumes "codec_ok hf good" "ca_good hf good ca" "serving p" "ex_inv hf p ca ex"
    and stuck: "\<And>y. \<not> ex_step False False dflt hf p ca (True, ex) y"
  shows "call_ended ex \<longleftrightarrow> ca_completed p ca \<noteq> None"
  using assms(4)
proof (cases rule: ex_inv.cases)
  case (inv_new b)
  then show ?thesis
    using stuck ex_connect [of ex p, OF _ assms(3) _ refl refl] by (fastforce simp: ex_start_def)
next
  case (inv_sent b)
  from read_frame [OF assms(1-3) inv_sent(2,3)] obtain b' where
    "server_event dflt hf p (DataIn (ca_frame hf ca)) b = Some (Provide_handleRpcRequest p (ca_header ca) (ca_args ca), None, b')"
    by blast
  then show ?thesis
    using stuck ex_read [of ex "ca_frame hf ca" "[]" False dflt hf p] frame_not_nil [of hf ca] inv_sent(1) by fastforce
next
  case (inv_answered b)
  then have l: "in_loop ex (call_sent hf ca)" by (simp add: in_loop_def)
  then have "answer_bytes (ca_completed p ca) = []"
    using stuck ex_receive [OF l, of "ex_down ex" "[]"] inv_answered(1) by fastforce
  moreover have "ca_completed p ca = None"
    using stuck ex_close [OF l _ _ refl] inv_answered(1) calculation by fastforce
  ultimately show ?thesis using inv_answered(1) by (simp add: call_ended_def)
next
  case (inv_received b)
  have a: "ca_completed p ca \<noteq> None" using inv_received(4) by (auto simp: answer_bytes_def split: option.splits)
  have "False" if "call_received hf p ca = Inr st" for st
  proof -
    have l: "in_loop ex st" using inv_received(1) that by (auto simp: in_loop_def dest: call_received_keeps)
    then show False using stuck ex_close [OF l _ _ refl] inv_received(1) a by fastforce
  qed
  then show ?thesis using a inv_received(1) by (cases "call_received hf p ca") (auto simp: call_ended_def)
next
  case (inv_down b)
  then show ?thesis by (auto simp: call_ended_def call_down_def bindR_def split: sum.splits)
qed

lemma stuck_calls:
  assumes "codec_ok hf good" "\<forall>c. ca_good hf good (calls c)" "serving p"
    and "traffic_reachable False False dflt hf p calls s" "\<forall>t. \<not> traffic_step False False dflt hf p calls s t"
  shows "call_ended (tr_ex s c) \<longleftrightarrow> ca_completed p (calls c) \<noteq> None"
proof -
  from traffic_inv [OF assms(4,1,2,3)] have i: "tr_up s" "ex_inv hf p (calls c) (tr_ex s c)" by blast+
  show ?thesis
  proof (rule stuck_ended [OF assms(1) _ assms(3) i(2)])
    fix y show "\<not> ex_step False False dflt hf p (calls c) (True, tr_ex s c) y"
      using assms(5) one_call [of False False dflt hf p calls c s "fst y" "snd y"] i(1) by auto
  qed (use assms(2) in blast)
qed

text \<open>C23. Every call that the service completes returns: with reads that bring all that has been sent and no lost connection,
  the calls come to a point where nothing more can happen, and at every such point exactly those have ended whose service ran
  its \<open>done\<close>; the others wait for ever.\<close>

theorem completed_calls_return:
  fixes calls :: "'c :: finite \<Rightarrow> 'p rpc_call"
  assumes "codec_ok hf good" "\<forall>c. ca_good hf good (calls c)" "serving p"
  shows "(\<exists>s. traffic_reachable False False dflt hf p calls s \<and> (\<nexists>t. traffic_step False False dflt hf p calls s t))
    \<and> (\<forall>s. traffic_reachable False False dflt hf p calls s \<and> (\<nexists>t. traffic_step False False dflt hf p calls s t) \<longrightarrow>
         (\<forall>c. call_ended (tr_ex s c) \<longleftrightarrow> ca_completed p (calls c) \<noteq> None))"
  using traffic_has_end [of False False dflt hf p calls] stuck_calls [OF assms] by blast

section \<open>A read too short\<close>

text \<open>A read of a serving provider is one run of \<open>onMessage\<close>; when it has no result it never returns.\<close>

lemma server_read:
  assumes "serving p" "buf_ok b" "content b = []"
  shows "\<exists>b'. server_event dflt hf p (DataIn d) b = map_option (\<lambda>(evs, r). (evs, r, b')) (Provide_onMessage (length d + 1) hf p d)
    \<and> buf_ok b' \<and> content b' = []"
  using on_read_message [OF assms(2,3), of hf p d] assms(1) by (simp add: server_event_def serving_def)

lemma server_read_hangs:
  assumes "serving p" "buf_ok b" "content b = []" "server_event dflt hf p (DataIn d) b = None"
  shows "Provide_onMessage fuel hf p d = None"
proof (rule onMessage_fuel_decides)
  show "Provide_onMessage (length d + 1) hf p d = None" using server_read [OF assms(1-3), of dflt hf d] assms(4) by fastforce
qed

text \<open>Whatever arrives, and in whatever pieces, the provider's buffers are empty between the steps.\<close>

lemma traffic_buffers:
  assumes "traffic_reachable frag lossy dflt hf p calls s" "serving p"
  shows "buf_ok (ex_buffer (tr_ex s c)) \<and> content (ex_buffer (tr_ex s c)) = []"
  using assms(1)
proof (induction arbitrary: c rule: traffic_reachable.induct)
  case (tr_start s)
  then show ?case using new_ok [of kInitialSize] by (fastforce simp: traffic_start_def ex_start_def)
next
  case (tr_step s t)
  from tr_step(2) show ?case
  proof (cases rule: traffic_step_cases)
    case (call c1 up ex)
    from call(2) have "buf_ok (ex_buffer ex) \<and> content (ex_buffer ex) = []"
    proof (cases rule: ex_step_cases)
      case (read d up evs err b)
      from server_read [OF assms(2), of "ex_buffer (tr_ex s c1)" dflt hf d] tr_step(3) [of c1] obtain b' where
        m: "server_event dflt hf p (DataIn d) (ex_buffer (tr_ex s c1)) =
          map_option (\<lambda>(evs, r). (evs, r, b')) (Provide_onMessage (length d + 1) hf p d)" "buf_ok b'" "content b' = []" by blast
      with read(6) have "b = b'" by (cases "Provide_onMessage (length d + 1) hf p d") auto
      with m read(8) show ?thesis by simp
    qed (use tr_step(3) [of c1] in auto)
    with tr_step(3) show ?thesis by (simp add: call(1))
  next
    case (thread d c1)
    with tr_step(3) show ?thesis by simp
  qed
qed

lemma short_read_crashes:
  assumes "codec_ok hf good" "serving p" "traffic_reachable True lossy dflt hf p calls s"
    and "tr_up s" "ex_link (tr_ex s c) = Linked" "ex_up (tr_ex s c) \<noteq> []"
  shows "\<exists>t. traffic_step True lossy dflt hf p calls s t \<and> \<not> tr_up t
    \<and> (\<forall>c2 st. in_loop (tr_ex s c2) st \<longrightarrow> in_loop (tr_ex t c2) st)"
proof -
  let ?ex = "tr_ex s c" and ?d = "take 1 (ex_up (tr_ex s c))" and ?up = "drop 1 (ex_up (tr_ex s c))"
  have d: "0 < length ?d" "length ?d < 4" using assms(6) by simp_all
  from on_read_short [OF assms(1) _ _ d, of "ex_buffer ?ex" p] traffic_buffers [OF assms(3,2), of c] obtain b where
    "on_read hf p ?d (ex_buffer ?ex) = Some ([], Some OutOfRange, b)" by blast
  then have r: "server_event dflt hf p (DataIn ?d) (ex_buffer ?ex) = Some ([], Some OutOfRange, b)"
    using assms(2) by (simp add: server_event_def serving_def)
  have split: "ex_up ?ex = ?d @ ?up" "?d \<noteq> []" using assms(6) by simp_all
  have "ex_step True lossy dflt hf p (calls c) (tr_up s, ?ex) (False, ?ex\<lparr>ex_up := ?up, ex_buffer := b\<rparr>)"
    using ex_read [OF assms(5) split _ r, of True lossy "calls c"] assms(4) by simp
  from one_call [where calls = calls and s = s and c = c, OF this] show ?thesis
    by (intro exI conjI) (auto simp: in_loop_def split: if_splits)
qed

text \<open>C34. One short read makes calls of other clients succeed without an answer: when TCP delivers the first byte of any request
  by itself, the provider's process ends, and every call that waits on it can return with no failure and the response it had
  before, which its caller cannot tell from an answer.\<close>

theorem short_read_passes_as_success:
  assumes "codec_ok hf good" "serving p" "traffic_reachable True lossy dflt hf p calls s"
    and "tr_up s" "ex_link (tr_ex s c1) = Linked" "ex_up (tr_ex s c1) \<noteq> []" "in_loop (tr_ex s c2) st"
  shows "\<exists>t u st'. traffic_step True lossy dflt hf p calls s t \<and> traffic_step True lossy dflt hf p calls t u
    \<and> \<not> tr_up u \<and> ex_call (tr_ex u c2) = Inr st' \<and> cs_quit st'
    \<and> cs_response st' = cs_response st \<and> cs_controller st' = cs_controller st"
proof -
  from short_read_crashes [OF assms(1-6)] assms(7) obtain t where
    t: "traffic_step True lossy dflt hf p calls s t" "\<not> tr_up t" "in_loop (tr_ex t c2) st" by blast
  let ?r = "on_connection (ca_frame hf (calls c2)) (of_nat (length (ca_frame hf (calls c2)))) False st"
  have "ex_step True lossy dflt hf p (calls c2) (tr_up t, tr_ex t c2) (tr_up t, (tr_ex t c2)\<lparr>ex_call := ?r, ex_link := LinkDown\<rparr>)"
    by (rule ex_lost [OF t(3) _ refl]) (simp add: t(2))
  note u = one_call [where calls = calls and s = t and c = c2, OF this]
  show ?thesis
    by (rule exI [of _ t], rule exI, rule exI [of _ "st\<lparr>cs_destroyed := True, cs_quit := True\<rparr>"], intro conjI, rule t(1), rule u)
      (simp_all add: t(2) connection_down call_down_def)
qed

section \<open>Instances\<close>

text \<open>Two clients of the echo service.\<close>

definition echo_calls :: "bool \<Rightarrow> string rpc_call" where
  "echo_calls c = \<lparr>ca_service = ''Echo'', ca_method = echo_method, ca_args = (if c then ''hi'' else ''yo''),
     ca_parse = Pair True, ca_controller = Some KitRpcController_new, ca_response = ''old''\<rparr>"

lemma echo_calls_good: "ca_good proto_format (\<lambda>h. True) (echo_calls c)"
  by (simp add: ca_good_def ca_frame_def ca_header_def echo_calls_def demo_header echo_length)

abbreviation "echo_running \<equiv> running 4 echo_provider"

lemma echo_calls_completed: "ca_completed echo_running (echo_calls c) = Some (Some (ca_args (echo_calls c)))"
  by (simp add: ca_completed_def ca_header_def echo_calls_def demo_header echo_completed)

lemma echo_calls_ready: "call_ready proto_format (\<lambda>h. True) (\<lambda>_. Connected) demo_app (mem_nodes demo_zk)
    (ca_service (echo_calls c)) (ca_method (echo_calls c)) (ca_args (echo_calls c)) (pv_ip echo_running) 8080"
  using demo_ready [of "ca_args (echo_calls c)"] by (simp add: echo_calls_def echo_addr)

lemma echo_port: "pv_port echo_running = of_nat 8080"
  by (simp add: echo_addr)

abbreviation "no_default \<equiv> (\<lambda>_ _. None) :: (string, string) default_callback"

theorem concurrent_calls_refine_witness:
  "\<exists>s. traffic_reachable False False no_default proto_format echo_running echo_calls s \<and> call_ended (tr_ex s True)
    \<and> KitRpcChannel_CallMethod proto_format mem_zoo (\<lambda>_. Connected) demo_app (provider_net proto_format echo_running) (Pair True)
        ''Echo'' echo_method (Some ''hi'') (Some KitRpcController_new) ''old'' demo_zk =
      Some (bindR (ex_call (tr_ex s True)) (\<lambda>st. Inr (st, [])))"
proof -
  from traffic_has_end [of False False no_default proto_format echo_running echo_calls] obtain s where
    s: "traffic_reachable False False no_default proto_format echo_running echo_calls s"
    and stuck: "\<nexists>t. traffic_step False False no_default proto_format echo_running echo_calls s t" by blast
  have e: "call_ended (tr_ex s True)"
    using stuck_calls [OF proto_codec_ok _ running_serves s] echo_calls_good stuck by (auto simp: echo_calls_completed)
  from concurrent_calls_refine [OF proto_codec_ok mem_zoo_laws running_serves echo_port allI [OF echo_calls_ready] s e] s e show ?thesis
    by (intro exI [of _ s]) (simp add: echo_calls_def)
qed

theorem lost_connections_outcome_witness:
  "\<exists>s. traffic_reachable False True no_default proto_format echo_running echo_calls s \<and> tr_up s
    \<and> call_ended (tr_ex s True) \<and> call_ended (tr_ex s False)"
proof -
  from traffic_has_end [of False True no_default proto_format echo_running echo_calls] obtain s where
    s: "traffic_reachable False True no_default proto_format echo_running echo_calls s"
    and stuck: "\<nexists>t. traffic_step False True no_default proto_format echo_running echo_calls s t" by blast
  from lost_connections_outcome [OF proto_codec_ok mem_zoo_laws running_serves echo_port allI [OF echo_calls_ready] s] s stuck show ?thesis
    by blast
qed

text \<open>One client of the echo service, and one of a service the provider does not have.\<close>

definition mixed_calls :: "bool \<Rightarrow> string rpc_call" where
  "mixed_calls c = (if c then echo_calls True else (echo_calls False)\<lparr>ca_service := ''Ohce''\<rparr>)"

lemma mixed_calls_good: "ca_good proto_format (\<lambda>h. True) (mixed_calls c)"
  using echo_calls_good [of True]
  by (simp add: mixed_calls_def ca_good_def)
    (simp add: ca_frame_def ca_header_def echo_calls_def request_bytes_def frame_def call_header_def echo_method_def
      proto_format_def proto_serialize_def put_fields_def field_simps varint.simps)

lemma mixed_calls_completed: "ca_completed echo_running (mixed_calls c) \<noteq> None \<longleftrightarrow> c"
  using echo_calls_completed [of True]
  by (simp add: mixed_calls_def)
    (simp add: ca_completed_def ca_header_def echo_calls_def completed_def call_header_def echo_provider_def Provide_notifyService_def
      Provide_new_def echo_service_def um_find_def um_insert_def Let_def)

theorem completed_calls_return_witness:
  "\<exists>s. traffic_reachable False False no_default proto_format echo_running mixed_calls s
    \<and> (\<nexists>t. traffic_step False False no_default proto_format echo_running mixed_calls s t)
    \<and> call_ended (tr_ex s True) \<and> \<not> call_ended (tr_ex s False)"
  using completed_calls_return [where calls = mixed_calls and p = echo_running and dflt = no_default,
      OF proto_codec_ok allI [OF mixed_calls_good] running_serves]
  unfolding mixed_calls_completed by blast

lemma connect_step:
  assumes "ca_good hf good (calls c)" "serving p" "tr_up s" "tr_ex s c = ex_start (calls c) b"
  shows "traffic_step frag lossy dflt hf p calls s
    (s\<lparr>tr_up := True, tr_ex := (tr_ex s)(c := (tr_ex s c)\<lparr>ex_call := Inr (call_sent hf (calls c)), ex_link := Linked,
       ex_up := ca_frame hf (calls c)\<rparr>)\<rparr>)"
proof -
  have "ex_step frag lossy dflt hf p (calls c) (True, tr_ex s c)
      (True, (tr_ex s c)\<lparr>ex_call := Inr (call_sent hf (calls c)), ex_link := Linked, ex_up := ca_frame hf (calls c)\<rparr>)"
    by (rule ex_connect [OF _ assms(2), where st = "call_start (ca_controller (calls c)) (ca_response (calls c))"]) (simp_all add: assms(4) ex_start_def connect_sends [OF assms(1)])
  with assms(3) show ?thesis by (intro one_call) simp
qed

theorem short_read_passes_as_success_witness:
  "\<exists>s t u st'. traffic_reachable True False no_default proto_format echo_running echo_calls s
    \<and> traffic_step True False no_default proto_format echo_running echo_calls s t
    \<and> traffic_step True False no_default proto_format echo_running echo_calls t u
    \<and> \<not> tr_up u \<and> ex_call (tr_ex u False) = Inr st' \<and> cs_quit st' \<and> cs_response st' = ''old''
    \<and> cs_controller st' = Some KitRpcController_new"
proof -
  let ?step = "traffic_step True False no_default proto_format echo_running echo_calls"
    and ?reach = "traffic_reachable True False no_default proto_format echo_running echo_calls"
  obtain s0 where s0: "traffic_start echo_calls s0" using traffic_has_start by blast
  then have b: "\<exists>b. tr_ex s0 c = ex_start (echo_calls c) b" "tr_up s0" for c by (auto simp: traffic_start_def)
  obtain b1 b2 where e: "tr_ex s0 True = ex_start (echo_calls True) b1" "tr_ex s0 False = ex_start (echo_calls False) b2"
    using b(1) by metis
  note connect = connect_step [where frag = True and lossy = False and dflt = no_default and calls = echo_calls and p = echo_running,
      OF echo_calls_good running_serves]
  define s1 where "s1 = s0\<lparr>tr_up := True, tr_ex := (tr_ex s0)(True := (tr_ex s0 True)\<lparr>ex_call := Inr (call_sent proto_format (echo_calls True)),
      ex_link := Linked, ex_up := ca_frame proto_format (echo_calls True)\<rparr>)\<rparr>"
  have 1: "?step s0 s1" unfolding s1_def by (rule connect [OF b(2) e(1)])
  have e1: "tr_up s1" "tr_ex s1 False = ex_start (echo_calls False) b2" by (simp_all add: s1_def e)
  define s2 where "s2 = s1\<lparr>tr_up := True, tr_ex := (tr_ex s1)(False := (tr_ex s1 False)\<lparr>ex_call := Inr (call_sent proto_format (echo_calls False)),
      ex_link := Linked, ex_up := ca_frame proto_format (echo_calls False)\<rparr>)\<rparr>"
  have 2: "?step s1 s2" unfolding s2_def by (rule connect [OF e1])
  have r: "?reach s2" by (rule tr_step [OF tr_step [OF tr_start [OF s0] 1] 2])
  have x: "tr_up s2" "ex_link (tr_ex s2 True) = Linked" "ex_up (tr_ex s2 True) \<noteq> []"
    "in_loop (tr_ex s2 False) (call_sent proto_format (echo_calls False))"
    by (simp_all add: s2_def s1_def frame_not_nil in_loop_def)
  from short_read_passes_as_success [OF proto_codec_ok running_serves r x] r show ?thesis
    by (force simp: echo_calls_def)
qed

end
