(* ===== verification/Sessions.thy ===== *)
theory Sessions
  imports ClientCall
begin

text \<open>
  Sessions of the naming service. Each \<open>ZkClient\<close> that was started has one; the nodes that were
  created with \<open>ZOO_EPHEMERAL\<close> belong to the session that created them and go when it ends, by
  the close in the client's destructor or when the service gives up on a process that died. The calls
  of \<open>src/zookeeper/zookeeper_cli.cpp\<close> do not name the session: here the library's calls are those of one
  session \<open>s\<close>, \<open>api s\<close>.
\<close>

section \<open>The contract\<close>

text \<open>
  Over the contract of a healthy service in every session: \<open>owner\<close> is the session of an ephemeral
  node; a create enters the node for the session that makes it; the end of a session (\<open>expire\<close>) removes
  its nodes and no other.
\<close>

locale naming_sessions =
  fixes api :: "'s \<Rightarrow> 'z zoo_api"
    and nodes :: "'z \<Rightarrow> string \<Rightarrow> string option"
    and owner :: "'z \<Rightarrow> string \<Rightarrow> 's option"
    and expire :: "'s \<Rightarrow> 'z \<Rightarrow> 'z"
  assumes service: "naming_service (api s) nodes (\<lambda>z p. owner z p \<noteq> None)"
    and create_owner: "zk_can_create (nodes z) (\<lambda>p. owner z p \<noteq> None) p \<Longrightarrow> length d < 2 ^ 16 \<Longrightarrow> fl \<in> {0, ZOO_EPHEMERAL} \<Longrightarrow>
      owner (fst (zoo_create (api s) z p d fl)) = (owner z)(p := if fl = ZOO_EPHEMERAL then Some s else None)"
    and expire_nodes: "nodes (expire s z) p = (if owner z p = Some s then None else nodes z p)"
    and expire_owner: "owner (expire s z) p = (if owner z p = Some s then None else owner z p)"
    and owned_there: "owner z p \<noteq> None \<Longrightarrow> nodes z p \<noteq> None"

sublocale naming_sessions \<subseteq> session: naming_service "api s" nodes "\<lambda>z p. owner z p \<noteq> None" for s
  by (rule service)

context naming_sessions
begin

lemma laws: "zk_laws (api s) nodes (\<lambda>z p. owner z p \<noteq> None)"
  unfolding zk_laws_locale by (rule service)

text \<open>A node there, created in session \<open>s\<close> or not.\<close>

lemma create_session:
  assumes "zk_path_ok path" "length d < 2 ^ 16" "st \<in> {0, ZOO_EPHEMERAL}"
    and "zk_parent path = [] \<or> nodes z (zk_parent path) \<noteq> None \<and> owner z (zk_parent path) = None"
  obtains z' lg where "ZkClient_createNode (api s) path d st z = (True, z', lg)"
    "nodes z' = node_insert (nodes z) path d"
    "owner z' = (if nodes z path = None \<and> st = ZOO_EPHEMERAL then (owner z)(path := Some s) else owner z)"
    "list_all (\<lambda>(lv, m). lv = INFO) lg"
proof (cases "nodes z path")
  case None
  then have can: "zk_can_create (nodes z) (\<lambda>p. owner z p \<noteq> None) path" using assms(1,4) by (simp add: zk_can_create_def)
  have own: "owner z path = None" using None owned_there by blast
  from session.create_path [OF can assms(2,3)] obtain z' where
    c: "zoo_create (api s) z path d st = (z', ZOK)" "nodes z' = (nodes z)(path \<mapsto> d)" by blast
  have "owner z' = (owner z)(path := if st = ZOO_EPHEMERAL then Some s else None)"
    using create_owner [OF can assms(2,3), of s] c(1) by simp
  then have "owner z' = (if st = ZOO_EPHEMERAL then (owner z)(path := Some s) else owner z)" using own by auto
  with None c show thesis using path_no_nul [OF assms(1)] session.exists_path [OF assms(1), of s z]
    by (intro that [of z' "[(INFO, ''zookeeper create path node success! '' @ path @ [LF])]"])
      (simp_all add: ZkClient_createNode_def node_insert_def)
next
  case (Some d')
  then have there: "nodes z path \<noteq> None" by simp
  show thesis
    using that [of z "[]"] session.createNode_there [OF assms(1) there, of s d st] Some by (simp add: node_insert_def)
qed

text \<open>The owners after a registration: what was there keeps its owner, the methods' new nodes are the session's.\<close>

definition owner_after :: "'s \<Rightarrow> (string \<Rightarrow> bool) \<Rightarrow> 'z \<Rightarrow> string \<Rightarrow> 's option" where
  "owner_after s registered z q = (if nodes z q = None \<and> registered q then Some s else owner z q)"

lemma register_methods_owner:
  assumes "name_ok (sd_name sv)" "\<forall>m \<in> set ms. name_ok (md_name m)" "length host < 2 ^ 16"
    and "nodes z (service_path sv) \<noteq> None" "owner z (service_path sv) = None"
  shows "owner (fst (register_methods (api s) host sv ms z)) = owner_after s (\<lambda>q. q \<in> method_path sv ` set ms) z
    \<and> list_all (\<lambda>(lv, m). lv = INFO) (snd (register_methods (api s) host sv ms z))"
  using assms(2,4,5)
proof (induction ms arbitrary: z)
  case Nil
  then show ?case by (simp add: owner_after_def fun_eq_iff)
next
  case (Cons m ms)
  have par: "zk_parent (method_path sv m) = service_path sv" and ok: "zk_path_ok (method_path sv m)"
    using Cons.prems(1) method_path_parent [of m sv] method_path_ok [OF assms(1), of m] by auto
  from create_session [OF ok assms(3), of ZOO_EPHEMERAL z s] Cons.prems par obtain z1 lg where
    c: "ZkClient_createNode (api s) (method_path sv m) host ZOO_EPHEMERAL z = (True, z1, lg)"
    and n: "nodes z1 = node_insert (nodes z) (method_path sv m) host"
    and o: "owner z1 = (if nodes z (method_path sv m) = None then (owner z)(method_path sv m := Some s) else owner z)"
    and lg: "list_all (\<lambda>(lv, m). lv = INFO) lg" by (metis insertCI)
  have "nodes z1 (service_path sv) \<noteq> None" using Cons.prems(2) n by (auto simp: node_insert_def)
  moreover have "owner z1 (service_path sv) = None"
    using o Cons.prems(3) method_path_not_service [OF assms(1), of sv m] by auto
  ultimately have "owner (fst (register_methods (api s) host sv ms z1)) = owner_after s (\<lambda>q. q \<in> method_path sv ` set ms) z1
    \<and> list_all (\<lambda>(lv, m). lv = INFO) (snd (register_methods (api s) host sv ms z1))"
    using Cons.IH [of z1] Cons.prems(1) by simp
  with n o lg show ?case
    by (auto simp: c owner_after_def node_insert_def create_error_def split_def fun_eq_iff)
qed

lemma method_calls_lookup:
  "map_of (method_calls host sv ms) q = (if q \<in> method_path sv ` set ms then Some host else None)"
  by (induction ms) (auto simp: method_calls_def)

lemma register_services_owner:
  assumes "length host < 2 ^ 16"
    and "\<forall>(si, ms) \<in> set order. name_ok (sd_name (si_service si)) \<and> (\<forall>m \<in> set ms. name_ok (md_name m))"
    and "services_kept (\<lambda>z p. owner z p \<noteq> None) order z"
  shows "owner (fst (register_services (api s) host order z)) =
      owner_after s (\<lambda>q. \<exists>(si, ms) \<in> set order. q \<in> method_path (si_service si) ` set ms) z
    \<and> list_all (\<lambda>(lv, m). lv = INFO) (snd (register_services (api s) host order z))"
  using assms(2,3)
proof (induction order arbitrary: z)
  case Nil
  then show ?case by (simp add: owner_after_def fun_eq_iff)
next
  case (Cons x order)
  obtain si ms where x: "x = (si, ms)" by (cases x)
  let ?s = "si_service si"
  have ok: "name_ok (sd_name ?s)" "\<forall>m \<in> set ms. name_ok (md_name m)" and kept: "owner z (service_path ?s) = None"
    using Cons.prems x by (auto simp: services_kept_def)
  have others: "\<forall>(si', ms') \<in> set order. name_ok (sd_name (si_service si')) \<and> owner z (service_path (si_service si')) = None"
    using Cons.prems by (auto simp: services_kept_def)
  from create_session [OF service_path_ok [OF ok(1)], of "[]" 0 z s] service_path_parent [OF ok(1)]
  obtain z1 lg where c: "ZkClient_createNode (api s) (service_path ?s) [] 0 z = (True, z1, lg)"
    and n: "nodes z1 = node_insert (nodes z) (service_path ?s) []"
    and o: "owner z1 = owner z" and lg: "list_all (\<lambda>(lv, m). lv = INFO) lg" by (auto simp: ZOO_EPHEMERAL_def)
  let ?z2 = "fst (register_methods (api s) host ?s ms z1)"
  have there: "nodes z1 (service_path ?s) \<noteq> None" using n node_insert_there by metis
  have m: "owner ?z2 = owner_after s (\<lambda>q. q \<in> method_path ?s ` set ms) z1"
    "list_all (\<lambda>(lv, m). lv = INFO) (snd (register_methods (api s) host ?s ms z1))"
    using register_methods_owner [OF ok assms(1) there] o kept by simp_all
  have n2: "nodes ?z2 = nodes_after (method_calls host ?s ms) (nodes z1)"
    using register_methods_nodes [OF laws ok assms(1) there] o kept by simp
  have "services_kept (\<lambda>z p. owner z p \<noteq> None) order ?z2"
    using others m(1) o method_path_not_service by (fastforce simp: services_kept_def owner_after_def)
  then have IH: "owner (fst (register_services (api s) host order ?z2)) =
      owner_after s (\<lambda>q. \<exists>(si, ms) \<in> set order. q \<in> method_path (si_service si) ` set ms) ?z2"
    "list_all (\<lambda>(lv, m). lv = INFO) (snd (register_services (api s) host order ?z2))"
    using Cons.IH [of ?z2] Cons.prems(1) by simp_all
  have "owner_after s (\<lambda>q. \<exists>(si, ms) \<in> set order. q \<in> method_path (si_service si) ` set ms) ?z2 q =
    owner_after s (\<lambda>q. \<exists>(si, ms) \<in> set (x # order). q \<in> method_path (si_service si) ` set ms) z q" for q
  proof (cases "q = service_path ?s")
    case True
    then have "\<forall>(si, ms) \<in> set (x # order). q \<notin> method_path (si_service si) ` set ms"
      using method_path_not_service [OF ok(1)] by fastforce
    then show ?thesis using m(1) o by (auto simp: x owner_after_def)
  next
    case False
    then have "nodes z1 q = nodes z q" using n by (simp add: node_insert_def)
    with m(1) o n2 show ?thesis
      by (auto simp: x owner_after_def nodes_after_lookup method_calls_lookup split: option.splits)
  qed
  with IH m(2) lg show ?case
    by (simp add: x c create_error_def split_def fun_eq_iff Let_def)
qed

text \<open>What \<open>run\<close> leaves, for every path: its data and its session.\<close>

lemma run_session:
  assumes "names_ok p" "iteration_of p order" "services_kept (\<lambda>z p. owner z p \<noteq> None) order z" "length host < 2 ^ 16"
    and "Provide_host k = Inr host" "ZkClient_start connect k ZkClient_new = Inr cli"
  shows "\<exists>z' lg. Provide_run cores (api s) connect k order p z = Inr (running cores p, z', lg)
    \<and> nodes z' = nodes_after (service_calls host order) (nodes z)
    \<and> owner z' = owner_after s (\<lambda>q. \<exists>(si, ms) \<in> set order. q \<in> method_path (si_service si) ` set ms) z
    \<and> list_all (\<lambda>(lv, m). lv = INFO) lg"
proof -
  have names: "\<forall>(si, ms) \<in> set order. name_ok (sd_name (si_service si)) \<and> (\<forall>m \<in> set ms. name_ok (md_name m))"
    using iteration_names [OF assms(1,2)] .
  from register_services_owner [OF assms(4) names assms(3), of s] register_services_nodes [OF laws assms(4) names assms(3), of s]
  show ?thesis using assms(5,6)
    by (cases "register_services (api s) host order z") (simp add: Provide_run_def running_def Let_def)
qed

end

text \<open>The contract as a predicate, for the hypotheses of properties.\<close>

definition session_laws ::
  "('s \<Rightarrow> 'z zoo_api) \<Rightarrow> ('z \<Rightarrow> string \<Rightarrow> string option) \<Rightarrow> ('z \<Rightarrow> string \<Rightarrow> 's option) \<Rightarrow> ('s \<Rightarrow> 'z \<Rightarrow> 'z) \<Rightarrow> bool" where
  "session_laws api nodes owner expire \<longleftrightarrow>
     (\<forall>s. zk_laws (api s) nodes (\<lambda>z p. owner z p \<noteq> None))
     \<and> (\<forall>s z p d fl. zk_can_create (nodes z) (\<lambda>p. owner z p \<noteq> None) p \<longrightarrow> length d < 2 ^ 16 \<longrightarrow> fl \<in> {0, ZOO_EPHEMERAL} \<longrightarrow>
          owner (fst (zoo_create (api s) z p d fl)) = (owner z)(p := if fl = ZOO_EPHEMERAL then Some s else None))
     \<and> (\<forall>s z p. nodes (expire s z) p = (if owner z p = Some s then None else nodes z p))
     \<and> (\<forall>s z p. owner (expire s z) p = (if owner z p = Some s then None else owner z p))
     \<and> (\<forall>z p. owner z p \<noteq> None \<longrightarrow> nodes z p \<noteq> None)"

lemma session_laws_locale: "session_laws api nodes owner expire \<longleftrightarrow> naming_sessions api nodes owner expire"
  unfolding session_laws_def naming_sessions_def zk_laws_locale by (intro iffI conjI allI impI; elim conjE; blast)

lemmas session_run = naming_sessions.run_session [OF iffD1 [OF session_laws_locale]]
  and session_owner_after = naming_sessions.owner_after_def [OF iffD1 [OF session_laws_locale]]
  and session_expire_nodes = naming_sessions.expire_nodes [OF iffD1 [OF session_laws_locale]]
  and session_service = naming_sessions.laws [OF iffD1 [OF session_laws_locale]]

section \<open>A service with sessions in memory\<close>

type_synonym session_service = "(string, string \<times> nat option) umap"

definition sess_nodes :: "session_service \<Rightarrow> string \<Rightarrow> string option" where
  "sess_nodes z p = map_option fst (um_find z p)"

definition sess_owner :: "session_service \<Rightarrow> string \<Rightarrow> nat option" where
  "sess_owner z p = Option.bind (um_find z p) snd"

definition sess_expire :: "nat \<Rightarrow> session_service \<Rightarrow> session_service" where
  "sess_expire s z = filter (\<lambda>(p, d, o'). sess_owner z p \<noteq> Some s) z"

definition sess_zoo :: "nat \<Rightarrow> session_service zoo_api" where
  "sess_zoo s = \<lparr>
     zoo_exists = (\<lambda>z p. if um_find z p = None then ZNONODE else ZOK),
     zoo_create = (\<lambda>z p d fl. if zk_can_create (sess_nodes z) (\<lambda>p. sess_owner z p \<noteq> None) p
        then (um_insert z p (d, if fl = ZOO_EPHEMERAL then Some s else None), ZOK) else (z, ZERROR 1)),
     zoo_get = (\<lambda>z p n. case um_find z p of None \<Rightarrow> (ZNONODE, []) | Some (d, e) \<Rightarrow> (ZOK, take n d)),
     zoo_delete = (\<lambda>z p. if um_find z p = None then (z, ZNONODE) else (filter (\<lambda>kv. fst kv \<noteq> p) z, ZOK))\<rparr>"

lemma um_find_filter_keys: "um_find (filter (\<lambda>(k, v). P k) m) k = (if P k then um_find m k else None)"
  unfolding um_find_def by (induction m) auto

lemma sess_expire_find: "um_find (sess_expire s z) p = (if sess_owner z p = Some s then None else um_find z p)"
proof -
  have "sess_expire s z = filter (\<lambda>(k, v). sess_owner z k \<noteq> Some s) z"
    unfolding sess_expire_def by (rule arg_cong [where f = "\<lambda>P. filter P z"]) auto
  then show ?thesis by (simp add: um_find_filter_keys)
qed

interpretation sess: naming_sessions sess_zoo sess_nodes sess_owner sess_expire
proof unfold_locales
  fix s p z assume "zk_path_ok p"
  then show "zoo_exists (sess_zoo s) z p = (if sess_nodes z p = None then ZNONODE else ZOK)"
    by (simp add: sess_zoo_def sess_nodes_def)
next
  fix s z p d fl assume "zk_can_create (sess_nodes z) (\<lambda>p. sess_owner z p \<noteq> None) p" "fl \<in> {0, ZOO_EPHEMERAL}"
  then show "\<exists>z'. zoo_create (sess_zoo s) z p d fl = (z', ZOK) \<and> sess_nodes z' = (sess_nodes z)(p \<mapsto> d)
      \<and> (\<lambda>p. sess_owner z' p \<noteq> None) = (\<lambda>p. sess_owner z p \<noteq> None)(p := fl = ZOO_EPHEMERAL)"
    by (auto simp: sess_zoo_def zk_can_create_def sess_nodes_def sess_owner_def um_find_insert fun_eq_iff)
next
  fix s z p d fl assume "zk_can_create (sess_nodes z) (\<lambda>p. sess_owner z p \<noteq> None) p"
  then show "sess_owner (fst (zoo_create (sess_zoo s) z p d fl)) = (sess_owner z)(p := if fl = ZOO_EPHEMERAL then Some s else None)"
    by (auto simp: sess_zoo_def zk_can_create_def sess_nodes_def sess_owner_def um_find_insert fun_eq_iff)
qed (auto simp: sess_zoo_def sess_nodes_def sess_owner_def sess_expire_find um_find_filter fun_eq_iff bind_eq_Some_conv)

lemma sess_laws: "session_laws sess_zoo sess_nodes sess_owner sess_expire"
  by (simp add: session_laws_locale sess.naming_sessions_axioms)

section \<open>What becomes of a registration\<close>

definition service_paths :: "('q, 'p) Provide \<Rightarrow> string set" where
  "service_paths p = (\<lambda>si. service_path (si_service si)) ` snd ` set (pv_servicesMap p)"

lemma service_calls_map:
  assumes "\<forall>(si, ms) \<in> set order. name_ok (sd_name (si_service si)) \<and> (\<forall>m \<in> set ms. name_ok (md_name m))"
  shows "map_of (service_calls host order) q =
    (if q \<in> (\<lambda>si. service_path (si_service si)) ` fst ` set order then Some []
     else if \<exists>(si, ms) \<in> set order. q \<in> method_path (si_service si) ` set ms then Some host else None)"
  (is "?l = (if ?sp then _ else if ?mp then _ else _)")
proof -
  have no_both: "\<not> (?sp \<and> ?mp)" using assms method_path_not_service by fastforce
  have entries: "(q, d) \<in> set (service_calls host order) \<longleftrightarrow> ?sp \<and> d = [] \<or> ?mp \<and> d = host" for d
    by (force simp: service_calls_def method_calls_def)
  show ?thesis
  proof (cases "?l")
    case None
    then have "\<nexists>d. (q, d) \<in> set (service_calls host order)" by (force simp: map_of_eq_None_iff)
    then have "\<not> ?sp" "\<not> ?mp" using entries [of "[]"] entries [of host] by blast+
    with None show ?thesis by (simp only: if_False)
  next
    case (Some d)
    with map_of_SomeD [OF Some] entries no_both show ?thesis by auto
  qed
qed

lemma order_services: "iteration_of p order \<Longrightarrow> (\<lambda>si. service_path (si_service si)) ` fst ` set order = service_paths p"
  by (simp add: service_paths_def iteration_sets(1))

text \<open>C28. The end of a session undoes its registration: when the session in which \<open>run\<close> registered ends,
  every path has the data it had before, except that the services' own nodes, which are not
  ephemeral, stay behind without data where there was none.\<close>

theorem session_end_unregisters:
  assumes "session_laws api nodes owner expire" "names_ok p" "iteration_of p order"
    and "services_kept (\<lambda>z p. owner z p \<noteq> None) order z" "length host < 2 ^ 16"
    and "Provide_host k = Inr host" "ZkClient_start connect k ZkClient_new = Inr cli"
    and "\<forall>q. owner z q \<noteq> Some s"
  shows "\<exists>z' lg. Provide_run cores (api s) connect k order p z = Inr (running cores p, z', lg)
    \<and> nodes (expire s z') = (\<lambda>q. case nodes z q of Some d \<Rightarrow> Some d | None \<Rightarrow> if q \<in> service_paths p then Some [] else None)"
proof -
  let ?reg = "\<lambda>q. \<exists>(si, ms) \<in> set order. q \<in> method_path (si_service si) ` set ms"
  have names: "\<forall>(si, ms) \<in> set order. name_ok (sd_name (si_service si)) \<and> (\<forall>m \<in> set ms. name_ok (md_name m))"
    using iteration_names [OF assms(2,3)] .
  from session_run [OF assms(1-7), of cores s] obtain z' lg where
    run: "Provide_run cores (api s) connect k order p z = Inr (running cores p, z', lg)"
    and n: "nodes z' = nodes_after (service_calls host order) (nodes z)"
    and o: "\<And>q. owner z' q = (if nodes z q = None \<and> ?reg q then Some s else owner z q)"
    by (auto simp: session_owner_after [OF assms(1)])
  have "nodes (expire s z') q = (case nodes z q of Some d \<Rightarrow> Some d | None \<Rightarrow> if q \<in> service_paths p then Some [] else None)" for q
  proof (cases "q \<in> service_paths p")
    case True
    then have sp: "q \<in> (\<lambda>si. service_path (si_service si)) ` fst ` set order" by (simp add: order_services [OF assms(3)])
    then have "\<not> ?reg q" using names method_path_not_service by fastforce
    with True sp assms(8) show ?thesis
      by (simp add: session_expire_nodes [OF assms(1)] o n nodes_after_lookup service_calls_map [OF names] split: option.split)
  next
    case False
    then have "q \<notin> (\<lambda>si. service_path (si_service si)) ` fst ` set order" by (simp add: order_services [OF assms(3)])
    with False assms(8) show ?thesis
      by (simp add: session_expire_nodes [OF assms(1)] o n nodes_after_lookup service_calls_map [OF names] split: option.split)
  qed
  with run show ?thesis by (auto simp: fun_eq_iff)
qed

lemma echo_run:
  "names_ok echo_provider" "iteration_of echo_provider [(info_of echo_service, [echo_method])]"
  "service_paths echo_provider = {''/Echo''}"
  by (simp_all add: names_ok_def iteration_of_def echo_map echo_info name_ok_def zk_name_ok_def echo_method_def echo_name
      service_paths_def service_path_def)

theorem session_end_unregisters_witness:
  "\<exists>z' lg. Provide_run 4 (sess_zoo 1) (\<lambda>_. Connected) demo_app [(info_of echo_service, [echo_method])] echo_provider []
      = Inr (running 4 echo_provider, z', lg)
    \<and> sess_nodes (sess_expire 1 z') =
      (\<lambda>q. case sess_nodes [] q of Some d \<Rightarrow> Some d | None \<Rightarrow> if q \<in> service_paths echo_provider then Some [] else None)"
  by (rule session_end_unregisters [OF sess_laws echo_run(1,2) _ _ demo_get])
    (simp_all add: services_kept_def sess_owner_def um_find_def)

text \<open>C35. A restart can lose the service for good: a provider that starts again while the session of its
  former process is still alive finds its methods' nodes there, takes that for success, logs no
  error and serves; when the old session ends the nodes go, and every call of such a method fails
  as unregistered while the provider runs.\<close>

theorem restart_loses_method:
  assumes "session_laws api nodes owner expire" "names_ok p" "iteration_of p order"
    and "services_kept (\<lambda>z p. owner z p \<noteq> None) order z" "length host < 2 ^ 16"
    and "Provide_host k = Inr host" "ZkClient_start connect k ZkClient_new = Inr cli"
    and "um_find (pv_servicesMap p) sname = Some si" "sname = sd_name (si_service si)"
    and "um_find (si_methodsMap si) (md_name m) = Some m"
    and "owner z (node_path sname m) = Some old"
    and "hf_serialize hf (call_header sname m args) = Some hs" "length (frame hs args) < 2 ^ 32"
    and "ZkClient_start connect' k' ZkClient_new = Inr cli'"
  shows "\<exists>p' z' lg. Provide_run cores (api s) connect k order p z = Inr (p', z', lg)
    \<and> serving p' \<and> list_all (\<lambda>(lv, m). lv = INFO) lg \<and> nodes z' (node_path sname m) = nodes z (node_path sname m)
    \<and> (\<exists>st lg'. KitRpcChannel_CallMethod hf (api s') connect' k' net parse sname m (Some args) (Some c) resp (expire old z')
          = Some (Inr (st, lg'))
        \<and> cs_sent st = [] \<and> cs_controller st = Some (KitRpcController_SetFailed ''zookeeper get ip/port is null'' c))"
proof -
  have find: "(sname, si) \<in> set (pv_servicesMap p)" "(md_name m, m) \<in> set (si_methodsMap si)"
    using assms(8,10) by (auto simp: um_find_def dest: map_of_SomeD)
  then have ok: "name_ok sname" "name_ok (md_name m)" using assms(2,9) by (auto simp: names_ok_def)
  from session_run [OF assms(1-7), of cores s] obtain z' lg where
    run: "Provide_run cores (api s) connect k order p z = Inr (running cores p, z', lg)" "list_all (\<lambda>(lv, m). lv = INFO) lg"
    and n: "nodes z' = nodes_after (service_calls host order) (nodes z)"
    and o: "owner z' (node_path sname m) = Some old" 
    using assms(11) naming_sessions.owned_there [OF iffD1 [OF session_laws_locale assms(1)], of z "node_path sname m"]
    by (auto simp: session_owner_after [OF assms(1)])
  have "nodes z (node_path sname m) \<noteq> None"
    using assms(11) naming_sessions.owned_there [OF iffD1 [OF session_laws_locale assms(1)], of z "node_path sname m"] by simp
  then have "nodes z' (node_path sname m) = nodes z (node_path sname m)"
    unfolding n by (auto simp: nodes_after_lookup)
  moreover have "nodes (expire old z') (node_path sname m) = None"
    using o by (simp add: session_expire_nodes [OF assms(1)])
  from call_unregistered [OF session_service [OF assms(1)] this ok assms(12-14), where net = net and parse = parse and c = c and resp = resp]
  obtain st lg' where "KitRpcChannel_CallMethod hf (api s') connect' k' net parse sname m (Some args) (Some c) resp (expire old z')
      = Some (Inr (st, lg'))" "cs_sent st = []" "cs_controller st = Some (KitRpcController_SetFailed ''zookeeper get ip/port is null'' c)"
    by blast
  ultimately show ?thesis using run by (intro exI [of _ "running cores p"] exI [of _ z'] exI [of _ lg]) auto
qed

definition old_session :: session_service where
  "old_session = [(''/Echo'', [], None), (''/Echo/Say'', ''10.0.0.1:'' @ dec 8080, Some 1)]"

theorem restart_loses_method_witness:
  "\<exists>p' z' lg. Provide_run 4 (sess_zoo 2) (\<lambda>_. Connected) demo_app [(info_of echo_service, [echo_method])] echo_provider old_session
      = Inr (p', z', lg)
    \<and> serving p' \<and> list_all (\<lambda>(lv, m). lv = INFO) lg
    \<and> sess_nodes z' (node_path ''Echo'' echo_method) = sess_nodes old_session (node_path ''Echo'' echo_method)
    \<and> (\<exists>st lg'. KitRpcChannel_CallMethod proto_format (sess_zoo 3) (\<lambda>_. Connected) demo_app (demo_net [] []) (Pair True)
          ''Echo'' echo_method (Some ''hi'') (Some KitRpcController_new) [] (sess_expire 1 z') = Some (Inr (st, lg'))
        \<and> cs_sent st = [] \<and> cs_controller st = Some (KitRpcController_SetFailed ''zookeeper get ip/port is null'' KitRpcController_new))"
proof (rule restart_loses_method [where si = "info_of echo_service", OF sess_laws echo_run(1,2) _ _ demo_get _ _ _ _ _ _ demo_get(2)])
  let ?h = "call_header ''Echo'' echo_method ''hi''"
  show "hf_serialize proto_format ?h = Some (the (hf_serialize proto_format ?h))"
    by (simp add: proto_format_def proto_serialize_def)
  show "length (frame (the (hf_serialize proto_format ?h)) ''hi'') < 2 ^ 32"
    using echo_length [of "''hi''"] by (simp add: demo_header request_bytes_def)
qed (simp_all add: services_kept_def sess_owner_def um_find_def old_session_def service_path_def node_path_def echo_map echo_info
    echo_name echo_method_name)

end
