(* ===== verification/BlockingQueues.thy ===== *)
theory BlockingQueues
  imports Fifo
begin

text \<open>
  \<^verbatim>\<open>include/muduo/base/BlockingQueue.h\<close> and \<^verbatim>\<open>BoundedBlockingQueue.h\<close>: the operations under
  the queue's mutex, as providers of the contracts of \<open>Fifo\<close>, and the bounded queue's monitor
  with any number of threads: sleepers on the two conditions, the one that each \<^verbatim>\<open>notify\<close>
  wakes, threads that get the mutex before it, and spurious wakeups.
\<close>

section \<open>The unbounded queue\<close>

record 'a BlockingQueue =
  bq_queue :: "'a list"

definition BlockingQueue_new :: "'a BlockingQueue" where
  "BlockingQueue_new = \<lparr>bq_queue = []\<rparr>"

definition BlockingQueue_put :: "'a BlockingQueue \<Rightarrow> 'a \<Rightarrow> 'a BlockingQueue" where
  "BlockingQueue_put q x = q\<lparr>bq_queue := bq_queue q @ [x]\<rparr>"

text \<open>\<open>None\<close>: the caller stays in its wait loop.\<close>

definition BlockingQueue_take :: "'a BlockingQueue \<Rightarrow> ('a \<times> 'a BlockingQueue) option" where
  "BlockingQueue_take q =
     (case bq_queue q of [] \<Rightarrow> None | front # rest \<Rightarrow> Some (front, q\<lparr>bq_queue := rest\<rparr>))"

definition BlockingQueue_drain :: "'a BlockingQueue \<Rightarrow> 'a list \<times> 'a BlockingQueue" where
  "BlockingQueue_drain q = (bq_queue q, q\<lparr>bq_queue := []\<rparr>)"

definition BlockingQueue_size :: "'a BlockingQueue \<Rightarrow> nat" where
  "BlockingQueue_size q = length (bq_queue q)"

interpretation bq: fifo "\<lambda>q x. Some (BlockingQueue_put q x)" BlockingQueue_take bq_queue "\<lambda>_. True"
  by unfold_locales (auto simp: BlockingQueue_put_def BlockingQueue_take_def split: list.splits)

text \<open>Over any run of the threads' \<open>put\<close> and \<open>take\<close> calls on a fresh queue that ends with a \<open>drain\<close>,
  the elements taken, then the drained ones, are those put, in order, none lost or duplicated.\<close>

theorem blocking_queue_drains_rest:
  assumes "q_trace (\<lambda>q x. Some (BlockingQueue_put q x)) BlockingQueue_take BlockingQueue_new es q"
  shows "takes es @ fst (BlockingQueue_drain q) = puts es \<and> BlockingQueue_size (snd (BlockingQueue_drain q)) = 0"
  using bq.trace_conserves [OF assms]
  by (simp add: BlockingQueue_new_def BlockingQueue_drain_def BlockingQueue_size_def)

theorem blocking_queue_drains_rest_witness:
  "takes [Put (1 :: nat), Put 2, Take 1] @ fst (BlockingQueue_drain \<lparr>bq_queue = [2]\<rparr>) = puts [Put (1 :: nat), Put 2, Take 1]
     \<and> BlockingQueue_size (snd (BlockingQueue_drain \<lparr>bq_queue = [2 :: nat]\<rparr>)) = 0"
proof (rule blocking_queue_drains_rest)
  show "q_trace (\<lambda>q x. Some (BlockingQueue_put q x)) BlockingQueue_take BlockingQueue_new
      [Put (1 :: nat), Put 2, Take 1] \<lparr>bq_queue = [2]\<rparr>"
    by (rule q_put, rule refl, rule q_put, rule refl, rule q_take [OF _ q_nil])
      (simp add: BlockingQueue_new_def BlockingQueue_put_def BlockingQueue_take_def)
qed

section \<open>The bounded queue\<close>

record 'a BoundedBlockingQueue =
  bb_queue :: "'a list"
  bb_capacity :: nat

definition BoundedBlockingQueue_new :: "nat \<Rightarrow> 'a BoundedBlockingQueue" where
  "BoundedBlockingQueue_new maxSize = \<lparr>bb_queue = [], bb_capacity = maxSize\<rparr>"

definition BoundedBlockingQueue_empty :: "'a BoundedBlockingQueue \<Rightarrow> bool" where
  "BoundedBlockingQueue_empty q \<longleftrightarrow> bb_queue q = []"

definition BoundedBlockingQueue_full :: "'a BoundedBlockingQueue \<Rightarrow> bool" where
  "BoundedBlockingQueue_full q \<longleftrightarrow> length (bb_queue q) = bb_capacity q"

definition BoundedBlockingQueue_size :: "'a BoundedBlockingQueue \<Rightarrow> nat" where
  "BoundedBlockingQueue_size q = length (bb_queue q)"

definition BoundedBlockingQueue_capacity :: "'a BoundedBlockingQueue \<Rightarrow> nat" where
  "BoundedBlockingQueue_capacity q = bb_capacity q"

definition BoundedBlockingQueue_put :: "'a BoundedBlockingQueue \<Rightarrow> 'a \<Rightarrow> 'a BoundedBlockingQueue option" where
  "BoundedBlockingQueue_put q x =
     (if BoundedBlockingQueue_full q then None else Some (q\<lparr>bb_queue := bb_queue q @ [x]\<rparr>))"

definition BoundedBlockingQueue_take :: "'a BoundedBlockingQueue \<Rightarrow> ('a \<times> 'a BoundedBlockingQueue) option" where
  "BoundedBlockingQueue_take q =
     (if BoundedBlockingQueue_empty q then None else Some (hd (bb_queue q), q\<lparr>bb_queue := tl (bb_queue q)\<rparr>))"

definition bb_ok :: "'a BoundedBlockingQueue \<Rightarrow> bool" where
  "bb_ok q \<longleftrightarrow> length (bb_queue q) \<le> bb_capacity q"

lemmas bb_defs = BoundedBlockingQueue_new_def BoundedBlockingQueue_empty_def BoundedBlockingQueue_full_def
  BoundedBlockingQueue_size_def BoundedBlockingQueue_capacity_def BoundedBlockingQueue_put_def
  BoundedBlockingQueue_take_def

interpretation bb: bounded_fifo BoundedBlockingQueue_put BoundedBlockingQueue_take bb_queue bb_ok bb_capacity
  by unfold_locales (auto simp: bb_defs bb_ok_def split: if_splits)

text \<open>Over any run on a fresh bounded queue: nothing is lost, duplicated or reordered, the queue never
  holds more than its capacity, and if that is not zero a thread that wants to put or one that
  wants to take can go on.\<close>

theorem bounded_queue_run:
  assumes "q_trace BoundedBlockingQueue_put BoundedBlockingQueue_take (BoundedBlockingQueue_new n) es q" "0 < n"
  shows "takes es @ bb_queue q = puts es \<and> BoundedBlockingQueue_size q \<le> n
    \<and> (BoundedBlockingQueue_put q x \<noteq> None \<or> BoundedBlockingQueue_take q \<noteq> None)"
proof -
  let ?q0 = "BoundedBlockingQueue_new n :: 'a BoundedBlockingQueue"
  have ok: "bb_ok ?q0" and c: "bb_queue ?q0 = []" "bb_capacity ?q0 = n" by (simp_all add: bb_defs bb_ok_def)
  have "bb_ok q" using bb.trace_ok [OF assms(1) ok] .
  moreover have "0 < bb_capacity q" using bb.trace_cap [OF assms(1) ok] c(2) assms(2) by simp
  ultimately show ?thesis
    using bb.trace_empty_conserves [OF assms(1) ok c(1)] bb.trace_bounded [OF assms(1) ok] c(2) bb.never_stuck [of q x]
    by (simp add: BoundedBlockingQueue_size_def)
qed

theorem bounded_queue_run_witness:
  "takes [Put (7 :: nat)] @ bb_queue \<lparr>bb_queue = [7], bb_capacity = 1\<rparr> = puts [Put 7]
    \<and> BoundedBlockingQueue_size \<lparr>bb_queue = [7 :: nat], bb_capacity = 1\<rparr> \<le> 1
    \<and> (BoundedBlockingQueue_put \<lparr>bb_queue = [7], bb_capacity = 1\<rparr> (8 :: nat) \<noteq> None
       \<or> BoundedBlockingQueue_take \<lparr>bb_queue = [7 :: nat], bb_capacity = 1\<rparr> \<noteq> None)"
proof (rule bounded_queue_run)
  show "q_trace BoundedBlockingQueue_put BoundedBlockingQueue_take (BoundedBlockingQueue_new 1) [Put 7]
      \<lparr>bb_queue = [7], bb_capacity = 1\<rparr>"
    by (rule q_put [OF _ q_nil]) (simp add: bb_defs)
qed simp

section \<open>The bounded queue's monitor\<close>

text \<open>
  The threads inside \<open>put\<close> and \<open>take\<close>: asleep on a condition, or woken and waiting for the
  mutex to look again.
\<close>

record 'a bb_monitor =
  bm_queue :: "'a BoundedBlockingQueue"
  bm_sleep_take :: nat
  bm_woken_take :: nat
  bm_sleep_put :: nat
  bm_woken_put :: nat

definition notEmpty_notify :: "'a bb_monitor \<Rightarrow> 'a bb_monitor" where
  "notEmpty_notify s =
     (if bm_sleep_take s = 0 then s
      else s\<lparr>bm_sleep_take := bm_sleep_take s - 1, bm_woken_take := bm_woken_take s + 1\<rparr>)"

definition notFull_notify :: "'a bb_monitor \<Rightarrow> 'a bb_monitor" where
  "notFull_notify s =
     (if bm_sleep_put s = 0 then s
      else s\<lparr>bm_sleep_put := bm_sleep_put s - 1, bm_woken_put := bm_woken_put s + 1\<rparr>)"

text \<open>A thread with the mutex at the head of \<open>put\<close>'s or \<open>take\<close>'s loop: it does its work, or sleeps.\<close>

definition put_loop :: "'a \<Rightarrow> 'a bb_monitor \<Rightarrow> 'a bb_monitor" where
  "put_loop x s =
     (case BoundedBlockingQueue_put (bm_queue s) x of
        None \<Rightarrow> s\<lparr>bm_sleep_put := bm_sleep_put s + 1\<rparr>
      | Some q \<Rightarrow> notEmpty_notify (s\<lparr>bm_queue := q\<rparr>))"

definition take_loop :: "'a bb_monitor \<Rightarrow> 'a bb_monitor" where
  "take_loop s =
     (case BoundedBlockingQueue_take (bm_queue s) of
        None \<Rightarrow> s\<lparr>bm_sleep_take := bm_sleep_take s + 1\<rparr>
      | Some (x, q) \<Rightarrow> notFull_notify (s\<lparr>bm_queue := q\<rparr>))"

inductive bb_step :: "'a bb_monitor \<Rightarrow> 'a bb_monitor \<Rightarrow> bool" where
  bb_put: "bb_step s (put_loop x s)"
| bb_put_again: "bm_woken_put s = Suc k \<Longrightarrow> bb_step s (put_loop x (s\<lparr>bm_woken_put := k\<rparr>))"
| bb_take: "bb_step s (take_loop s)"
| bb_take_again: "bm_woken_take s = Suc k \<Longrightarrow> bb_step s (take_loop (s\<lparr>bm_woken_take := k\<rparr>))"
| bb_spurious_put: "bm_sleep_put s = Suc k \<Longrightarrow> bb_step s (s\<lparr>bm_sleep_put := k, bm_woken_put := Suc (bm_woken_put s)\<rparr>)"
| bb_spurious_take: "bm_sleep_take s = Suc k \<Longrightarrow> bb_step s (s\<lparr>bm_sleep_take := k, bm_woken_take := Suc (bm_woken_take s)\<rparr>)"

definition bm_init :: "nat \<Rightarrow> 'a bb_monitor" where
  "bm_init n = \<lparr>bm_queue = BoundedBlockingQueue_new n, bm_sleep_take = 0, bm_woken_take = 0,
     bm_sleep_put = 0, bm_woken_put = 0\<rparr>"

definition bm_inv :: "nat \<Rightarrow> 'a bb_monitor \<Rightarrow> bool" where
  "bm_inv n s \<longleftrightarrow> bb_capacity (bm_queue s) = n \<and> length (bb_queue (bm_queue s)) \<le> n
     \<and> (0 < bm_sleep_take s \<longrightarrow> length (bb_queue (bm_queue s)) \<le> bm_woken_take s)
     \<and> (0 < bm_sleep_put s \<longrightarrow> n - length (bb_queue (bm_queue s)) \<le> bm_woken_put s)"

lemma bm_inv_init: "bm_inv n (bm_init n)"
  by (simp add: bm_inv_def bm_init_def bb_defs)

lemma bm_inv_step: "bb_step s t \<Longrightarrow> bm_inv n s \<Longrightarrow> bm_inv n t"
  by (induction rule: bb_step.induct)
    (auto simp: bm_inv_def put_loop_def take_loop_def notEmpty_notify_def notFull_notify_def bb_defs split: if_splits)

lemma bm_inv_reach: "bb_step\<^sup>*\<^sup>* (bm_init n) s \<Longrightarrow> bm_inv n s"
  by (induction rule: rtranclp_induct) (auto intro: bm_inv_init bm_inv_step)

text \<open>C39. No wakeup of the bounded queue is lost, with any number of threads and any interleaving: while a
  taker sleeps, at least as many takers are awake as there are elements, while a putter sleeps, at
  least as many putters are awake as there are free places, so threads never all sleep.\<close>

theorem bounded_queue_no_lost_wakeup:
  assumes "bb_step\<^sup>*\<^sup>* (bm_init n) s"
  shows "(0 < bm_sleep_take s \<longrightarrow> BoundedBlockingQueue_size (bm_queue s) \<le> bm_woken_take s)
    \<and> (0 < bm_sleep_put s \<longrightarrow> n - BoundedBlockingQueue_size (bm_queue s) \<le> bm_woken_put s)
    \<and> (0 < n \<and> 0 < bm_sleep_take s \<and> 0 < bm_sleep_put s \<longrightarrow> 0 < bm_woken_take s \<or> 0 < bm_woken_put s)"
  using bm_inv_reach [OF assms]
  by (cases "bb_queue (bm_queue s)") (auto simp: bm_inv_def BoundedBlockingQueue_size_def)

theorem bounded_queue_no_lost_wakeup_witness:
  "let s = put_loop (7 :: nat) (take_loop (take_loop (bm_init 1)))
   in bm_sleep_take s = 1 \<and> BoundedBlockingQueue_size (bm_queue s) = 1 \<and> 1 \<le> bm_woken_take s"
proof -
  let ?s = "put_loop (7 :: nat) (take_loop (take_loop (bm_init 1)))"
  have r: "bb_step\<^sup>*\<^sup>* (bm_init 1) ?s"
    by (rule rtranclp.rtrancl_into_rtrancl, rule rtranclp.rtrancl_into_rtrancl, rule r_into_rtranclp,
        rule bb_take, rule bb_take, rule bb_put)
  have s: "bm_sleep_take ?s = 1" "BoundedBlockingQueue_size (bm_queue ?s) = 1"
    by (simp_all add: put_loop_def take_loop_def notEmpty_notify_def bm_init_def bb_defs BoundedBlockingQueue_size_def)
  then show ?thesis using bounded_queue_no_lost_wakeup [OF r] by (simp add: Let_def)
qed

end
