(* ===== verification/Atomics.thy ===== *)
theory Atomics
  imports Prelude
begin

text \<open>
  \<^verbatim>\<open>include/muduo/base/Atomic.h\<close>: atomic integers of 32 and 64 bits, as words of any width. Each
  operation is one atomic read-modify-write, so a concurrent history is a sequence of them.
\<close>

text \<open>\<^verbatim>\<open>__sync_val_compare_and_swap\<close>, \<^verbatim>\<open>__sync_fetch_and_add\<close> and \<^verbatim>\<open>__sync_lock_test_and_set\<close>: the
  value returned and the value left.\<close>

definition sync_val_compare_and_swap :: "'a::len word \<Rightarrow> 'a word \<Rightarrow> 'a word \<Rightarrow> 'a word \<times> 'a word" where
  "sync_val_compare_and_swap v old new = (v, if v = old then new else v)"

definition sync_fetch_and_add :: "'a::len word \<Rightarrow> 'a word \<Rightarrow> 'a word \<times> 'a word" where
  "sync_fetch_and_add v x = (v, v + x)"

definition sync_lock_test_and_set :: "'a::len word \<Rightarrow> 'a word \<Rightarrow> 'a word \<times> 'a word" where
  "sync_lock_test_and_set v x = (v, x)"

definition Atomic_new :: "'a::len word" where
  "Atomic_new = 0"

definition Atomic_get :: "'a::len word \<Rightarrow> 'a word \<times> 'a word" where
  "Atomic_get v = sync_val_compare_and_swap v 0 0"

definition Atomic_getAndAdd :: "'a::len word \<Rightarrow> 'a word \<Rightarrow> 'a word \<times> 'a word" where
  "Atomic_getAndAdd v x = sync_fetch_and_add v x"

definition Atomic_addAndGet :: "'a::len word \<Rightarrow> 'a word \<Rightarrow> 'a word \<times> 'a word" where
  "Atomic_addAndGet v x = (let (r, v') = Atomic_getAndAdd v x in (r + x, v'))"

definition Atomic_incrementAndGet :: "'a::len word \<Rightarrow> 'a word \<times> 'a word" where
  "Atomic_incrementAndGet v = Atomic_addAndGet v 1"

definition Atomic_decrementAndGet :: "'a::len word \<Rightarrow> 'a word \<times> 'a word" where
  "Atomic_decrementAndGet v = Atomic_addAndGet v (- 1)"

definition Atomic_add :: "'a::len word \<Rightarrow> 'a word \<Rightarrow> 'a word" where
  "Atomic_add v x = snd (Atomic_getAndAdd v x)"

definition Atomic_increment :: "'a::len word \<Rightarrow> 'a word" where
  "Atomic_increment v = snd (Atomic_incrementAndGet v)"

definition Atomic_decrement :: "'a::len word \<Rightarrow> 'a word" where
  "Atomic_decrement v = snd (Atomic_decrementAndGet v)"

definition Atomic_getAndSet :: "'a::len word \<Rightarrow> 'a word \<Rightarrow> 'a word \<times> 'a word" where
  "Atomic_getAndSet v newValue = sync_lock_test_and_set v newValue"

lemmas atomic_defs = sync_val_compare_and_swap_def sync_fetch_and_add_def sync_lock_test_and_set_def
  Atomic_new_def Atomic_get_def Atomic_getAndAdd_def Atomic_addAndGet_def Atomic_incrementAndGet_def
  Atomic_decrementAndGet_def Atomic_add_def Atomic_increment_def Atomic_decrement_def Atomic_getAndSet_def

text \<open>A history of numbered increments: what each call returned.\<close>

fun increments :: "nat \<Rightarrow> 'a::len word \<Rightarrow> 'a word list \<times> 'a word" where
  "increments 0 v = ([], v)"
| "increments (Suc n) v = (let (r, v') = Atomic_incrementAndGet v; (rs, w) = increments n v' in (r # rs, w))"

lemma increments_values: "increments n v = (map (\<lambda>i. v + of_nat (Suc i)) [0..<n], v + of_nat n)"
proof (induction n arbitrary: v)
  case (Suc n)
  have "map (\<lambda>i. v + of_nat (Suc i)) [0..<Suc n] = (v + 1) # map (\<lambda>i. v + 1 + of_nat (Suc i)) [0..<n]"
    unfolding upt_conv_Cons [OF zero_less_Suc] map_Suc_upt [symmetric] by (simp add: ac_simps)
  then show ?case by (simp add: Suc atomic_defs ac_simps)
qed simp

text \<open>Numbers drawn with \<open>incrementAndGet\<close> are distinct in any interleaving, as long as fewer are drawn
  than the width can hold, and they count from one on a fresh counter; the value then read is
  their number, and an equal number of decrements brings the counter back.\<close>

theorem atomic_counter_distinct:
  assumes "n < 2 ^ LENGTH('a)"
  shows "distinct (fst (increments n (Atomic_new :: 'a::len word)))
    \<and> map unat (fst (increments n (Atomic_new :: 'a word))) = [1..<Suc n]
    \<and> unat (fst (Atomic_get (snd (increments n (Atomic_new :: 'a word))))) = n
    \<and> (Atomic_decrement ^^ n) (snd (increments n (v :: 'a word))) = v"
proof -
  have f: "fst (increments n (Atomic_new :: 'a word)) = map (\<lambda>i. of_nat (Suc i)) [0..<n]"
    "snd (increments n (Atomic_new :: 'a word)) = of_nat n"
    by (simp_all add: increments_values Atomic_new_def)
  have u: "unat (of_nat k :: 'a word) = k" if "k \<le> n" for k
    using that assms by (simp add: unsigned_of_nat take_bit_eq_mod)
  have "map unat (fst (increments n (Atomic_new :: 'a word))) = map Suc [0..<n]"
    unfolding f using u by (auto simp del: of_nat_Suc)
  then have m: "map unat (fst (increments n (Atomic_new :: 'a word))) = [1..<Suc n]" by (simp add: map_Suc_upt)
  then have "distinct (map unat (fst (increments n (Atomic_new :: 'a word))))" by (metis distinct_upt)
  then have "distinct (fst (increments n (Atomic_new :: 'a word)))" by (simp add: distinct_map)
  moreover have "(Atomic_decrement ^^ k) (v + of_nat k) = v" for k and v :: "'a word"
  proof (induction k arbitrary: v)
    case (Suc k)
    have "Atomic_decrement (v + of_nat (Suc k)) = v + of_nat k" by (simp add: atomic_defs)
    with Suc show ?case by (simp add: funpow_Suc_right del: of_nat_Suc funpow.simps)
  qed simp
  ultimately show ?thesis using m u [of n] f(2) by (simp add: increments_values atomic_defs)
qed

theorem atomic_counter_distinct_witness:
  "distinct (fst (increments 3 (Atomic_new :: u32)))
    \<and> map unat (fst (increments 3 (Atomic_new :: u32))) = [1..<Suc 3]
    \<and> unat (fst (Atomic_get (snd (increments 3 (Atomic_new :: u32))))) = 3
    \<and> (Atomic_decrement ^^ 3) (snd (increments 3 (5 :: u32))) = 5"
  by (rule atomic_counter_distinct) simp

end
