(* ===== verification/Clock.thy ===== *)
theory Clock
  imports Prelude "HOL-Library.Signed_Division"
begin

text \<open>
  \<^verbatim>\<open>include/muduo/base/Timestamp.h\<close> and \<^verbatim>\<open>Date.h\<close>: points in time and dates as numbers, with
  the order of their operators as instances of the library's classes. The numbers are
  \<^verbatim>\<open>int64_t\<close> and \<^verbatim>\<open>int\<close>: an operation that leaves their range is undefined. The operations on
  \<^verbatim>\<open>double\<close> are not modelled.
\<close>

section \<open>Timestamp\<close>

datatype Timestamp = Timestamp (microSecondsSinceEpoch: int)

definition in_int64 :: "int \<Rightarrow> bool" where
  "in_int64 i \<longleftrightarrow> - (2 ^ 63) \<le> i \<and> i < 2 ^ 63"

definition in_int32 :: "int \<Rightarrow> bool" where
  "in_int32 i \<longleftrightarrow> - (2 ^ 31) \<le> i \<and> i < 2 ^ 31"

definition checked64 :: "int \<Rightarrow> (int \<Rightarrow> 'a res) \<Rightarrow> 'a res" where
  "checked64 i f = (if in_int64 i then f i else Inl UndefinedBehaviour)"

definition Timestamp_new :: Timestamp where
  "Timestamp_new = Timestamp 0"

definition Timestamp_swap :: "Timestamp \<Rightarrow> Timestamp \<Rightarrow> Timestamp \<times> Timestamp" where
  "Timestamp_swap t that = (that, t)"

definition Timestamp_valid :: "Timestamp \<Rightarrow> bool" where
  "Timestamp_valid t \<longleftrightarrow> microSecondsSinceEpoch t > 0"

definition kMicroSecondsPerSecond :: int where
  "kMicroSecondsPerSecond = 1000 * 1000"

text \<open>Division truncates towards zero.\<close>

definition secondsSinceEpoch :: "Timestamp \<Rightarrow> int" where
  "secondsSinceEpoch t = microSecondsSinceEpoch t sdiv kMicroSecondsPerSecond"

definition Timestamp_invalid :: Timestamp where
  "Timestamp_invalid = Timestamp_new"

definition fromUnixTime_us :: "int \<Rightarrow> int \<Rightarrow> Timestamp res" where
  "fromUnixTime_us t microseconds =
     checked64 (t * kMicroSecondsPerSecond) (\<lambda>us.
     checked64 (us + microseconds) (\<lambda>v. Inr (Timestamp v)))"

definition fromUnixTime :: "int \<Rightarrow> Timestamp res" where
  "fromUnixTime t = fromUnixTime_us t 0"

instantiation Timestamp :: linorder
begin

definition less_Timestamp :: "Timestamp \<Rightarrow> Timestamp \<Rightarrow> bool" where
  "less_Timestamp lhs rhs \<longleftrightarrow> microSecondsSinceEpoch lhs < microSecondsSinceEpoch rhs"

definition less_eq_Timestamp :: "Timestamp \<Rightarrow> Timestamp \<Rightarrow> bool" where
  "less_eq_Timestamp lhs rhs \<longleftrightarrow> \<not> microSecondsSinceEpoch rhs < microSecondsSinceEpoch lhs"

instance
  by intro_classes (auto simp: less_Timestamp_def less_eq_Timestamp_def intro: Timestamp.expand)

end

definition Timestamp_eq :: "Timestamp \<Rightarrow> Timestamp \<Rightarrow> bool" where
  "Timestamp_eq lhs rhs \<longleftrightarrow> microSecondsSinceEpoch lhs = microSecondsSinceEpoch rhs"

definition Timestamp_lt :: "Timestamp \<Rightarrow> Timestamp \<Rightarrow> bool" where
  "Timestamp_lt lhs rhs \<longleftrightarrow> microSecondsSinceEpoch lhs < microSecondsSinceEpoch rhs"

lemma Timestamp_ops: "Timestamp_lt x y \<longleftrightarrow> x < y" "Timestamp_eq x y \<longleftrightarrow> x = y"
  by (auto simp: Timestamp_lt_def less_Timestamp_def Timestamp_eq_def intro: Timestamp.expand)

text \<open>A time in seconds and microseconds reads back its seconds, is valid after the epoch, and such times
  are ordered as the pairs of their seconds and microseconds: \<open>operator<\<close> is a total order.\<close>

theorem timestamp_roundtrip_order:
  assumes "0 \<le> t" "0 \<le> us" "us < 1000000" "0 \<le> t'" "0 \<le> us'" "us' < 1000000" "t < 2 ^ 43" "t' < 2 ^ 43"
  shows "\<exists>x y. fromUnixTime_us t us = Inr x \<and> fromUnixTime_us t' us' = Inr y
    \<and> secondsSinceEpoch x = t \<and> (Timestamp_valid x \<longleftrightarrow> 0 < t \<or> 0 < us)
    \<and> (Timestamp_lt x y \<longleftrightarrow> t < t' \<or> (t = t' \<and> us < us')) \<and> (Timestamp_lt x y \<or> Timestamp_eq x y \<or> Timestamp_lt y x)"
proof -
  have m: "fromUnixTime_us a b = Inr (Timestamp (a * 1000000 + b))" if "0 \<le> a" "0 \<le> b" "b < 1000000" "a < 2 ^ 43" for a b :: int
    using that by (simp add: fromUnixTime_us_def checked64_def in_int64_def kMicroSecondsPerSecond_def)
  have "(t * 1000000 + us) sdiv 1000000 = t"
    using assms(1-3) by (simp add: signed_divide_int_def sgn_if)
  then have "secondsSinceEpoch (Timestamp (t * 1000000 + us)) = t"
    by (simp add: secondsSinceEpoch_def kMicroSecondsPerSecond_def)
  moreover have "Timestamp_lt (Timestamp (t * 1000000 + us)) (Timestamp (t' * 1000000 + us')) \<longleftrightarrow> t < t' \<or> (t = t' \<and> us < us')"
    using assms by (auto simp: Timestamp_lt_def)
  moreover have "Timestamp_lt x y \<or> Timestamp_eq x y \<or> Timestamp_lt y x" for x y
    unfolding Timestamp_ops by auto
  ultimately show ?thesis using m [of t us] m [of t' us'] assms by (auto simp: Timestamp_valid_def)
qed

theorem timestamp_roundtrip_order_witness:
  "\<exists>x y. fromUnixTime_us 1745938451 7 = Inr x \<and> fromUnixTime_us 1745938451 8 = Inr y
    \<and> secondsSinceEpoch x = 1745938451 \<and> (Timestamp_valid x \<longleftrightarrow> (0 :: int) < 1745938451 \<or> (0 :: int) < 7)
    \<and> (Timestamp_lt x y \<longleftrightarrow> (1745938451 :: int) < 1745938451 \<or> ((1745938451 :: int) = 1745938451 \<and> (7 :: int) < 8))
    \<and> (Timestamp_lt x y \<or> Timestamp_eq x y \<or> Timestamp_lt y x)"
  by (rule timestamp_roundtrip_order) simp_all

section \<open>Date\<close>

datatype Date = Date (julianDayNumber: int)

definition kDaysPerWeek :: int where "kDaysPerWeek = 7"

definition Date_new :: Date where "Date_new = Date 0"

definition Date_swap :: "Date \<Rightarrow> Date \<Rightarrow> Date \<times> Date" where
  "Date_swap d that = (that, d)"

definition Date_valid :: "Date \<Rightarrow> bool" where
  "Date_valid d \<longleftrightarrow> julianDayNumber d > 0"

text \<open>\<open>%\<close> has the sign of its left operand.\<close>

definition weekDay :: "Date \<Rightarrow> int res" where
  "weekDay d =
     (if in_int32 (julianDayNumber d + 1) then Inr ((julianDayNumber d + 1) smod kDaysPerWeek)
      else Inl UndefinedBehaviour)"

record YearMonthDay =
  ymd_year :: int
  ymd_month :: int
  ymd_day :: int

text \<open>The conversion itself (\<^verbatim>\<open>yearMonthDay\<close>) is not in the header and is an argument.\<close>

definition Date_year :: "(Date \<Rightarrow> YearMonthDay) \<Rightarrow> Date \<Rightarrow> int" where "Date_year yearMonthDay d = ymd_year (yearMonthDay d)"

definition Date_month :: "(Date \<Rightarrow> YearMonthDay) \<Rightarrow> Date \<Rightarrow> int" where "Date_month yearMonthDay d = ymd_month (yearMonthDay d)"

definition Date_day :: "(Date \<Rightarrow> YearMonthDay) \<Rightarrow> Date \<Rightarrow> int" where "Date_day yearMonthDay d = ymd_day (yearMonthDay d)"

instantiation Date :: linorder
begin

definition less_Date :: "Date \<Rightarrow> Date \<Rightarrow> bool" where
  "less_Date x y \<longleftrightarrow> julianDayNumber x < julianDayNumber y"

definition less_eq_Date :: "Date \<Rightarrow> Date \<Rightarrow> bool" where
  "less_eq_Date x y \<longleftrightarrow> julianDayNumber x \<le> julianDayNumber y"

instance
  by intro_classes (auto simp: less_Date_def less_eq_Date_def intro: Date.expand)

end

definition Date_lt :: "Date \<Rightarrow> Date \<Rightarrow> bool" where
  "Date_lt x y \<longleftrightarrow> julianDayNumber x < julianDayNumber y"

definition Date_eq :: "Date \<Rightarrow> Date \<Rightarrow> bool" where
  "Date_eq x y \<longleftrightarrow> julianDayNumber x = julianDayNumber y"

text \<open>The week day of a valid date is between 0 and 6, and the next day's is the next one.\<close>

lemma weekDay_cycle:
  assumes "Date_valid d" "julianDayNumber d < 2 ^ 31 - 2"
  shows "\<exists>w. weekDay d = Inr w \<and> 0 \<le> w \<and> w \<le> 6 \<and> weekDay (Date (julianDayNumber d + 1)) = Inr ((w + 1) mod 7)"
proof -
  have s: "n smod 7 = n mod 7" if "0 < n" for n :: int
    using that by (simp add: signed_modulo_int_def signed_divide_int_def sgn_if minus_div_mult_eq_mod)
  have "weekDay d = Inr ((julianDayNumber d + 1) mod 7)"
    "weekDay (Date (julianDayNumber d + 1)) = Inr ((julianDayNumber d + 1 + 1) mod 7)"
    using assms s [of "julianDayNumber d + 1"] s [of "julianDayNumber d + 2"]
    by (simp_all add: weekDay_def in_int32_def Date_valid_def kDaysPerWeek_def ac_simps)
  then show ?thesis by (auto simp: mod_add_left_eq)
qed

end
