(* ===== verification/NetFlags.thy ===== *)
theory NetFlags
  imports Buffer Clock
begin

text \<open>
  The parts of \<^verbatim>\<open>include/muduo/net/Channel.h\<close>, \<^verbatim>\<open>TcpConnection.h\<close> and \<^verbatim>\<open>EventLoop.h\<close> that the
  headers define: the event mask of a channel with the poller updates it asks for, the states
  and accessors of a connection, and the thread check of a loop. Callbacks and contexts are
  values of any type; the event constants are those of \<^verbatim>\<open>poll\<close>, given as an argument.
\<close>

unbundle bit_operations_syntax

section \<open>Channel\<close>

record poll_flags =
  kNoneEvent :: u32
  kReadEvent :: u32
  kWriteEvent :: u32

record 'cb Channel =
  ch_fd :: int
  ch_events :: u32
  ch_revents :: u32
  ch_index :: int
  ch_logHup :: bool
  ch_readCallback :: "'cb option"
  ch_writeCallback :: "'cb option"
  ch_closeCallback :: "'cb option"
  ch_errorCallback :: "'cb option"
  ch_updates :: "u32 list"

definition setReadCallback :: "'cb Channel \<Rightarrow> 'cb \<Rightarrow> 'cb Channel" where
  "setReadCallback c cb = c\<lparr>ch_readCallback := Some cb\<rparr>"

definition setWriteCallback :: "'cb Channel \<Rightarrow> 'cb \<Rightarrow> 'cb Channel" where
  "setWriteCallback c cb = c\<lparr>ch_writeCallback := Some cb\<rparr>"

definition setCloseCallback :: "'cb Channel \<Rightarrow> 'cb \<Rightarrow> 'cb Channel" where
  "setCloseCallback c cb = c\<lparr>ch_closeCallback := Some cb\<rparr>"

definition setErrorCallback :: "'cb Channel \<Rightarrow> 'cb \<Rightarrow> 'cb Channel" where
  "setErrorCallback c cb = c\<lparr>ch_errorCallback := Some cb\<rparr>"

definition set_revents :: "'cb Channel \<Rightarrow> u32 \<Rightarrow> 'cb Channel" where
  "set_revents c revt = c\<lparr>ch_revents := revt\<rparr>"

text \<open>\<open>update\<close> hands the channel's mask to the poller: the masks handed over, in order.\<close>

definition ch_update :: "'cb Channel \<Rightarrow> 'cb Channel" where
  "ch_update c = c\<lparr>ch_updates := ch_updates c @ [ch_events c]\<rparr>"

definition isNoneEvent :: "poll_flags \<Rightarrow> 'cb Channel \<Rightarrow> bool" where
  "isNoneEvent k c \<longleftrightarrow> ch_events c = kNoneEvent k"

definition enableReading :: "poll_flags \<Rightarrow> 'cb Channel \<Rightarrow> 'cb Channel" where
  "enableReading k c = ch_update (c\<lparr>ch_events := ch_events c OR kReadEvent k\<rparr>)"

definition disableReading :: "poll_flags \<Rightarrow> 'cb Channel \<Rightarrow> 'cb Channel" where
  "disableReading k c = ch_update (c\<lparr>ch_events := ch_events c AND NOT (kReadEvent k)\<rparr>)"

definition enableWriting :: "poll_flags \<Rightarrow> 'cb Channel \<Rightarrow> 'cb Channel" where
  "enableWriting k c = ch_update (c\<lparr>ch_events := ch_events c OR kWriteEvent k\<rparr>)"

definition disableWriting :: "poll_flags \<Rightarrow> 'cb Channel \<Rightarrow> 'cb Channel" where
  "disableWriting k c = ch_update (c\<lparr>ch_events := ch_events c AND NOT (kWriteEvent k)\<rparr>)"

definition disableAll :: "poll_flags \<Rightarrow> 'cb Channel \<Rightarrow> 'cb Channel" where
  "disableAll k c = ch_update (c\<lparr>ch_events := kNoneEvent k\<rparr>)"

definition isWriting :: "poll_flags \<Rightarrow> 'cb Channel \<Rightarrow> bool" where
  "isWriting k c \<longleftrightarrow> ch_events c AND kWriteEvent k \<noteq> 0"

definition isReading :: "poll_flags \<Rightarrow> 'cb Channel \<Rightarrow> bool" where
  "isReading k c \<longleftrightarrow> ch_events c AND kReadEvent k \<noteq> 0"

definition set_index :: "'cb Channel \<Rightarrow> int \<Rightarrow> 'cb Channel" where
  "set_index c idx = c\<lparr>ch_index := idx\<rparr>"

definition doNotLogHup :: "'cb Channel \<Rightarrow> 'cb Channel" where
  "doNotLogHup c = c\<lparr>ch_logHup := False\<rparr>"

text \<open>The calls on a channel and, as the specification, what each leaves switched on.\<close>

datatype channel_call = EnableReading | DisableReading | EnableWriting | DisableWriting | DisableAll

fun channel_step :: "poll_flags \<Rightarrow> 'cb Channel \<Rightarrow> channel_call \<Rightarrow> 'cb Channel" where
  "channel_step k c EnableReading = enableReading k c"
| "channel_step k c DisableReading = disableReading k c"
| "channel_step k c EnableWriting = enableWriting k c"
| "channel_step k c DisableWriting = disableWriting k c"
| "channel_step k c DisableAll = disableAll k c"

fun switch :: "bool \<times> bool \<Rightarrow> channel_call \<Rightarrow> bool \<times> bool" where
  "switch (r, w) EnableReading = (True, w)"
| "switch (r, w) DisableReading = (False, w)"
| "switch (r, w) EnableWriting = (r, True)"
| "switch (r, w) DisableWriting = (r, False)"
| "switch (r, w) DisableAll = (False, False)"

text \<open>The read and write events are different bits, and no event is none of them.\<close>

definition flags_ok :: "poll_flags \<Rightarrow> bool" where
  "flags_ok k \<longleftrightarrow> kNoneEvent k = 0 \<and> kReadEvent k \<noteq> 0 \<and> kWriteEvent k \<noteq> 0 \<and> kReadEvent k AND kWriteEvent k = 0"

definition event_mask :: "poll_flags \<Rightarrow> bool \<times> bool \<Rightarrow> u32" where
  "event_mask k rw = (if fst rw then kReadEvent k else 0) OR (if snd rw then kWriteEvent k else 0)"

lemma flags_disjoint: "flags_ok k \<Longrightarrow> \<not> (bit (kReadEvent k) n \<and> bit (kWriteEvent k) n)"
  by (metis bit_0_eq bit_and_iff bot_apply bot_bool_def flags_ok_def)

lemma channel_step_mask:
  assumes "flags_ok k" "ch_events c = event_mask k rw"
  shows "ch_events (channel_step k c call) = event_mask k (switch rw call)"
proof (rule bit_word_eqI)
  fix n
  have n: "kNoneEvent k = 0" using assms(1) by (simp add: flags_ok_def)
  show "bit (ch_events (channel_step k c call)) n = bit (event_mask k (switch rw call)) n" if "n < LENGTH(32)"
    using flags_disjoint [OF assms(1), of n] assms(2) n that
    by (cases rw; cases call)
      (auto simp: enableReading_def disableReading_def enableWriting_def disableWriting_def disableAll_def ch_update_def
        event_mask_def bit_simps)
qed

lemma event_mask_flags:
  assumes "flags_ok k"
  shows "event_mask k rw AND kReadEvent k \<noteq> 0 \<longleftrightarrow> fst rw" "event_mask k rw AND kWriteEvent k \<noteq> 0 \<longleftrightarrow> snd rw"
    "event_mask k rw = 0 \<longleftrightarrow> rw = (False, False)"
proof -
  have d: "kReadEvent k AND kWriteEvent k = 0" "kWriteEvent k AND kReadEvent k = 0"
    and nz: "kReadEvent k \<noteq> 0" "kWriteEvent k \<noteq> 0" using assms by (simp_all add: flags_ok_def and.commute)
  have o: "kReadEvent k OR kWriteEvent k \<noteq> 0" using nz by (simp add: or_eq_0_iff)
  show "event_mask k rw AND kReadEvent k \<noteq> 0 \<longleftrightarrow> fst rw" "event_mask k rw AND kWriteEvent k \<noteq> 0 \<longleftrightarrow> snd rw"
    "event_mask k rw = 0 \<longleftrightarrow> rw = (False, False)"
    using d nz o by (cases rw; auto simp: event_mask_def bit.conj_disj_distrib2)+
qed

text \<open>After any sequence of enabling and disabling calls on a channel that starts with no event, the
  mask is exactly the switched-on events, the queries answer so, and every change was handed to
  the poller, the last one being the current mask.\<close>

theorem channel_mask_tracks_calls:
  assumes "flags_ok k" "ch_events c = kNoneEvent k" "calls \<noteq> []"
  shows "let c' = foldl (channel_step k) c calls; rw = foldl switch (False, False) calls in
    isReading k c' = fst rw \<and> isWriting k c' = snd rw \<and> (isNoneEvent k c' \<longleftrightarrow> rw = (False, False))
    \<and> length (ch_updates c') = length (ch_updates c) + length calls \<and> last (ch_updates c') = ch_events c'"
proof -
  have none: "kNoneEvent k = 0" using assms(1) by (simp add: flags_ok_def)
  have m: "ch_events (foldl (channel_step k) c calls) = event_mask k (foldl switch (False, False) calls)"
  proof (induction calls rule: rev_induct)
    case Nil
    then show ?case using assms(2) none by (simp add: event_mask_def)
  next
    case (snoc x xs)
    then show ?case using channel_step_mask [OF assms(1)] by simp
  qed
  have upd: "ch_updates (channel_step k d x) = ch_updates d @ [ch_events (channel_step k d x)]" for d x
    by (cases x) (simp_all add: enableReading_def disableReading_def enableWriting_def disableWriting_def
        disableAll_def ch_update_def)
  have l: "length (ch_updates (foldl (channel_step k) c calls)) = length (ch_updates c) + length calls"
    by (induction calls rule: rev_induct) (simp_all add: upd)
  obtain xs x where "calls = xs @ [x]" using assms(3) by (metis rev_exhaust)
  then have "last (ch_updates (foldl (channel_step k) c calls)) = ch_events (foldl (channel_step k) c calls)"
    by (simp add: upd)
  then show ?thesis
    using m l none by (simp add: Let_def isReading_def isWriting_def isNoneEvent_def event_mask_flags [OF assms(1)])
qed

definition demo_channel :: "unit Channel" where
  "demo_channel = \<lparr>ch_fd = 3, ch_events = 0, ch_revents = 0, ch_index = - 1, ch_logHup = True, ch_readCallback = None,
     ch_writeCallback = None, ch_closeCallback = None, ch_errorCallback = None, ch_updates = []\<rparr>"

definition poll_h :: poll_flags where
  "poll_h = \<lparr>kNoneEvent = 0, kReadEvent = 3, kWriteEvent = 4\<rparr>"

theorem channel_mask_tracks_calls_witness:
  "let c' = foldl (channel_step poll_h) demo_channel [EnableReading, EnableWriting, DisableReading];
       rw = foldl switch (False, False) [EnableReading, EnableWriting, DisableReading] in
    isReading poll_h c' = fst rw \<and> isWriting poll_h c' = snd rw \<and> (isNoneEvent poll_h c' \<longleftrightarrow> rw = (False, False))
    \<and> length (ch_updates c') = length (ch_updates demo_channel) + length [EnableReading, EnableWriting, DisableReading]
    \<and> last (ch_updates c') = ch_events c'"
  by (rule channel_mask_tracks_calls) (simp_all add: flags_ok_def poll_h_def demo_channel_def)

section \<open>TcpConnection\<close>

datatype StateE = kDisconnected | kConnecting | kConnected | kDisconnecting

record ('cb, 'ctx) TcpConnection =
  tc_name :: string
  tc_state :: StateE
  tc_reading :: bool
  tc_connectionCallback :: "'cb option"
  tc_messageCallback :: "'cb option"
  tc_writeCompleteCallback :: "'cb option"
  tc_highWaterMarkCallback :: "'cb option"
  tc_closeCallback :: "'cb option"
  tc_highWaterMark :: nat
  tc_inputBuffer :: Buffer
  tc_outputBuffer :: Buffer
  tc_context :: "'ctx option"

definition tc_connected :: "('cb, 'ctx) TcpConnection \<Rightarrow> bool" where
  "tc_connected c \<longleftrightarrow> tc_state c = kConnected"

definition tc_disconnected :: "('cb, 'ctx) TcpConnection \<Rightarrow> bool" where
  "tc_disconnected c \<longleftrightarrow> tc_state c = kDisconnected"

definition tc_isReading :: "('cb, 'ctx) TcpConnection \<Rightarrow> bool" where
  "tc_isReading c = tc_reading c"

definition tc_setContext :: "('cb, 'ctx) TcpConnection \<Rightarrow> 'ctx \<Rightarrow> ('cb, 'ctx) TcpConnection" where
  "tc_setContext c context' = c\<lparr>tc_context := Some context'\<rparr>"

definition tc_getContext :: "('cb, 'ctx) TcpConnection \<Rightarrow> 'ctx option" where
  "tc_getContext c = tc_context c"

definition tc_setConnectionCallback :: "('cb, 'ctx) TcpConnection \<Rightarrow> 'cb \<Rightarrow> ('cb, 'ctx) TcpConnection" where
  "tc_setConnectionCallback c cb = c\<lparr>tc_connectionCallback := Some cb\<rparr>"

definition tc_setMessageCallback :: "('cb, 'ctx) TcpConnection \<Rightarrow> 'cb \<Rightarrow> ('cb, 'ctx) TcpConnection" where
  "tc_setMessageCallback c cb = c\<lparr>tc_messageCallback := Some cb\<rparr>"

definition tc_setWriteCompleteCallback :: "('cb, 'ctx) TcpConnection \<Rightarrow> 'cb \<Rightarrow> ('cb, 'ctx) TcpConnection" where
  "tc_setWriteCompleteCallback c cb = c\<lparr>tc_writeCompleteCallback := Some cb\<rparr>"

definition tc_setHighWaterMarkCallback :: "('cb, 'ctx) TcpConnection \<Rightarrow> 'cb \<Rightarrow> nat \<Rightarrow> ('cb, 'ctx) TcpConnection" where
  "tc_setHighWaterMarkCallback c cb mark = c\<lparr>tc_highWaterMarkCallback := Some cb, tc_highWaterMark := mark\<rparr>"

definition tc_setCloseCallback :: "('cb, 'ctx) TcpConnection \<Rightarrow> 'cb \<Rightarrow> ('cb, 'ctx) TcpConnection" where
  "tc_setCloseCallback c cb = c\<lparr>tc_closeCallback := Some cb\<rparr>"

definition tc_setState :: "('cb, 'ctx) TcpConnection \<Rightarrow> StateE \<Rightarrow> ('cb, 'ctx) TcpConnection" where
  "tc_setState c s = c\<lparr>tc_state := s\<rparr>"

lemma tc_state_after: "tc_connected (tc_setState c s) \<longleftrightarrow> s = kConnected" "tc_disconnected (tc_setState c s) \<longleftrightarrow> s = kDisconnected"
  by (simp_all add: tc_connected_def tc_disconnected_def tc_setState_def)

section \<open>EventLoop\<close>

record 'ctx EventLoop =
  el_threadId :: int
  el_iteration :: int
  el_eventHandling :: bool
  el_pollReturnTime :: Timestamp
  el_context :: "'ctx option"

definition isInLoopThread :: "int \<Rightarrow> 'ctx EventLoop \<Rightarrow> bool" where
  "isInLoopThread tid l \<longleftrightarrow> el_threadId l = tid"

text \<open>\<open>abortNotInLoopThread\<close> ends the process.\<close>

definition assertInLoopThread :: "int \<Rightarrow> 'ctx EventLoop \<Rightarrow> unit res" where
  "assertInLoopThread tid l = (if \<not> isInLoopThread tid l then Inl ExitProcess else Inr ())"

definition el_setContext :: "'ctx EventLoop \<Rightarrow> 'ctx \<Rightarrow> 'ctx EventLoop" where
  "el_setContext l context' = l\<lparr>el_context := Some context'\<rparr>"

definition el_getContext :: "'ctx EventLoop \<Rightarrow> 'ctx option" where
  "el_getContext l = el_context l"

end
