(* ===== verification/Handles.thy ===== *)
theory Handles
  imports Servers UMap
begin

text \<open>
  The small classes of \<^verbatim>\<open>include/muduo\<close> whose headers define some members and only declare the rest: the asynchronous
  logger's life, threads and pools, times and timers, addresses, exceptions, and the HTTP and RPC servers that stand on
  a \<open>TcpServer\<close>. What is only declared is in the binary library; where a member calls it, that call is
  kept with the object, in order.
\<close>

section \<open>AsyncLogging.h\<close>

datatype logging_call = ThreadStart | LatchWait | CondNotify | ThreadJoin

record AsyncLogging =
  al_running :: bool
  al_basename :: string
  al_rollSize :: int
  al_flushInterval :: int
  al_calls :: "logging_call list"

definition al_called :: "logging_call \<Rightarrow> AsyncLogging \<Rightarrow> AsyncLogging" where
  "al_called c l = l\<lparr>al_calls := al_calls l @ [c]\<rparr>"

definition AsyncLogging_start :: "AsyncLogging \<Rightarrow> AsyncLogging" where
  "AsyncLogging_start l = al_called LatchWait (al_called ThreadStart (l\<lparr>al_running := True\<rparr>))"

definition AsyncLogging_stop :: "AsyncLogging \<Rightarrow> AsyncLogging" where
  "AsyncLogging_stop l = al_called ThreadJoin (al_called CondNotify (l\<lparr>al_running := False\<rparr>))"

definition AsyncLogging_delete :: "AsyncLogging \<Rightarrow> AsyncLogging" where
  "AsyncLogging_delete l = (if al_running l then AsyncLogging_stop l else l)"

text \<open>
  Used as its interface suggests, started and stopped in turn, the logger joins its thread as often
  as it started it when it is destroyed, whether it was stopped before or not.
\<close>

fun logging_turns :: "bool list \<Rightarrow> AsyncLogging \<Rightarrow> AsyncLogging" where
  "logging_turns [] l = l"
| "logging_turns (start # ts) l =
     logging_turns ts (if start = al_running l then l else if start then AsyncLogging_start l else AsyncLogging_stop l)"

lemma logging_turns_count:
  assumes "count_list (al_calls l) ThreadStart = count_list (al_calls l) ThreadJoin + (if al_running l then 1 else 0)"
  shows "let l' = AsyncLogging_delete (logging_turns ts l) in
    \<not> al_running l' \<and> count_list (al_calls l') ThreadStart = count_list (al_calls l') ThreadJoin"
  using assms
proof (induction ts arbitrary: l)
  case Nil
  then show ?case by (simp add: AsyncLogging_delete_def AsyncLogging_stop_def al_called_def)
next
  case (Cons start ts)
  show ?case unfolding logging_turns.simps
    by (rule Cons.IH) (use Cons.prems in \<open>auto simp: AsyncLogging_start_def AsyncLogging_stop_def al_called_def\<close>)
qed

section \<open>Thread.h, ThreadPool.h, EventLoopThreadPool.h\<close>

record Thread =
  th_started :: bool
  th_joined :: bool
  th_tid :: int
  th_name :: string

definition Thread_started :: "Thread \<Rightarrow> bool" where "Thread_started t = th_started t"

definition Thread_tid :: "Thread \<Rightarrow> int" where "Thread_tid t = th_tid t"

definition Thread_name :: "Thread \<Rightarrow> string" where "Thread_name t = th_name t"

record 'f ThreadPool =
  tp_name :: string
  tp_threadInitCallback :: "'f option"
  tp_queue :: "'f list"
  tp_maxQueueSize :: u64
  tp_running :: bool

text \<open>The size is an \<^verbatim>\<open>int\<close> kept as a \<^verbatim>\<open>size_t\<close>: a negative one is a very large one.\<close>

definition ThreadPool_setMaxQueueSize :: "int \<Rightarrow> 'f ThreadPool \<Rightarrow> 'f ThreadPool" where
  "ThreadPool_setMaxQueueSize maxSize p = p\<lparr>tp_maxQueueSize := of_int maxSize\<rparr>"

definition ThreadPool_setThreadInitCallback :: "'f \<Rightarrow> 'f ThreadPool \<Rightarrow> 'f ThreadPool" where
  "ThreadPool_setThreadInitCallback cb p = p\<lparr>tp_threadInitCallback := Some cb\<rparr>"

definition ThreadPool_name :: "'f ThreadPool \<Rightarrow> string" where "ThreadPool_name p = tp_name p"

lemma negative_queue_is_large:
  assumes "- (2 ^ 31) \<le> n" "n < 0"
  shows "uint (tp_maxQueueSize (ThreadPool_setMaxQueueSize n p)) = 2 ^ 64 + n"
proof -
  have "uint (of_int n :: u64) = n mod 2 ^ 64" by (simp add: unsigned_of_int take_bit_eq_mod)
  also have "n mod 2 ^ 64 = (n + 2 ^ 64) mod 2 ^ 64" by simp
  also have "\<dots> = n + 2 ^ 64" using assms by (intro mod_pos_pos_trivial) simp_all
  finally show ?thesis by (simp add: ThreadPool_setMaxQueueSize_def)
qed

record EventLoopThreadPool =
  ep_name :: string
  ep_started :: bool
  ep_numThreads :: int
  ep_next :: int

definition EventLoopThreadPool_setThreadNum :: "int \<Rightarrow> EventLoopThreadPool \<Rightarrow> EventLoopThreadPool" where
  "EventLoopThreadPool_setThreadNum numThreads p = p\<lparr>ep_numThreads := numThreads\<rparr>"

definition EventLoopThreadPool_started :: "EventLoopThreadPool \<Rightarrow> bool" where
  "EventLoopThreadPool_started p = ep_started p"

definition EventLoopThreadPool_name :: "EventLoopThreadPool \<Rightarrow> string" where
  "EventLoopThreadPool_name p = ep_name p"

section \<open>TimeZone.h, TimerId.h\<close>

record DateTime =
  dt_year :: int
  dt_month :: int
  dt_day :: int
  dt_hour :: int
  dt_minute :: int
  dt_second :: int

definition DateTime_new :: DateTime where
  "DateTime_new = \<lparr>dt_year = 0, dt_month = 0, dt_day = 0, dt_hour = 0, dt_minute = 0, dt_second = 0\<rparr>"

definition DateTime_of :: "int \<Rightarrow> int \<Rightarrow> int \<Rightarrow> int \<Rightarrow> int \<Rightarrow> int \<Rightarrow> DateTime" where
  "DateTime_of year month day hour minute second =
     \<lparr>dt_year = year, dt_month = month, dt_day = day, dt_hour = hour, dt_minute = minute, dt_second = second\<rparr>"

text \<open>A time zone is its table, which a default-constructed one does not have.\<close>

definition TimeZone_new :: "'d option" where "TimeZone_new = None"

definition TimeZone_valid :: "'d option \<Rightarrow> bool" where "TimeZone_valid tz \<longleftrightarrow> tz \<noteq> None"

record 't TimerId =
  ti_timer :: "'t option"
  ti_sequence :: int

definition TimerId_new :: "'t TimerId" where "TimerId_new = \<lparr>ti_timer = None, ti_sequence = 0\<rparr>"

definition TimerId_of :: "'t \<Rightarrow> int \<Rightarrow> 't TimerId" where
  "TimerId_of timer seq = \<lparr>ti_timer = Some timer, ti_sequence = seq\<rparr>"

section \<open>Exception.h, CurrentThread.h\<close>

record Exception =
  exc_message :: string
  exc_stack :: string

text \<open>\<^verbatim>\<open>c_str\<close>: a reader sees the string up to its first NUL.\<close>

definition Exception_what :: "Exception \<Rightarrow> string" where "Exception_what e = cstr (exc_message e)"

definition Exception_stackTrace :: "Exception \<Rightarrow> string" where "Exception_stackTrace e = cstr (exc_stack e)"

section \<open>InetAddress.h\<close>

text \<open>
  The union of the two socket addresses: family and port lie at the same place in both, so they are read back
  whichever was written. The rest is bytes.
\<close>

record sockaddr =
  sa_family :: u16
  sa_port :: u16
  sa_rest :: string

record InetAddress =
  ia_addr :: sockaddr

definition InetAddress_of :: "sockaddr \<Rightarrow> InetAddress" where "InetAddress_of addr = \<lparr>ia_addr = addr\<rparr>"

definition InetAddress_of6 :: "sockaddr \<Rightarrow> InetAddress" where "InetAddress_of6 addr = \<lparr>ia_addr = addr\<rparr>"

definition InetAddress_family :: "InetAddress \<Rightarrow> u16" where "InetAddress_family a = sa_family (ia_addr a)"

definition InetAddress_portNetEndian :: "InetAddress \<Rightarrow> u16" where
  "InetAddress_portNetEndian a = sa_port (ia_addr a)"

definition setSockAddrInet6 :: "sockaddr \<Rightarrow> InetAddress \<Rightarrow> InetAddress" where
  "setSockAddrInet6 addr6 a = a\<lparr>ia_addr := addr6\<rparr>"

section \<open>HttpServer.h, RpcServer.h, RpcChannel.h\<close>

record ('cb, 'h) HttpServer =
  hs_server :: "'cb TcpServer"
  hs_httpCallback :: "'h option"

definition HttpServer_setHttpCallback :: "'h \<Rightarrow> ('cb, 'h) HttpServer \<Rightarrow> ('cb, 'h) HttpServer" where
  "HttpServer_setHttpCallback cb s = s\<lparr>hs_httpCallback := Some cb\<rparr>"

definition HttpServer_setThreadNum :: "nat \<Rightarrow> ('cb, 'h) HttpServer \<Rightarrow> ('cb, 'h) HttpServer" where
  "HttpServer_setThreadNum numThreads s = s\<lparr>hs_server := server_called (SetThreadNum numThreads) (hs_server s)\<rparr>"

record ('cb, 's) RpcServer =
  rs_server :: "'cb TcpServer"
  rs_services :: "(string \<times> 's) list"

definition RpcServer_setThreadNum :: "nat \<Rightarrow> ('cb, 's) RpcServer \<Rightarrow> ('cb, 's) RpcServer" where
  "RpcServer_setThreadNum numThreads s = s\<lparr>rs_server := server_called (SetThreadNum numThreads) (rs_server s)\<rparr>"

text \<open>The calls of a channel that wait for their answer, by number: their response and what to run when it is there.\<close>

record ('r, 'd) OutstandingCall =
  oc_response :: 'r
  oc_done :: 'd

record ('c, 's, 'r, 'd) RpcChannel =
  rch_conn :: "'c option"
  rch_id :: u64
  rch_outstandings :: "(int, ('r, 'd) OutstandingCall) umap"
  rch_services :: "'s option"

definition RpcChannel_setConnection :: "'c \<Rightarrow> ('c, 's, 'r, 'd) RpcChannel \<Rightarrow> ('c, 's, 'r, 'd) RpcChannel" where
  "RpcChannel_setConnection conn ch = ch\<lparr>rch_conn := Some conn\<rparr>"

definition RpcChannel_setServices :: "'s \<Rightarrow> ('c, 's, 'r, 'd) RpcChannel \<Rightarrow> ('c, 's, 'r, 'd) RpcChannel" where
  "RpcChannel_setServices services ch = ch\<lparr>rch_services := Some services\<rparr>"

end
