(* ===== verification/Sync.thy ===== *)
theory Sync
  imports Prelude
begin

text \<open>
  \<^verbatim>\<open>include/muduo/base/Mutex.h\<close>, \<^verbatim>\<open>Singleton.h\<close>, \<^verbatim>\<open>ThreadLocalSingleton.h\<close>, \<^verbatim>\<open>ThreadLocal.h\<close>
  and \<^verbatim>\<open>WeakCallback.h\<close>, with what \<^verbatim>\<open>Condition.h\<close> and \<^verbatim>\<open>CurrentThread.h\<close> do for the mutex. The mutex keeps the id of its holder beside the \<^verbatim>\<open>pthread\<close> mutex;
  the two are written in separate steps, so the threads are interleaved step by step. Thread
  ids are positive, 0 is no thread.
\<close>

section \<open>MutexLock\<close>

record MutexLock =
  mx_mutex :: "nat option"
  mx_holder :: nat

definition MutexLock_new :: MutexLock where
  "MutexLock_new = \<lparr>mx_mutex = None, mx_holder = 0\<rparr>"

definition MutexLock_delete :: "MutexLock \<Rightarrow> unit res" where
  "MutexLock_delete m = (if mx_holder m = 0 then Inr () else Inl AssertFailed)"

definition isLockedByThisThread :: "nat \<Rightarrow> MutexLock \<Rightarrow> bool" where
  "isLockedByThisThread tid m \<longleftrightarrow> mx_holder m = tid"

definition assertLocked :: "nat \<Rightarrow> MutexLock \<Rightarrow> unit res" where
  "assertLocked tid m = (if isLockedByThisThread tid m then Inr () else Inl AssertFailed)"

definition assignHolder :: "nat \<Rightarrow> MutexLock \<Rightarrow> MutexLock" where
  "assignHolder tid m = m\<lparr>mx_holder := tid\<rparr>"

definition unassignHolder :: "MutexLock \<Rightarrow> MutexLock" where
  "unassignHolder m = m\<lparr>mx_holder := 0\<rparr>"

text \<open>The \<^verbatim>\<open>pthread\<close> mutex: \<open>None\<close> where the caller blocks.\<close>

definition pthread_lock :: "nat \<Rightarrow> MutexLock \<Rightarrow> MutexLock option" where
  "pthread_lock tid m = (if mx_mutex m = None then Some (m\<lparr>mx_mutex := Some tid\<rparr>) else None)"

definition pthread_unlock :: "MutexLock \<Rightarrow> MutexLock" where
  "pthread_unlock m = m\<lparr>mx_mutex := None\<rparr>"

text \<open>\<open>lock\<close> and \<open>unlock\<close> as their callers see them; a guard is the one and then the other.\<close>

definition MutexLock_lock :: "nat \<Rightarrow> MutexLock \<Rightarrow> MutexLock option" where
  "MutexLock_lock tid m = map_option (assignHolder tid) (pthread_lock tid m)"

definition MutexLock_unlock :: "MutexLock \<Rightarrow> MutexLock" where
  "MutexLock_unlock m = pthread_unlock (unassignHolder m)"

definition with_guard :: "nat \<Rightarrow> (MutexLock \<Rightarrow> 'a) \<Rightarrow> MutexLock \<Rightarrow> ('a \<times> MutexLock) option" where
  "with_guard tid body m = map_option (\<lambda>m. (body m, MutexLock_unlock m)) (MutexLock_lock tid m)"

text \<open>
  \<open>CurrentThread::tid\<close> keeps the id of the thread: the cached number and, if it is 0, the call of the
  binary library's \<open>cacheTid\<close>, which is an argument. The result and what is cached then.
\<close>

definition current_tid :: "(nat \<Rightarrow> nat) \<Rightarrow> nat \<Rightarrow> nat \<times> nat" where
  "current_tid cacheTid t_cachedTid =
     (let t_cachedTid = (if t_cachedTid = 0 then cacheTid t_cachedTid else t_cachedTid) in (t_cachedTid, t_cachedTid))"

text \<open>\<open>UnassignGuard\<close> and \<open>Condition::wait\<close>: \<open>others\<close> is what happens to the mutex while the thread sleeps.\<close>

definition UnassignGuard_new :: "MutexLock \<Rightarrow> MutexLock" where
  "UnassignGuard_new owner = unassignHolder owner"

definition UnassignGuard_delete :: "nat \<Rightarrow> MutexLock \<Rightarrow> MutexLock" where
  "UnassignGuard_delete tid owner = assignHolder tid owner"

definition Condition_wait :: "nat \<Rightarrow> (MutexLock \<Rightarrow> MutexLock) \<Rightarrow> MutexLock \<Rightarrow> MutexLock option" where
  "Condition_wait tid others m =
     map_option (UnassignGuard_delete tid) (pthread_lock tid (others (pthread_unlock (UnassignGuard_new m))))"

text \<open>
  Where a thread is: outside, past \<^verbatim>\<open>pthread_mutex_lock\<close> and before \<open>assignHolder\<close>, inside its
  critical section, past \<open>unassignHolder\<close> and before the unlock, past the \<open>UnassignGuard\<close> of a
  condition's wait, or asleep in that wait.
\<close>

datatype mutex_pc = MOutside | MAcquired | MHeld | MReleasing | MWaiting | MAsleep

record mutex_sys =
  ms_lock :: MutexLock
  ms_pc :: "nat \<Rightarrow> mutex_pc"

inductive mutex_step :: "mutex_sys \<Rightarrow> mutex_sys \<Rightarrow> bool" where
  mx_lock: "0 < t \<Longrightarrow> ms_pc s t = MOutside \<Longrightarrow> pthread_lock t (ms_lock s) = Some m \<Longrightarrow>
     mutex_step s (s\<lparr>ms_lock := m, ms_pc := (ms_pc s)(t := MAcquired)\<rparr>)"
| mx_assign: "ms_pc s t = MAcquired \<Longrightarrow>
     mutex_step s (s\<lparr>ms_lock := assignHolder t (ms_lock s), ms_pc := (ms_pc s)(t := MHeld)\<rparr>)"
| mx_unassign: "ms_pc s t = MHeld \<Longrightarrow>
     mutex_step s (s\<lparr>ms_lock := unassignHolder (ms_lock s), ms_pc := (ms_pc s)(t := MReleasing)\<rparr>)"
| mx_unlock: "ms_pc s t = MReleasing \<Longrightarrow>
     mutex_step s (s\<lparr>ms_lock := pthread_unlock (ms_lock s), ms_pc := (ms_pc s)(t := MOutside)\<rparr>)"
| mx_wait: "ms_pc s t = MHeld \<Longrightarrow>
     mutex_step s (s\<lparr>ms_lock := unassignHolder (ms_lock s), ms_pc := (ms_pc s)(t := MWaiting)\<rparr>)"
| mx_sleep: "ms_pc s t = MWaiting \<Longrightarrow>
     mutex_step s (s\<lparr>ms_lock := pthread_unlock (ms_lock s), ms_pc := (ms_pc s)(t := MAsleep)\<rparr>)"
| mx_wake: "ms_pc s t = MAsleep \<Longrightarrow> pthread_lock t (ms_lock s) = Some m \<Longrightarrow>
     mutex_step s (s\<lparr>ms_lock := m, ms_pc := (ms_pc s)(t := MAcquired)\<rparr>)"

definition mutex_init :: mutex_sys where
  "mutex_init = \<lparr>ms_lock = MutexLock_new, ms_pc = (\<lambda>_. MOutside)\<rparr>"

definition mutex_inv :: "mutex_sys \<Rightarrow> bool" where
  "mutex_inv s \<longleftrightarrow>
     (\<forall>t. mx_mutex (ms_lock s) = Some t \<longleftrightarrow> ms_pc s t \<in> {MAcquired, MHeld, MReleasing, MWaiting})
     \<and> (\<forall>t. 0 < t \<longrightarrow> (mx_holder (ms_lock s) = t \<longleftrightarrow> ms_pc s t = MHeld)) \<and> ms_pc s 0 = MOutside"

lemmas mutex_defs = pthread_lock_def pthread_unlock_def assignHolder_def unassignHolder_def

lemma mutex_inv_init: "mutex_inv mutex_init"
  by (simp add: mutex_inv_def mutex_init_def MutexLock_new_def)

lemma mutex_inv_owner: "mutex_inv s \<Longrightarrow> ms_pc s t \<in> {MAcquired, MHeld, MReleasing, MWaiting} \<Longrightarrow>
    ms_pc s u \<in> {MAcquired, MHeld, MReleasing, MWaiting} \<Longrightarrow> t = u"
  unfolding mutex_inv_def by (metis option.inject)

lemma mutex_inv_holder: "mutex_inv s \<Longrightarrow> mx_holder (ms_lock s) = 0 \<or> ms_pc s (mx_holder (ms_lock s)) = MHeld"
  by (auto simp: mutex_inv_def)

lemma mutex_inv_pos: "mutex_inv s \<Longrightarrow> ms_pc s t \<noteq> MOutside \<Longrightarrow> 0 < t"
  unfolding mutex_inv_def by (cases t) auto

lemma mutex_inv_step:
  assumes "mutex_step s s'" "mutex_inv s"
  shows "mutex_inv s'"
  using assms(1)
proof cases
  case (mx_lock t m)
  with assms(2) mutex_inv_holder [OF assms(2)] show ?thesis by (auto simp: mutex_inv_def mutex_defs split: if_splits)
next
  case (mx_assign t)
  have "t \<noteq> 0" using mx_assign(2) assms(2) unfolding mutex_inv_def by (metis mutex_pc.distinct(1))
  with mx_assign assms(2) mutex_inv_owner [OF assms(2), of t] show ?thesis
    by (auto simp: mutex_inv_def mutex_defs split: if_splits)
next
  case (mx_wake t m)
  have "0 < t" using mx_wake(2) assms(2) unfolding mutex_inv_def by (cases t) auto
  with mx_wake assms(2) mutex_inv_holder [OF assms(2)] show ?thesis by (auto simp: mutex_inv_def mutex_defs split: if_splits)
qed (use assms(2) mutex_inv_owner [OF assms(2)] mutex_inv_pos [OF assms(2)] in \<open>auto simp: mutex_inv_def mutex_defs split: if_splits\<close>)

lemma mutex_inv_reach: "mutex_step\<^sup>*\<^sup>* mutex_init s \<Longrightarrow> mutex_inv s"
  by (induction rule: rtranclp_induct) (auto intro: mutex_inv_init mutex_inv_step)

text \<open>C40. In every interleaving of the threads that lock, unlock and wait on conditions, at most one is in
  its critical section, and the unlocked read of \<open>isLockedByThisThread\<close> is exact: \<open>assertLocked\<close>
  passes for the thread in its critical section and fails for every other.\<close>

theorem mutex_holder_is_exact:
  assumes "mutex_step\<^sup>*\<^sup>* mutex_init s" "0 < t" "0 < u"
  shows "(assertLocked t (ms_lock s) = Inr () \<longleftrightarrow> ms_pc s t = MHeld)
    \<and> (ms_pc s t = MHeld \<and> ms_pc s u = MHeld \<longrightarrow> t = u)
    \<and> (MutexLock_delete (ms_lock s) = Inl AssertFailed \<longleftrightarrow> (\<exists>v. ms_pc s v = MHeld))"
proof -
  have inv: "mutex_inv s" using assms(1) by (rule mutex_inv_reach)
  have "(\<exists>v. ms_pc s v = MHeld) \<longleftrightarrow> mx_holder (ms_lock s) \<noteq> 0"
    using inv unfolding mutex_inv_def by (metis gr0I mutex_pc.distinct(3))
  then show ?thesis using inv assms(2,3) mutex_inv_owner [OF inv, of t u]
    by (auto simp: assertLocked_def isLockedByThisThread_def MutexLock_delete_def mutex_inv_def)
qed

lemma held_reachable: "\<exists>s. mutex_step\<^sup>*\<^sup>* mutex_init s \<and> ms_pc s 1 = MHeld"
proof -
  let ?m = "\<lparr>mx_mutex = Some 1, mx_holder = 0\<rparr>"
  let ?s1 = "mutex_init\<lparr>ms_lock := ?m, ms_pc := (ms_pc mutex_init)(1 := MAcquired)\<rparr>"
  let ?s2 = "?s1\<lparr>ms_lock := assignHolder 1 (ms_lock ?s1), ms_pc := (ms_pc ?s1)(1 := MHeld)\<rparr>"
  have 1: "mutex_step mutex_init ?s1"
    by (rule mx_lock) (simp_all add: mutex_init_def MutexLock_new_def pthread_lock_def)
  have 2: "mutex_step ?s1 ?s2" by (rule mx_assign) simp
  have "mutex_step\<^sup>*\<^sup>* mutex_init ?s2"
    using r_into_rtranclp [of mutex_step, OF 1] 2 by (rule rtranclp.rtrancl_into_rtrancl)
  moreover have "ms_pc ?s2 1 = MHeld" by simp
  ultimately show ?thesis by blast
qed

theorem mutex_holder_is_exact_witness:
  "\<exists>s. mutex_step\<^sup>*\<^sup>* mutex_init s \<and> assertLocked 1 (ms_lock s) = Inr () \<and> assertLocked 2 (ms_lock s) \<noteq> Inr ()
    \<and> MutexLock_delete (ms_lock s) = Inl AssertFailed"
proof -
  from held_reachable obtain s where s: "mutex_step\<^sup>*\<^sup>* mutex_init s" "ms_pc s 1 = MHeld" by blast
  with mutex_holder_is_exact [OF s(1), of 1 2] mutex_holder_is_exact [OF s(1), of 2 2] show ?thesis by auto
qed

text \<open>The first call of a thread asks for its id, the later ones return it.\<close>

lemma current_tid_cached:
  assumes "cacheTid 0 = me" "0 < me" "current_tid cacheTid 0 = (t, cached)"
  shows "t = me" "current_tid f cached = (me, me)"
  using assms by (auto simp: current_tid_def Let_def)

text \<open>
  A wait gives the mutex up whole: the others find it free and without a holder, and when it
  returns the thread holds it again, in both of its parts, whatever the others did.
\<close>

lemma condition_wait_holds:
  assumes "Condition_wait t others m = Some m'"
  shows "m' = \<lparr>mx_mutex = Some t, mx_holder = t\<rparr>" "assertLocked t m' = Inr ()"
  using assms by (auto simp: Condition_wait_def UnassignGuard_delete_def pthread_lock_def assignHolder_def
      assertLocked_def isLockedByThisThread_def split: if_splits)

lemma condition_wait_gives_up:
  "Condition_wait t (\<lambda>m'. case MutexLock_lock u m' of Some m'' \<Rightarrow> MutexLock_unlock m'' | None \<Rightarrow> m') m =
    Some \<lparr>mx_mutex = Some t, mx_holder = t\<rparr>"
  by (simp add: Condition_wait_def UnassignGuard_new_def UnassignGuard_delete_def MutexLock_lock_def MutexLock_unlock_def
      mutex_defs)

section \<open>Singletons\<close>

text \<open>\<^verbatim>\<open>pthread_once\<close> runs \<open>init\<close> in the first caller and makes the others wait for it.\<close>

record 'a Singleton =
  sg_once :: bool
  sg_value :: "'a option"
  sg_atexit :: bool

definition Singleton_start :: "'a Singleton" where
  "Singleton_start = \<lparr>sg_once = False, sg_value = None, sg_atexit = False\<rparr>"

definition Singleton_init :: "bool \<Rightarrow> 'a \<Rightarrow> 'a Singleton \<Rightarrow> 'a Singleton" where
  "Singleton_init has_no_destroy newT s =
     (let s = s\<lparr>sg_value := Some newT\<rparr> in if \<not> has_no_destroy then s\<lparr>sg_atexit := True\<rparr> else s)"

definition Singleton_instance :: "bool \<Rightarrow> 'a \<Rightarrow> 'a Singleton \<Rightarrow> ('a \<times> 'a Singleton) res" where
  "Singleton_instance has_no_destroy newT s =
     (let s = (if sg_once s then s else Singleton_init has_no_destroy newT (s\<lparr>sg_once := True\<rparr>))
      in case sg_value s of None \<Rightarrow> Inl AssertFailed | Some v \<Rightarrow> Inr (v, s))"

definition Singleton_destroy :: "'a Singleton \<Rightarrow> 'a Singleton" where
  "Singleton_destroy s = s\<lparr>sg_value := None\<rparr>"

text \<open>The exit of the process runs what was registered.\<close>

definition Singleton_exit :: "'a Singleton \<Rightarrow> 'a Singleton" where
  "Singleton_exit s = (if sg_atexit s then Singleton_destroy s else s)"

text \<open>Every call returns the first caller's object; after the exit handlers a call fails its assertion,
  unless the class has \<open>no_destroy\<close>.\<close>

lemma singleton_same_object:
  assumes "Singleton_instance nd a Singleton_start = Inr (v, s)"
  shows "v = a \<and> Singleton_instance nd' b s = Inr (a, s)
    \<and> Singleton_instance nd' b (Singleton_exit s) = (if nd then Inr (a, s) else Inl AssertFailed)"
  using assms by (auto simp: Singleton_instance_def Singleton_init_def Singleton_start_def Singleton_exit_def
      Singleton_destroy_def Let_def split: if_splits)

text \<open>One object per thread: the thread-local pointer and the key's value, whose destructor runs at the thread's end.\<close>

record 'a tl_singleton =
  tl_value :: "nat \<Rightarrow> 'a option"
  tl_key :: "nat \<Rightarrow> 'a option"

definition Deleter_set :: "nat \<Rightarrow> 'a \<Rightarrow> 'a tl_singleton \<Rightarrow> 'a tl_singleton res" where
  "Deleter_set t newObj s = (if tl_key s t = None then Inr (s\<lparr>tl_key := (tl_key s)(t := Some newObj)\<rparr>) else Inl AssertFailed)"

definition TLSingleton_instance :: "nat \<Rightarrow> 'a \<Rightarrow> 'a tl_singleton \<Rightarrow> ('a \<times> 'a tl_singleton) res" where
  "TLSingleton_instance t newT s =
     (case tl_value s t of
        None \<Rightarrow> bindR (Deleter_set t newT (s\<lparr>tl_value := (tl_value s)(t := Some newT)\<rparr>)) (\<lambda>s. Inr (newT, s))
      | Some v \<Rightarrow> Inr (v, s))"

definition TLSingleton_pointer :: "nat \<Rightarrow> 'a tl_singleton \<Rightarrow> 'a option" where
  "TLSingleton_pointer t s = tl_value s t"

definition TLSingleton_destructor :: "nat \<Rightarrow> 'a \<Rightarrow> 'a tl_singleton \<Rightarrow> 'a tl_singleton res" where
  "TLSingleton_destructor t obj s =
     (if tl_value s t = Some obj then Inr (s\<lparr>tl_value := (tl_value s)(t := None)\<rparr>) else Inl AssertFailed)"

definition tl_ok :: "'a tl_singleton \<Rightarrow> bool" where
  "tl_ok s \<longleftrightarrow> tl_value s = tl_key s"

lemma tl_instance_ok:
  assumes "tl_ok s"
  shows "\<exists>v s'. TLSingleton_instance t a s = Inr (v, s') \<and> tl_ok s' \<and> TLSingleton_pointer t s' = Some v
    \<and> v = (case tl_value s t of None \<Rightarrow> a | Some w \<Rightarrow> w) \<and> (\<forall>u. u \<noteq> t \<longrightarrow> tl_value s' u = tl_value s u)"
  using assms by (auto simp: TLSingleton_instance_def Deleter_set_def tl_ok_def TLSingleton_pointer_def
      split: option.split)

text \<open>\<^verbatim>\<open>ThreadLocal\<close>: only the key.\<close>

definition ThreadLocal_value :: "nat \<Rightarrow> 'a \<Rightarrow> (nat \<Rightarrow> 'a option) \<Rightarrow> 'a \<times> (nat \<Rightarrow> 'a option)" where
  "ThreadLocal_value t newT key = (case key t of None \<Rightarrow> (newT, key(t := Some newT)) | Some v \<Rightarrow> (v, key))"

section \<open>Weak callbacks\<close>

text \<open>The object a weak pointer leads to, if it is still there, and what the call does to it.\<close>

record ('o, 'a) WeakCallback =
  wc_object :: "nat"
  wc_function :: "'o \<Rightarrow> 'a \<Rightarrow> 'o"

definition makeWeakCallback :: "nat \<Rightarrow> ('o \<Rightarrow> 'a \<Rightarrow> 'o) \<Rightarrow> ('o, 'a) WeakCallback" where
  "makeWeakCallback object function = \<lparr>wc_object = object, wc_function = function\<rparr>"

definition WeakCallback_call :: "('o, 'a) WeakCallback \<Rightarrow> 'a \<Rightarrow> (nat \<Rightarrow> 'o option) \<Rightarrow> (nat \<Rightarrow> 'o option)" where
  "WeakCallback_call w args heap =
     (case heap (wc_object w) of
        Some ptr \<Rightarrow> heap(wc_object w := Some (wc_function w ptr args))
      | None \<Rightarrow> heap)"

lemma weak_callback_expired: "heap o' = None \<Longrightarrow> WeakCallback_call (makeWeakCallback o' f) args heap = heap"
  by (simp add: WeakCallback_call_def makeWeakCallback_def)

end
