(* ===== verification/Http.thy ===== *)
theory Http
  imports UMap Clock
begin

text \<open>
  \<^verbatim>\<open>include/muduo/net/http/HttpRequest.h\<close>, \<^verbatim>\<open>HttpResponse.h\<close> and \<^verbatim>\<open>HttpContext.h\<close>: the
  objects of the HTTP server and the operations their headers define. A pair of pointers
  into a buffer is the text between them; for a header line, the text and the position of its
  colon. \<^verbatim>\<open>isspace\<close> is that of the C locale.
\<close>

section \<open>HttpRequest\<close>

datatype Method = kInvalid | kGet | kPost | kHead | kPut | kDelete

datatype Version = kUnknown | kHttp10 | kHttp11

record HttpRequest =
  hq_method :: Method
  hq_version :: Version
  hq_path :: string
  hq_query :: string
  hq_receiveTime :: Timestamp
  hq_headers :: "(string, string) umap"

definition HttpRequest_new :: HttpRequest where
  "HttpRequest_new = \<lparr>hq_method = kInvalid, hq_version = kUnknown, hq_path = [], hq_query = [],
     hq_receiveTime = Timestamp_new, hq_headers = []\<rparr>"

definition setVersion :: "HttpRequest \<Rightarrow> Version \<Rightarrow> HttpRequest" where
  "setVersion r v = r\<lparr>hq_version := v\<rparr>"

definition getVersion :: "HttpRequest \<Rightarrow> Version" where
  "getVersion r = hq_version r"

definition setMethod :: "HttpRequest \<Rightarrow> string \<Rightarrow> (bool \<times> HttpRequest) res" where
  "setMethod r m =
     (if hq_method r \<noteq> kInvalid then Inl AssertFailed
      else let k = (if m = ''GET'' then kGet else if m = ''POST'' then kPost else if m = ''HEAD'' then kHead
                    else if m = ''PUT'' then kPut else if m = ''DELETE'' then kDelete else kInvalid)
           in Inr (k \<noteq> kInvalid, r\<lparr>hq_method := k\<rparr>))"

fun methodString :: "Method \<Rightarrow> string" where
  "methodString kGet = ''GET''"
| "methodString kPost = ''POST''"
| "methodString kHead = ''HEAD''"
| "methodString kPut = ''PUT''"
| "methodString kDelete = ''DELETE''"
| "methodString kInvalid = ''UNKNOWN''"

definition setPath :: "HttpRequest \<Rightarrow> string \<Rightarrow> HttpRequest" where
  "setPath r s = r\<lparr>hq_path := s\<rparr>"

definition setQuery :: "HttpRequest \<Rightarrow> string \<Rightarrow> HttpRequest" where
  "setQuery r s = r\<lparr>hq_query := s\<rparr>"

definition setReceiveTime :: "HttpRequest \<Rightarrow> Timestamp \<Rightarrow> HttpRequest" where
  "setReceiveTime r t = r\<lparr>hq_receiveTime := t\<rparr>"

text \<open>The loop that drops the trailing white space.\<close>

function drop_trailing :: "string \<Rightarrow> string" where
  "drop_trailing value = (if value \<noteq> [] \<and> is_space (last value) then drop_trailing (butlast value) else value)"
  by auto

termination
  by (relation "measure length") auto

declare drop_trailing.simps [simp del]

definition addHeader :: "HttpRequest \<Rightarrow> string \<Rightarrow> nat \<Rightarrow> HttpRequest" where
  "addHeader r line colon =
     (let field = take colon line;
          value = drop_trailing (dropWhile is_space (drop (colon + 1) line))
      in r\<lparr>hq_headers := um_assign (hq_headers r) field value\<rparr>)"

definition getHeader :: "HttpRequest \<Rightarrow> string \<Rightarrow> string" where
  "getHeader r field = (case um_find (hq_headers r) field of None \<Rightarrow> [] | Some v \<Rightarrow> v)"

definition HttpRequest_swap :: "HttpRequest \<Rightarrow> HttpRequest \<Rightarrow> HttpRequest \<times> HttpRequest" where
  "HttpRequest_swap r that = (that, r)"

section \<open>HttpResponse\<close>

datatype HttpStatusCode = kUnknownStatus | k200Ok | k301MovedPermanently | k400BadRequest | k404NotFound

fun status_code :: "HttpStatusCode \<Rightarrow> int" where
  "status_code kUnknownStatus = 0"
| "status_code k200Ok = 200"
| "status_code k301MovedPermanently = 301"
| "status_code k400BadRequest = 400"
| "status_code k404NotFound = 404"

record HttpResponse =
  hr_headers :: "(string, string) umap"
  hr_statusCode :: HttpStatusCode
  hr_statusMessage :: string
  hr_closeConnection :: bool
  hr_body :: string

definition HttpResponse_new :: "bool \<Rightarrow> HttpResponse" where
  "HttpResponse_new close = \<lparr>hr_headers = [], hr_statusCode = kUnknownStatus, hr_statusMessage = [],
     hr_closeConnection = close, hr_body = []\<rparr>"

definition setStatusCode :: "HttpResponse \<Rightarrow> HttpStatusCode \<Rightarrow> HttpResponse" where
  "setStatusCode r c = r\<lparr>hr_statusCode := c\<rparr>"

definition setStatusMessage :: "HttpResponse \<Rightarrow> string \<Rightarrow> HttpResponse" where
  "setStatusMessage r m = r\<lparr>hr_statusMessage := m\<rparr>"

definition setCloseConnection :: "HttpResponse \<Rightarrow> bool \<Rightarrow> HttpResponse" where
  "setCloseConnection r v = r\<lparr>hr_closeConnection := v\<rparr>"

definition response_addHeader :: "HttpResponse \<Rightarrow> string \<Rightarrow> string \<Rightarrow> HttpResponse" where
  "response_addHeader r key value = r\<lparr>hr_headers := um_assign (hr_headers r) key value\<rparr>"

definition setContentType :: "HttpResponse \<Rightarrow> string \<Rightarrow> HttpResponse" where
  "setContentType r contentType = response_addHeader r ''Content-Type'' contentType"

definition setBody :: "HttpResponse \<Rightarrow> string \<Rightarrow> HttpResponse" where
  "setBody r b = r\<lparr>hr_body := b\<rparr>"

section \<open>HttpContext\<close>

datatype HttpRequestParseState = kExpectRequestLine | kExpectHeaders | kExpectBody | kGotAll

record HttpContext =
  hc_state :: HttpRequestParseState
  hc_request :: HttpRequest

definition HttpContext_new :: HttpContext where
  "HttpContext_new = \<lparr>hc_state = kExpectRequestLine, hc_request = HttpRequest_new\<rparr>"

definition gotAll :: "HttpContext \<Rightarrow> bool" where
  "gotAll c \<longleftrightarrow> hc_state c = kGotAll"

definition HttpContext_reset :: "HttpContext \<Rightarrow> HttpContext" where
  "HttpContext_reset c =
     (let (request, dummy) = HttpRequest_swap (hc_request c) HttpRequest_new
      in c\<lparr>hc_state := kExpectRequestLine, hc_request := request\<rparr>)"

section \<open>Correctness\<close>

lemma drop_trailing_eq: "drop_trailing s = rev (dropWhile is_space (rev s))"
proof (induction s rule: rev_induct)
  case (snoc c s)
  then show ?case by (subst drop_trailing.simps) simp
qed (simp add: drop_trailing.simps)

text \<open>A text with no white space at its ends.\<close>

definition trimmed :: "string \<Rightarrow> bool" where
  "trimmed v \<longleftrightarrow> v = [] \<or> (\<not> is_space (hd v) \<and> \<not> is_space (last v))"

lemma trim_spaces:
  assumes "trimmed v" "\<forall>c \<in> set pre. is_space c" "\<forall>c \<in> set post. is_space c"
  shows "drop_trailing (dropWhile is_space (pre @ v @ post)) = v"
proof (cases "v = []")
  case True
  have "dropWhile is_space (pre @ post) = []" using assms(2,3) by (auto simp: dropWhile_eq_Nil_conv)
  with True show ?thesis by (simp add: drop_trailing.simps)
next
  case False
  then obtain a w where v: "v = a # w" by (cases v) auto
  have "\<not> is_space a" using assms(1) v by (simp add: trimmed_def)
  then have "dropWhile is_space (pre @ v @ post) = v @ post"
    using assms(2) by (simp add: v dropWhile_append2)
  moreover have "dropWhile is_space (rev (v @ post)) = rev v"
  proof -
    have "rev v \<noteq> [] \<and> \<not> is_space (hd (rev v))" using assms(1) False by (simp add: trimmed_def hd_rev)
    then have "dropWhile is_space (rev v) = rev v" by (cases "rev v") auto
    then show ?thesis using dropWhile_append2 [of "rev post" is_space "rev v"] assms(3) by simp
  qed
  ultimately show ?thesis by (simp only: drop_trailing_eq) simp
qed

text \<open>A request line's method round-trips: the five known names set their method, any other is refused
  and leaves it invalid, and setting it again on a request that has one fails an assertion until the
  context is reset; and a header reads back its value without the white space around it, the last
  one of a name counting.\<close>

theorem http_request_reads_back:
  assumes "trimmed v" "\<forall>c \<in> set (pre @ post). is_space c" "k \<noteq> kInvalid"
    and "m \<notin> {''GET'', ''POST'', ''HEAD'', ''PUT'', ''DELETE''}"
  shows "setMethod (hc_request (HttpContext_reset c)) (methodString k) = Inr (True, HttpRequest_new\<lparr>hq_method := k\<rparr>)
    \<and> setMethod (HttpRequest_new\<lparr>hq_method := k\<rparr>) m' = Inl AssertFailed
    \<and> setMethod HttpRequest_new m = Inr (False, HttpRequest_new)
    \<and> getHeader (addHeader r (f @ '':'' @ pre @ v @ post) (length f)) g = (if g = f then v else getHeader r g)"
proof -
  have "drop_trailing (dropWhile is_space (pre @ v @ post)) = v"
    using assms(2) by (intro trim_spaces [OF assms(1)]) auto
  then have "getHeader (addHeader r (f @ '':'' @ pre @ v @ post) (length f)) g = (if g = f then v else getHeader r g)"
    by (simp add: getHeader_def addHeader_def um_find_assign)
  moreover have "setMethod (hc_request (HttpContext_reset c)) (methodString k) = Inr (True, HttpRequest_new\<lparr>hq_method := k\<rparr>)"
    using assms(3) by (cases k) (simp_all add: setMethod_def HttpContext_reset_def HttpRequest_swap_def HttpRequest_new_def)
  ultimately show ?thesis using assms(3,4)
    by (simp add: setMethod_def HttpRequest_new_def)
qed

theorem http_request_reads_back_witness:
  "setMethod (hc_request (HttpContext_reset HttpContext_new)) (methodString kPut) = Inr (True, HttpRequest_new\<lparr>hq_method := kPut\<rparr>)
    \<and> setMethod (HttpRequest_new\<lparr>hq_method := kPut\<rparr>) ''GET'' = Inl AssertFailed
    \<and> setMethod HttpRequest_new ''get'' = Inr (False, HttpRequest_new)
    \<and> getHeader (addHeader HttpRequest_new (''Host'' @ '':'' @ '' '' @ ''a b'' @ ''  '') (length ''Host'')) ''Host''
      = (if ''Host'' = ''Host'' then ''a b'' else getHeader HttpRequest_new ''Host'')"
  by (rule http_request_reads_back) (simp_all add: trimmed_def is_space_def)

end
