(* ===== verification/RpcMessages.thy ===== *)
theory RpcMessages
  imports BufferProps
begin

text \<open>
  \<^verbatim>\<open>include/muduo/net/protorpc/rpc.pb.h\<close>: the accessors of muduo's own RPC message, and
  \<^verbatim>\<open>include/muduo/net/protobuf/BufferStream.h\<close>, the stream its codec writes into a buffer
  through. The presence of the seven fields is kept in the bits of one word. Strings are not
  shared, so a pointer to one is its value; arenas are not modelled.
\<close>

unbundle bit_operations_syntax

section \<open>The message\<close>

datatype MessageType = REQUEST | RESPONSE | MSG_ERROR

fun MessageType_code :: "MessageType \<Rightarrow> int" where
  "MessageType_code REQUEST = 1"
| "MessageType_code RESPONSE = 2"
| "MessageType_code MSG_ERROR = 3"

datatype ErrorCode = NO_ERROR | WRONG_PROTO | NO_SERVICE | NO_METHOD | INVALID_REQUEST | INVALID_RESPONSE | TIMEOUT

fun ErrorCode_code :: "ErrorCode \<Rightarrow> int" where
  "ErrorCode_code NO_ERROR = 0"
| "ErrorCode_code WRONG_PROTO = 1"
| "ErrorCode_code NO_SERVICE = 2"
| "ErrorCode_code NO_METHOD = 3"
| "ErrorCode_code INVALID_REQUEST = 4"
| "ErrorCode_code INVALID_RESPONSE = 5"
| "ErrorCode_code TIMEOUT = 6"

record RpcMessage =
  rm_has_bits :: u32
  rm_service :: string
  rm_method :: string
  rm_request :: string
  rm_response :: string
  rm_id :: u64
  rm_error :: int
  rm_type :: int

text \<open>The default instance: no field is present, strings are empty, \<open>type\<close> is its first value.\<close>

definition RpcMessage_new :: RpcMessage where
  "RpcMessage_new = \<lparr>rm_has_bits = 0, rm_service = [], rm_method = [], rm_request = [], rm_response = [],
     rm_id = 0, rm_error = 0, rm_type = 1\<rparr>"

definition RpcMessage_Swap :: "RpcMessage \<Rightarrow> RpcMessage \<Rightarrow> RpcMessage \<times> RpcMessage" where
  "RpcMessage_Swap a b = (b, a)"

definition RpcMessage_assign :: "RpcMessage \<Rightarrow> RpcMessage \<Rightarrow> RpcMessage" where
  "RpcMessage_assign m from = from"

definition has_bit :: "u32 \<Rightarrow> RpcMessage \<Rightarrow> bool" where
  "has_bit b m \<longleftrightarrow> rm_has_bits m AND b \<noteq> 0"

definition set_bit_of :: "u32 \<Rightarrow> RpcMessage \<Rightarrow> RpcMessage" where
  "set_bit_of b m = m\<lparr>rm_has_bits := rm_has_bits m OR b\<rparr>"

definition clear_bit_of :: "u32 \<Rightarrow> RpcMessage \<Rightarrow> RpcMessage" where
  "clear_bit_of b m = m\<lparr>rm_has_bits := rm_has_bits m AND NOT b\<rparr>"

subsection \<open>type\<close>

definition has_type :: "RpcMessage \<Rightarrow> bool" where
  "has_type m = has_bit 0x40 m"

definition clear_type :: "RpcMessage \<Rightarrow> RpcMessage" where
  "clear_type m = clear_bit_of 0x40 (m\<lparr>rm_type := 1\<rparr>)"

definition get_type :: "RpcMessage \<Rightarrow> int" where
  "get_type m = rm_type m"

definition set_type :: "RpcMessage \<Rightarrow> MessageType \<Rightarrow> RpcMessage" where
  "set_type m value = (set_bit_of 0x40 m)\<lparr>rm_type := MessageType_code value\<rparr>"

subsection \<open>id\<close>

definition has_id :: "RpcMessage \<Rightarrow> bool" where
  "has_id m = has_bit 0x10 m"

definition clear_id :: "RpcMessage \<Rightarrow> RpcMessage" where
  "clear_id m = clear_bit_of 0x10 (m\<lparr>rm_id := 0\<rparr>)"

definition get_id :: "RpcMessage \<Rightarrow> u64" where
  "get_id m = rm_id m"

definition set_id :: "RpcMessage \<Rightarrow> u64 \<Rightarrow> RpcMessage" where
  "set_id m value = (set_bit_of 0x10 m)\<lparr>rm_id := value\<rparr>"

subsection \<open>error\<close>

definition has_error :: "RpcMessage \<Rightarrow> bool" where
  "has_error m = has_bit 0x20 m"

definition clear_error :: "RpcMessage \<Rightarrow> RpcMessage" where
  "clear_error m = clear_bit_of 0x20 (m\<lparr>rm_error := 0\<rparr>)"

definition get_error :: "RpcMessage \<Rightarrow> int" where
  "get_error m = rm_error m"

definition set_error :: "RpcMessage \<Rightarrow> ErrorCode \<Rightarrow> RpcMessage" where
  "set_error m value = (set_bit_of 0x20 m)\<lparr>rm_error := ErrorCode_code value\<rparr>"

subsection \<open>service\<close>

definition has_service :: "RpcMessage \<Rightarrow> bool" where
  "has_service m = has_bit 1 m"

definition clear_service :: "RpcMessage \<Rightarrow> RpcMessage" where
  "clear_service m = clear_bit_of 1 (m\<lparr>rm_service := []\<rparr>)"

definition get_service :: "RpcMessage \<Rightarrow> string" where
  "get_service m = rm_service m"

definition set_service :: "RpcMessage \<Rightarrow> string \<Rightarrow> RpcMessage" where
  "set_service m arg = (set_bit_of 1 m)\<lparr>rm_service := arg\<rparr>"

text \<open>The field's text, to be changed in place by \<open>f\<close>; it counts as present from then on.\<close>

definition mutable_service :: "RpcMessage \<Rightarrow> (string \<Rightarrow> string) \<Rightarrow> RpcMessage" where
  "mutable_service m f = (set_bit_of 1 m)\<lparr>rm_service := f (rm_service m)\<rparr>"

definition release_service :: "RpcMessage \<Rightarrow> string option \<times> RpcMessage" where
  "release_service m =
     (if \<not> has_bit 1 m then (None, m)
      else (Some (rm_service m), (clear_bit_of 1 m)\<lparr>rm_service := []\<rparr>))"

definition set_allocated_service :: "RpcMessage \<Rightarrow> string option \<Rightarrow> RpcMessage" where
  "set_allocated_service m value =
     (case value of
        Some s \<Rightarrow> (set_bit_of 1 m)\<lparr>rm_service := s\<rparr>
      | None \<Rightarrow> (clear_bit_of 1 m)\<lparr>rm_service := []\<rparr>)"

subsection \<open>method\<close>

definition has_method :: "RpcMessage \<Rightarrow> bool" where
  "has_method m = has_bit 2 m"

definition clear_method :: "RpcMessage \<Rightarrow> RpcMessage" where
  "clear_method m = clear_bit_of 2 (m\<lparr>rm_method := []\<rparr>)"

definition get_method :: "RpcMessage \<Rightarrow> string" where
  "get_method m = rm_method m"

definition set_method :: "RpcMessage \<Rightarrow> string \<Rightarrow> RpcMessage" where
  "set_method m arg = (set_bit_of 2 m)\<lparr>rm_method := arg\<rparr>"

text \<open>The field's text, to be changed in place by \<open>f\<close>; it counts as present from then on.\<close>

definition mutable_method :: "RpcMessage \<Rightarrow> (string \<Rightarrow> string) \<Rightarrow> RpcMessage" where
  "mutable_method m f = (set_bit_of 2 m)\<lparr>rm_method := f (rm_method m)\<rparr>"

definition release_method :: "RpcMessage \<Rightarrow> string option \<times> RpcMessage" where
  "release_method m =
     (if \<not> has_bit 2 m then (None, m)
      else (Some (rm_method m), (clear_bit_of 2 m)\<lparr>rm_method := []\<rparr>))"

definition set_allocated_method :: "RpcMessage \<Rightarrow> string option \<Rightarrow> RpcMessage" where
  "set_allocated_method m value =
     (case value of
        Some s \<Rightarrow> (set_bit_of 2 m)\<lparr>rm_method := s\<rparr>
      | None \<Rightarrow> (clear_bit_of 2 m)\<lparr>rm_method := []\<rparr>)"

subsection \<open>request\<close>

definition has_request :: "RpcMessage \<Rightarrow> bool" where
  "has_request m = has_bit 4 m"

definition clear_request :: "RpcMessage \<Rightarrow> RpcMessage" where
  "clear_request m = clear_bit_of 4 (m\<lparr>rm_request := []\<rparr>)"

definition get_request :: "RpcMessage \<Rightarrow> string" where
  "get_request m = rm_request m"

definition set_request :: "RpcMessage \<Rightarrow> string \<Rightarrow> RpcMessage" where
  "set_request m arg = (set_bit_of 4 m)\<lparr>rm_request := arg\<rparr>"

text \<open>The field's text, to be changed in place by \<open>f\<close>; it counts as present from then on.\<close>

definition mutable_request :: "RpcMessage \<Rightarrow> (string \<Rightarrow> string) \<Rightarrow> RpcMessage" where
  "mutable_request m f = (set_bit_of 4 m)\<lparr>rm_request := f (rm_request m)\<rparr>"

definition release_request :: "RpcMessage \<Rightarrow> string option \<times> RpcMessage" where
  "release_request m =
     (if \<not> has_bit 4 m then (None, m)
      else (Some (rm_request m), (clear_bit_of 4 m)\<lparr>rm_request := []\<rparr>))"

definition set_allocated_request :: "RpcMessage \<Rightarrow> string option \<Rightarrow> RpcMessage" where
  "set_allocated_request m value =
     (case value of
        Some s \<Rightarrow> (set_bit_of 4 m)\<lparr>rm_request := s\<rparr>
      | None \<Rightarrow> (clear_bit_of 4 m)\<lparr>rm_request := []\<rparr>)"

subsection \<open>response\<close>

definition has_response :: "RpcMessage \<Rightarrow> bool" where
  "has_response m = has_bit 8 m"

definition clear_response :: "RpcMessage \<Rightarrow> RpcMessage" where
  "clear_response m = clear_bit_of 8 (m\<lparr>rm_response := []\<rparr>)"

definition get_response :: "RpcMessage \<Rightarrow> string" where
  "get_response m = rm_response m"

definition set_response :: "RpcMessage \<Rightarrow> string \<Rightarrow> RpcMessage" where
  "set_response m arg = (set_bit_of 8 m)\<lparr>rm_response := arg\<rparr>"

text \<open>The field's text, to be changed in place by \<open>f\<close>; it counts as present from then on.\<close>

definition mutable_response :: "RpcMessage \<Rightarrow> (string \<Rightarrow> string) \<Rightarrow> RpcMessage" where
  "mutable_response m f = (set_bit_of 8 m)\<lparr>rm_response := f (rm_response m)\<rparr>"

definition release_response :: "RpcMessage \<Rightarrow> string option \<times> RpcMessage" where
  "release_response m =
     (if \<not> has_bit 8 m then (None, m)
      else (Some (rm_response m), (clear_bit_of 8 m)\<lparr>rm_response := []\<rparr>))"

definition set_allocated_response :: "RpcMessage \<Rightarrow> string option \<Rightarrow> RpcMessage" where
  "set_allocated_response m value =
     (case value of
        Some s \<Rightarrow> (set_bit_of 8 m)\<lparr>rm_response := s\<rparr>
      | None \<Rightarrow> (clear_bit_of 8 m)\<lparr>rm_response := []\<rparr>)"

section \<open>The message as its fields\<close>

text \<open>The specification: seven fields, each present with a value or absent.\<close>

record message_fields =
  f_type :: "int option"
  f_id :: "u64 option"
  f_error :: "int option"
  f_service :: "string option"
  f_method :: "string option"
  f_request :: "string option"
  f_response :: "string option"

definition fields_of :: "RpcMessage \<Rightarrow> message_fields" where
  "fields_of m = \<lparr>
     f_type = (if has_type m then Some (get_type m) else None),
     f_id = (if has_id m then Some (get_id m) else None),
     f_error = (if has_error m then Some (get_error m) else None),
     f_service = (if has_service m then Some (get_service m) else None),
     f_method = (if has_method m then Some (get_method m) else None),
     f_request = (if has_request m then Some (get_request m) else None),
     f_response = (if has_response m then Some (get_response m) else None)\<rparr>"

datatype message_call = SetType MessageType | SetId u64 | SetError ErrorCode
  | SetService string | SetMethod string | SetRequest string | SetResponse string
  | ClearType | ClearId | ClearError | ClearService | ClearMethod | ClearRequest | ClearResponse

fun message_step :: "RpcMessage \<Rightarrow> message_call \<Rightarrow> RpcMessage" where
  "message_step m (SetType v) = set_type m v"
| "message_step m (SetId v) = set_id m v"
| "message_step m (SetError v) = set_error m v"
| "message_step m (SetService v) = set_service m v"
| "message_step m (SetMethod v) = set_method m v"
| "message_step m (SetRequest v) = set_request m v"
| "message_step m (SetResponse v) = set_response m v"
| "message_step m ClearType = clear_type m"
| "message_step m ClearId = clear_id m"
| "message_step m ClearError = clear_error m"
| "message_step m ClearService = clear_service m"
| "message_step m ClearMethod = clear_method m"
| "message_step m ClearRequest = clear_request m"
| "message_step m ClearResponse = clear_response m"

fun fields_step :: "message_fields \<Rightarrow> message_call \<Rightarrow> message_fields" where
  "fields_step f (SetType v) = f\<lparr>f_type := Some (MessageType_code v)\<rparr>"
| "fields_step f (SetId v) = f\<lparr>f_id := Some v\<rparr>"
| "fields_step f (SetError v) = f\<lparr>f_error := Some (ErrorCode_code v)\<rparr>"
| "fields_step f (SetService v) = f\<lparr>f_service := Some v\<rparr>"
| "fields_step f (SetMethod v) = f\<lparr>f_method := Some v\<rparr>"
| "fields_step f (SetRequest v) = f\<lparr>f_request := Some v\<rparr>"
| "fields_step f (SetResponse v) = f\<lparr>f_response := Some v\<rparr>"
| "fields_step f ClearType = f\<lparr>f_type := None\<rparr>"
| "fields_step f ClearId = f\<lparr>f_id := None\<rparr>"
| "fields_step f ClearError = f\<lparr>f_error := None\<rparr>"
| "fields_step f ClearService = f\<lparr>f_service := None\<rparr>"
| "fields_step f ClearMethod = f\<lparr>f_method := None\<rparr>"
| "fields_step f ClearRequest = f\<lparr>f_request := None\<rparr>"
| "fields_step f ClearResponse = f\<lparr>f_response := None\<rparr>"

text \<open>The masks are single bits: setting or clearing one leaves the others.\<close>

lemma mask_bits:
  "has_bit 1 m \<longleftrightarrow> bit (rm_has_bits m) 0" "has_bit 2 m \<longleftrightarrow> bit (rm_has_bits m) 1"
  "has_bit 4 m \<longleftrightarrow> bit (rm_has_bits m) 2" "has_bit 8 m \<longleftrightarrow> bit (rm_has_bits m) 3"
  "has_bit 0x10 m \<longleftrightarrow> bit (rm_has_bits m) 4" "has_bit 0x20 m \<longleftrightarrow> bit (rm_has_bits m) 5"
  "has_bit 0x40 m \<longleftrightarrow> bit (rm_has_bits m) 6"
proof -
  have "x AND 2 ^ k \<noteq> 0 \<longleftrightarrow> bit x k" for x :: u32 and k
    by (simp add: bit_iff_and_push_bit_not_eq_0 push_bit_eq_mult)
  from this [of _ 0] this [of _ 1] this [of _ 2] this [of _ 3] this [of _ 4] this [of _ 5] this [of _ 6]
  show "has_bit 1 m \<longleftrightarrow> bit (rm_has_bits m) 0" "has_bit 2 m \<longleftrightarrow> bit (rm_has_bits m) 1"
    "has_bit 4 m \<longleftrightarrow> bit (rm_has_bits m) 2" "has_bit 8 m \<longleftrightarrow> bit (rm_has_bits m) 3"
    "has_bit 0x10 m \<longleftrightarrow> bit (rm_has_bits m) 4" "has_bit 0x20 m \<longleftrightarrow> bit (rm_has_bits m) 5"
    "has_bit 0x40 m \<longleftrightarrow> bit (rm_has_bits m) 6"
    by (simp_all add: has_bit_def)
qed

lemma or_bits:
  fixes x :: u32
  shows "bit (x OR 1) k \<longleftrightarrow> bit x k \<or> k = 0" "bit (x OR 2) k \<longleftrightarrow> bit x k \<or> k = 1"
    "bit (x OR 4) k \<longleftrightarrow> bit x k \<or> k = 2" "bit (x OR 8) k \<longleftrightarrow> bit x k \<or> k = 3"
    "bit (x OR 0x10) k \<longleftrightarrow> bit x k \<or> k = 4" "bit (x OR 0x20) k \<longleftrightarrow> bit x k \<or> k = 5"
    "bit (x OR 0x40) k \<longleftrightarrow> bit x k \<or> k = 6"
proof -
  have "j < 32 \<Longrightarrow> bit (x OR 2 ^ j) k \<longleftrightarrow> bit x k \<or> k = j" for j by (auto simp: bit_simps)
  from this [of 0] this [of 1] this [of 2] this [of 3] this [of 4] this [of 5] this [of 6]
  show "bit (x OR 1) k \<longleftrightarrow> bit x k \<or> k = 0" "bit (x OR 2) k \<longleftrightarrow> bit x k \<or> k = 1"
    "bit (x OR 4) k \<longleftrightarrow> bit x k \<or> k = 2" "bit (x OR 8) k \<longleftrightarrow> bit x k \<or> k = 3"
    "bit (x OR 0x10) k \<longleftrightarrow> bit x k \<or> k = 4" "bit (x OR 0x20) k \<longleftrightarrow> bit x k \<or> k = 5"
    "bit (x OR 0x40) k \<longleftrightarrow> bit x k \<or> k = 6"
    by simp_all
qed

lemma and_not_bits:
  fixes x :: u32
  shows "bit (x AND NOT 1) k \<longleftrightarrow> bit x k \<and> k \<noteq> 0" "bit (x AND NOT 2) k \<longleftrightarrow> bit x k \<and> k \<noteq> 1"
    "bit (x AND NOT 4) k \<longleftrightarrow> bit x k \<and> k \<noteq> 2" "bit (x AND NOT 8) k \<longleftrightarrow> bit x k \<and> k \<noteq> 3"
    "bit (x AND NOT 0x10) k \<longleftrightarrow> bit x k \<and> k \<noteq> 4" "bit (x AND NOT 0x20) k \<longleftrightarrow> bit x k \<and> k \<noteq> 5"
    "bit (x AND NOT 0x40) k \<longleftrightarrow> bit x k \<and> k \<noteq> 6"
proof -
  have "bit (x AND NOT (2 ^ j)) k \<longleftrightarrow> bit x k \<and> k \<noteq> j" for j
    by (auto simp: bit_simps dest: bit_imp_le_length)
  from this [of 0] this [of 1] this [of 2] this [of 3] this [of 4] this [of 5] this [of 6]
  show "bit (x AND NOT 1) k \<longleftrightarrow> bit x k \<and> k \<noteq> 0" "bit (x AND NOT 2) k \<longleftrightarrow> bit x k \<and> k \<noteq> 1"
    "bit (x AND NOT 4) k \<longleftrightarrow> bit x k \<and> k \<noteq> 2" "bit (x AND NOT 8) k \<longleftrightarrow> bit x k \<and> k \<noteq> 3"
    "bit (x AND NOT 0x10) k \<longleftrightarrow> bit x k \<and> k \<noteq> 4" "bit (x AND NOT 0x20) k \<longleftrightarrow> bit x k \<and> k \<noteq> 5"
    "bit (x AND NOT 0x40) k \<longleftrightarrow> bit x k \<and> k \<noteq> 6"
    by simp_all
qed

lemmas and_not_simps = and_not_bits [simplified]

lemmas message_defs = has_type_def clear_type_def get_type_def set_type_def has_id_def clear_id_def get_id_def set_id_def
  has_error_def clear_error_def get_error_def set_error_def
  has_service_def clear_service_def get_service_def set_service_def
  has_method_def clear_method_def get_method_def set_method_def
  has_request_def clear_request_def get_request_def set_request_def
  has_response_def clear_response_def get_response_def set_response_def

lemma message_step_fields: "fields_of (message_step m c) = fields_step (fields_of m) c"
  by (cases c) (simp_all add: fields_of_def message_defs mask_bits set_bit_of_def clear_bit_of_def or_bits and_not_simps)

lemma message_new_fields: "fields_of RpcMessage_new = \<lparr>f_type = None, f_id = None, f_error = None, f_service = None,
    f_method = None, f_request = None, f_response = None\<rparr>"
  by (simp add: fields_of_def message_defs mask_bits RpcMessage_new_def)

definition absent_default :: "RpcMessage \<Rightarrow> bool" where
  "absent_default m \<longleftrightarrow> (\<not> has_type m \<longrightarrow> get_type m = 1) \<and> (\<not> has_id m \<longrightarrow> get_id m = 0)
     \<and> (\<not> has_error m \<longrightarrow> get_error m = 0) \<and> (\<not> has_service m \<longrightarrow> get_service m = [])
     \<and> (\<not> has_method m \<longrightarrow> get_method m = []) \<and> (\<not> has_request m \<longrightarrow> get_request m = [])
     \<and> (\<not> has_response m \<longrightarrow> get_response m = [])"

lemma absent_default_new: "absent_default RpcMessage_new"
  by (simp add: absent_default_def message_defs RpcMessage_new_def)

lemma absent_default_step: "absent_default m \<Longrightarrow> absent_default (message_step m c)"
  by (cases c) (simp_all add: absent_default_def message_defs mask_bits set_bit_of_def clear_bit_of_def or_bits and_not_simps)

text \<open>The message is its fields: after any sequence of setters and clearers on a fresh message, every
  field is present exactly when its last call was a setter, with that value, and reads its default
  otherwise; no two fields share a presence bit.\<close>

theorem rpc_message_refines_fields:
  "let m = foldl message_step RpcMessage_new cs;
       f = foldl fields_step \<lparr>f_type = None, f_id = None, f_error = None, f_service = None, f_method = None,
             f_request = None, f_response = None\<rparr> cs
   in fields_of m = f
      \<and> get_type m = (case f_type f of None \<Rightarrow> 1 | Some v \<Rightarrow> v) \<and> get_id m = (case f_id f of None \<Rightarrow> 0 | Some v \<Rightarrow> v)
      \<and> get_error m = (case f_error f of None \<Rightarrow> 0 | Some v \<Rightarrow> v)
      \<and> get_service m = (case f_service f of None \<Rightarrow> [] | Some v \<Rightarrow> v)
      \<and> get_method m = (case f_method f of None \<Rightarrow> [] | Some v \<Rightarrow> v)
      \<and> get_request m = (case f_request f of None \<Rightarrow> [] | Some v \<Rightarrow> v)
      \<and> get_response m = (case f_response f of None \<Rightarrow> [] | Some v \<Rightarrow> v)"
proof -
  define m where "m = foldl message_step RpcMessage_new cs"
  have f: "foldl fields_step \<lparr>f_type = None, f_id = None, f_error = None, f_service = None, f_method = None,
             f_request = None, f_response = None\<rparr> cs = fields_of m"
    unfolding m_def message_new_fields [symmetric]
    by (induction cs rule: rev_induct) (simp_all add: message_step_fields del: message_step.simps)
  have "absent_default m" unfolding m_def
    by (induction cs rule: rev_induct) (simp_all add: absent_default_step absent_default_new del: message_step.simps)
  then show ?thesis unfolding Let_def f m_def [symmetric]
    by (simp add: absent_default_def fields_of_def)
qed

section \<open>The output stream of the codec\<close>

record BufferOutputStream =
  os_buffer :: Buffer
  os_originalSize :: nat

definition BufferOutputStream_new :: "Buffer \<Rightarrow> BufferOutputStream" where
  "BufferOutputStream_new buf = \<lparr>os_buffer = buf, os_originalSize = readableBytes buf\<rparr>"

text \<open>The block handed out: where it begins in the buffer, and its size.\<close>

definition os_Next :: "BufferOutputStream \<Rightarrow> (nat \<times> nat \<times> BufferOutputStream) res" where
  "os_Next s =
     bindR (ensureWritableBytes (os_buffer s) 4096) (\<lambda>b.
       let data = writerIndex b; size = writableBytes b
       in bindR (hasWritten b size) (\<lambda>b. Inr (data, size, s\<lparr>os_buffer := b\<rparr>)))"

definition os_BackUp :: "BufferOutputStream \<Rightarrow> nat \<Rightarrow> BufferOutputStream res" where
  "os_BackUp s count = bindR (unwrite (os_buffer s) count) (\<lambda>b. Inr (s\<lparr>os_buffer := b\<rparr>))"

definition os_ByteCount :: "BufferOutputStream \<Rightarrow> int" where
  "os_ByteCount s = int (readableBytes (os_buffer s)) - int (os_originalSize s)"

text \<open>A block is at least 4096 bytes, and backing up all but \<open>k\<close> of it leaves \<open>k\<close> more bytes.\<close>

lemma os_Next_BackUp:
  assumes "buf_ok (os_buffer s)" "os_ByteCount s = 0" "k \<le> 4096"
  shows "\<exists>data size s1 s2. os_Next s = Inr (data, size, s1) \<and> 4096 \<le> size
    \<and> os_BackUp s1 (size - k) = Inr s2 \<and> os_ByteCount s2 = int k \<and> buf_ok (os_buffer s2)
    \<and> take (os_originalSize s) (content (os_buffer s2)) = content (os_buffer s)"
proof -
  from ensure_ok [OF assms(1), of 4096] obtain b where
    b: "ensureWritableBytes (os_buffer s) 4096 = Inr b" "buf_ok b" "content b = content (os_buffer s)" "4096 \<le> writableBytes b"
    by blast
  have r: "readableBytes b = readableBytes (os_buffer s)"
    using content_length [OF b(2)] content_length [OF assms(1)] b(3) by simp
  then have o: "os_originalSize s = readableBytes b" using assms(2) by (simp add: os_ByteCount_def)
  let ?b1 = "b\<lparr>writerIndex := writerIndex b + writableBytes b\<rparr>"
  let ?b2 = "b\<lparr>writerIndex := writerIndex b + k\<rparr>"
  have n: "os_Next s = Inr (writerIndex b, writableBytes b, s\<lparr>os_buffer := ?b1\<rparr>)"
    using b(1) by (simp add: os_Next_def hasWritten_def assert_that_def Let_def)
  have u: "unwrite ?b1 (writableBytes b - k) = Inr ?b2"
    using b(2,4) assms(3) by (auto simp: unwrite_def assert_that_def readableBytes_def writableBytes_def buf_ok_def
        intro: diff_le_mono2)
  have ok: "buf_ok ?b2" using b(2,4) assms(3) by (simp add: buf_ok_def writableBytes_def)
  have c: "os_ByteCount (s\<lparr>os_buffer := ?b2\<rparr>) = int k"
    using b(2) o by (simp add: os_ByteCount_def readableBytes_def buf_ok_def)
  have "take (os_originalSize s) (content ?b2) = content b"
    using b(2) o by (simp add: content_at readableBytes_def buf_ok_def min_def)
  with n u ok c b(3,4) show ?thesis by (simp add: os_BackUp_def)
qed

end
