(* ===== verification/GzipFiles.thy ===== *)
theory GzipFiles
  imports StringPieces "HOL-Library.Multiset"
begin

text \<open>
  \<^verbatim>\<open>include/muduo/base/GzipFile.h\<close>: the move-only owner of a \<^verbatim>\<open>gzFile\<close>. zlib is an argument: its
  handles are of a type \<open>'h\<close>, its calls functions on the handle and the service state \<open>'z\<close>. What the
  class is for is at the end: every handle that was opened is closed at most once, and is not
  lost while no object has been destroyed that holds it.
\<close>

section \<open>zlib\<close>

text \<open>The calls take the null handle too; \<^verbatim>\<open>gzread\<close> returns its count and the bytes it stored.\<close>

record ('h, 'z) zlib =
  gzopen :: "string \<Rightarrow> string \<Rightarrow> 'z \<Rightarrow> 'h option \<times> 'z"
  gzread :: "'h option \<Rightarrow> int \<Rightarrow> 'z \<Rightarrow> int \<times> string \<times> 'z"
  gzwrite :: "'h option \<Rightarrow> string \<Rightarrow> 'z \<Rightarrow> int \<times> 'z"
  gztell :: "'h option \<Rightarrow> 'z \<Rightarrow> int"
  gzoffset :: "'h option \<Rightarrow> 'z \<Rightarrow> int"
  gzbuffer :: "'h option \<Rightarrow> int \<Rightarrow> 'z \<Rightarrow> int \<times> 'z"
  gzclose :: "'h \<Rightarrow> 'z \<Rightarrow> 'z"

section \<open>GzipFile\<close>

record 'h GzipFile =
  gz_file :: "'h option"

definition GzipFile_new :: "'h option \<Rightarrow> 'h GzipFile" where
  "GzipFile_new f = \<lparr>gz_file = f\<rparr>"

text \<open>The new object and what is left of the one it was moved from.\<close>

definition GzipFile_move :: "'h GzipFile \<Rightarrow> 'h GzipFile \<times> 'h GzipFile" where
  "GzipFile_move rhs = (GzipFile_new (gz_file rhs), rhs\<lparr>gz_file := None\<rparr>)"

definition GzipFile_delete :: "('h, 'z) zlib \<Rightarrow> 'h GzipFile \<Rightarrow> 'z \<Rightarrow> 'z" where
  "GzipFile_delete zl g z = (case gz_file g of Some h \<Rightarrow> gzclose zl h z | None \<Rightarrow> z)"

definition GzipFile_swap :: "'h GzipFile \<Rightarrow> 'h GzipFile \<Rightarrow> 'h GzipFile \<times> 'h GzipFile" where
  "GzipFile_swap g rhs = (g\<lparr>gz_file := gz_file rhs\<rparr>, rhs\<lparr>gz_file := gz_file g\<rparr>)"

definition GzipFile_assign :: "'h GzipFile \<Rightarrow> 'h GzipFile \<Rightarrow> 'h GzipFile \<times> 'h GzipFile" where
  "GzipFile_assign g rhs = GzipFile_swap g rhs"

definition gz_valid :: "'h GzipFile \<Rightarrow> bool" where
  "gz_valid g \<longleftrightarrow> gz_file g \<noteq> None"

definition gz_setBuffer :: "('h, 'z) zlib \<Rightarrow> int \<Rightarrow> 'h GzipFile \<Rightarrow> 'z \<Rightarrow> bool \<times> 'z" where
  "gz_setBuffer zl n g z = (case gzbuffer zl (gz_file g) n z of (r, z) \<Rightarrow> (r = 0, z))"

definition gz_read :: "('h, 'z) zlib \<Rightarrow> int \<Rightarrow> 'h GzipFile \<Rightarrow> 'z \<Rightarrow> int \<times> string \<times> 'z" where
  "gz_read zl len g z = gzread zl (gz_file g) len z"

definition gz_write :: "('h, 'z) zlib \<Rightarrow> StringPiece \<Rightarrow> 'h GzipFile \<Rightarrow> 'z \<Rightarrow> (int \<times> 'z) res" where
  "gz_write zl buf g z = bindR (sp_read buf (sp_size buf)) (\<lambda>data. Inr (gzwrite zl (gz_file g) data z))"

definition gz_tell :: "('h, 'z) zlib \<Rightarrow> 'h GzipFile \<Rightarrow> 'z \<Rightarrow> int" where
  "gz_tell zl g z = gztell zl (gz_file g) z"

definition gz_offset :: "('h, 'z) zlib \<Rightarrow> 'h GzipFile \<Rightarrow> 'z \<Rightarrow> int" where
  "gz_offset zl g z = gzoffset zl (gz_file g) z"

definition openForRead :: "('h, 'z) zlib \<Rightarrow> string \<Rightarrow> 'z \<Rightarrow> 'h GzipFile \<times> 'z" where
  "openForRead zl name z = map_prod GzipFile_new id (gzopen zl (StringArg_new name) ''rbe'' z)"

definition openForAppend :: "('h, 'z) zlib \<Rightarrow> string \<Rightarrow> 'z \<Rightarrow> 'h GzipFile \<times> 'z" where
  "openForAppend zl name z = map_prod GzipFile_new id (gzopen zl (StringArg_new name) ''abe'' z)"

definition openForWriteExclusive :: "('h, 'z) zlib \<Rightarrow> string \<Rightarrow> 'z \<Rightarrow> 'h GzipFile \<times> 'z" where
  "openForWriteExclusive zl name z = map_prod GzipFile_new id (gzopen zl (StringArg_new name) ''wbxe'' z)"

definition openForWriteTruncate :: "('h, 'z) zlib \<Rightarrow> string \<Rightarrow> 'z \<Rightarrow> 'h GzipFile \<times> 'z" where
  "openForWriteTruncate zl name z = map_prod GzipFile_new id (gzopen zl (StringArg_new name) ''wbe'' z)"

section \<open>Ownership\<close>

text \<open>
  A program's objects in the order of their construction, \<open>None\<close> once destroyed, beside the handles
  zlib has given out and taken back so far.
\<close>

record 'h gz_program =
  gp_objects :: "'h GzipFile option list"
  gp_opened :: "'h multiset"
  gp_closed :: "'h multiset"

definition handles :: "'h GzipFile \<Rightarrow> 'h multiset" where
  "handles g = (case gz_file g of None \<Rightarrow> {#} | Some h \<Rightarrow> {#h#})"

definition handles_opt :: "'h GzipFile option \<Rightarrow> 'h multiset" where
  "handles_opt = case_option {#} handles"

fun held :: "'h GzipFile option list \<Rightarrow> 'h multiset" where
  "held [] = {#}"
| "held (x # xs) = handles_opt x + held xs"

text \<open>One statement of the program on its live objects: one of the four opening functions, a move into
  a new object, a move assignment (of an object to itself too), the end of an object's life.\<close>

inductive gz_step :: "'h gz_program \<Rightarrow> 'h gz_program \<Rightarrow> bool" where
  gz_open: "gz_step s (s\<lparr>gp_objects := gp_objects s @ [Some (GzipFile_new f)], gp_opened := gp_opened s + handles (GzipFile_new f)\<rparr>)"
| gz_move: "i < length (gp_objects s) \<Longrightarrow> gp_objects s ! i = Some g \<Longrightarrow> GzipFile_move g = (new, rhs) \<Longrightarrow>
     gz_step s (s\<lparr>gp_objects := (gp_objects s)[i := Some rhs] @ [Some new]\<rparr>)"
| gz_assign: "i < length (gp_objects s) \<Longrightarrow> j < length (gp_objects s) \<Longrightarrow>
     gp_objects s ! i = Some g \<Longrightarrow> gp_objects s ! j = Some rhs \<Longrightarrow> GzipFile_assign g rhs = (g', rhs') \<Longrightarrow>
     gz_step s (s\<lparr>gp_objects := (gp_objects s)[i := Some g', j := Some rhs']\<rparr>)"
| gz_destroy: "i < length (gp_objects s) \<Longrightarrow> gp_objects s ! i = Some g \<Longrightarrow>
     gz_step s (s\<lparr>gp_objects := (gp_objects s)[i := None], gp_closed := gp_closed s + handles g\<rparr>)"

lemma held_append [simp]: "held (xs @ ys) = held xs + held ys"
  by (induction xs) (simp_all add: ac_simps)

lemma held_update: "i < length xs \<Longrightarrow> held (xs[i := x]) + handles_opt (xs ! i) = held xs + handles_opt x"
  by (induction xs arbitrary: i) (auto simp: nth_Cons ac_simps split: nat.split)

lemma held_all_destroyed: "list_all (\<lambda>x. x = None) xs \<Longrightarrow> held xs = {#}"
  by (induction xs) (simp_all add: handles_opt_def)

lemma handles_move: "GzipFile_move g = (new, rhs) \<Longrightarrow> handles new = handles g \<and> handles rhs = {#}"
  by (auto simp: GzipFile_move_def GzipFile_new_def handles_def)

lemma handles_assign: "GzipFile_assign g rhs = (g', rhs') \<Longrightarrow> handles g' = handles rhs \<and> handles rhs' = handles g"
  by (auto simp: GzipFile_assign_def GzipFile_swap_def handles_def)

definition gz_balanced :: "'h gz_program \<Rightarrow> bool" where
  "gz_balanced s \<longleftrightarrow> gp_opened s = gp_closed s + held (gp_objects s)"

lemma gz_step_balanced: "gz_step s s' \<Longrightarrow> gz_balanced s \<Longrightarrow> gz_balanced s'"
proof (induction rule: gz_step.induct)
  case (gz_move i s g new rhs)
  from handles_move [OF gz_move(3)] held_update [OF gz_move(1), of "Some rhs"] gz_move(2,4) show ?case
    by (simp add: gz_balanced_def handles_opt_def ac_simps)
next
  case (gz_assign i s j g rhs g' rhs')
  let ?xs = "(gp_objects s)[i := Some g']"
  note h = handles_assign [OF gz_assign(5)]
  have j: "?xs ! j = Some (if i = j then g' else rhs)" using gz_assign(1-4) by simp
  have same: "handles g' = handles g \<and> handles rhs' = handles g" if "i = j" using h that gz_assign(3,4) by simp
  have "held (?xs[j := Some rhs']) + handles (if i = j then g' else rhs) = held ?xs + handles rhs'"
    using held_update [of j ?xs "Some rhs'"] gz_assign(2) j by (simp add: handles_opt_def)
  moreover have "held ?xs + handles g = held (gp_objects s) + handles g'"
    using held_update [OF gz_assign(1), of "Some g'"] gz_assign(3) by (simp add: handles_opt_def)
  ultimately have "held (?xs[j := Some rhs']) = held (gp_objects s)"
    using h same by (cases "i = j") (auto simp: ac_simps)
  then show ?case using gz_assign(6) by (simp add: gz_balanced_def)
next
  case (gz_destroy i s g)
  from held_update [OF gz_destroy(1), of None] gz_destroy(2,3) show ?case
    by (simp add: gz_balanced_def handles_opt_def ac_simps)
qed (simp add: gz_balanced_def handles_opt_def ac_simps)

definition gz_start :: "'h gz_program" where
  "gz_start = \<lparr>gp_objects = [], gp_opened = {#}, gp_closed = {#}\<rparr>"

lemma gz_start_balanced: "gz_balanced gz_start"
  by (simp add: gz_balanced_def gz_start_def)

text \<open>Whatever a program does, no handle is closed more often than it was opened, and once all its
  objects are gone every opened handle has been closed exactly as often.\<close>

lemma gz_handles_closed_once:
  assumes "gz_step\<^sup>*\<^sup>* gz_start s"
  shows "gp_closed s \<subseteq># gp_opened s"
    and "list_all (\<lambda>x. x = None) (gp_objects s) \<Longrightarrow> gp_closed s = gp_opened s"
proof -
  have "gz_balanced s"
    using assms by (induction rule: rtranclp_induct) (auto intro: gz_start_balanced gz_step_balanced)
  then have b: "gp_opened s = gp_closed s + held (gp_objects s)" by (simp add: gz_balanced_def)
  show "gp_closed s \<subseteq># gp_opened s" unfolding b by simp
  show "gp_closed s = gp_opened s" if "list_all (\<lambda>x. x = None) (gp_objects s)"
    unfolding b using held_all_destroyed [OF that] by simp
qed

text \<open>A move assignment does not close what the target held: the handle lives on in the source, and
  stays open until that object dies.\<close>

lemma gz_assign_keeps_open:
  "GzipFile_assign \<lparr>gz_file = Some a\<rparr> \<lparr>gz_file = Some b\<rparr> = (\<lparr>gz_file = Some b\<rparr>, \<lparr>gz_file = Some a\<rparr>)"
  by (simp add: GzipFile_assign_def GzipFile_swap_def)

end
