(* ===== verification/Casts.thy ===== *)
theory Casts
  imports StringPieces Buffer Clock
begin

text \<open>
  The checked casts of \<^verbatim>\<open>include/muduo/base/Types.h\<close> and \<^verbatim>\<open>include/muduo/net/Callbacks.h\<close>, and the
  typed codec of \<^verbatim>\<open>include/muduo/net/protobuf/ProtobufCodecLite.h\<close> that is built on them: a
  generic codec hands out messages of the base class, and the typed one gives its user
  messages of the class it was made for. The codec's own code is in the binary library and an
  argument here.
\<close>

section \<open>Casts\<close>

text \<open>Classes are the values of a type, \<open>derives c d\<close> says that \<open>c\<close> is \<open>d\<close> or derives from it. A pointer
  is null or leads to an object with its dynamic class.\<close>

type_synonym ('c, 'o) pointer = "('c \<times> 'o) option"

definition memZero :: "string \<Rightarrow> nat \<Rightarrow> string res" where
  "memZero p n = (if n \<le> length p then Inr (overwrite p (replicate n NUL)) else Inl UndefinedBehaviour)"

definition implicit_cast :: "'a \<Rightarrow> 'a" where
  "implicit_cast f = f"

definition dynamic_cast :: "('c \<Rightarrow> 'c \<Rightarrow> bool) \<Rightarrow> 'c \<Rightarrow> ('c, 'o) pointer \<Rightarrow> ('c, 'o) pointer" where
  "dynamic_cast derives T f = (case f of None \<Rightarrow> None | Some (c, obj) \<Rightarrow> if derives c T then f else None)"

text \<open>\<^verbatim>\<open>static_cast\<close> down to a class the object is not of is undefined.\<close>

definition static_cast :: "('c \<Rightarrow> 'c \<Rightarrow> bool) \<Rightarrow> 'c \<Rightarrow> ('c, 'o) pointer \<Rightarrow> ('c, 'o) pointer res" where
  "static_cast derives T f =
     (case f of None \<Rightarrow> Inr f | Some (c, obj) \<Rightarrow> if derives c T then Inr f else Inl UndefinedBehaviour)"

definition down_cast :: "bool \<Rightarrow> ('c \<Rightarrow> 'c \<Rightarrow> bool) \<Rightarrow> 'c \<Rightarrow> ('c, 'o) pointer \<Rightarrow> ('c, 'o) pointer res" where
  "down_cast debug derives T f =
     (if debug \<and> \<not> (f = None \<or> dynamic_cast derives T f \<noteq> None) then Inl AssertFailed
      else static_cast derives T f)"

text \<open>Shared pointers add a count of owners; the casts share it.\<close>

record ('c, 'o) shared_ptr =
  sh_pointer :: "('c, 'o) pointer"
  sh_control :: nat

definition get_pointer :: "('c, 'o) shared_ptr \<Rightarrow> ('c, 'o) pointer" where
  "get_pointer ptr = sh_pointer ptr"

definition down_pointer_cast ::
  "bool \<Rightarrow> ('c \<Rightarrow> 'c \<Rightarrow> bool) \<Rightarrow> 'c \<Rightarrow> ('c, 'o) shared_ptr \<Rightarrow> ('c, 'o) shared_ptr res" where
  "down_pointer_cast debug derives T f =
     (if debug \<and> \<not> (get_pointer f = None \<or> dynamic_cast derives T (get_pointer f) \<noteq> None) then Inl AssertFailed
      else bindR (static_cast derives T (get_pointer f)) (\<lambda>p. Inr (f\<lparr>sh_pointer := p\<rparr>)))"

lemma dynamic_cast_None: "dynamic_cast derives T f \<noteq> None \<longleftrightarrow> (\<exists>c obj. f = Some (c, obj) \<and> derives c T)"
  by (auto simp: dynamic_cast_def split: option.split)

text \<open>A cast that fits is the pointer itself in both builds; one that does not fit is caught by the
  assertion of the debug build and undefined in the other.\<close>

lemma down_cast_cases:
  "down_cast debug derives T None = Inr None"
  "down_cast debug derives T (Some (c, obj)) =
     (if derives c T then Inr (Some (c, obj)) else if debug then Inl AssertFailed else Inl UndefinedBehaviour)"
  by (simp_all add: down_cast_def static_cast_def dynamic_cast_def)

lemma down_pointer_cast_cases:
  "get_pointer f = None \<Longrightarrow> down_pointer_cast debug derives T f = Inr f"
  "get_pointer f = Some (c, obj) \<Longrightarrow> down_pointer_cast debug derives T f =
     (if derives c T then Inr f else if debug then Inl AssertFailed else Inl UndefinedBehaviour)"
  by (cases f, simp_all add: down_pointer_cast_def static_cast_def dynamic_cast_def get_pointer_def)

section \<open>ProtobufCodecLite\<close>

datatype CodecError = kNoError | kInvalidLength | kCheckSumError | kInvalidNameLen | kUnknownMessageType | kParseError

fun CodecError_code :: "CodecError \<Rightarrow> nat" where
  "CodecError_code kNoError = 0"
| "CodecError_code kInvalidLength = 1"
| "CodecError_code kCheckSumError = 2"
| "CodecError_code kInvalidNameLen = 3"
| "CodecError_code kUnknownMessageType = 4"
| "CodecError_code kParseError = 5"

definition kHeaderLen :: int where "kHeaderLen = 4"

definition kChecksumLen :: int where "kChecksumLen = 4"

definition kMaxMessageLen :: int where "kMaxMessageLen = 64 * 1024 * 1024"

text \<open>Callbacks act on the state \<open>'z\<close> outside the codec; \<open>None\<close> is the empty function.\<close>

record ('k, 'c, 'o, 'z) ProtobufCodecLite =
  pc_prototype :: "('c, 'o) pointer"
  pc_tag :: string
  pc_messageCallback :: "'k \<Rightarrow> ('c, 'o) shared_ptr \<Rightarrow> Timestamp \<Rightarrow> 'z \<Rightarrow> 'z res"
  pc_rawCb :: "('k \<Rightarrow> StringPiece \<Rightarrow> Timestamp \<Rightarrow> 'z \<Rightarrow> (bool \<times> 'z) res) option"
  pc_errorCallback :: "'k \<Rightarrow> Timestamp \<Rightarrow> CodecError \<Rightarrow> 'z \<Rightarrow> 'z res"
  pc_kMinMessageLen :: int

definition ProtobufCodecLite_new ::
  "('c, 'o) pointer \<Rightarrow> StringPiece \<Rightarrow> ('k \<Rightarrow> ('c, 'o) shared_ptr \<Rightarrow> Timestamp \<Rightarrow> 'z \<Rightarrow> 'z res) \<Rightarrow>
   ('k \<Rightarrow> StringPiece \<Rightarrow> Timestamp \<Rightarrow> 'z \<Rightarrow> (bool \<times> 'z) res) option \<Rightarrow> ('k \<Rightarrow> Timestamp \<Rightarrow> CodecError \<Rightarrow> 'z \<Rightarrow> 'z res) \<Rightarrow>
   ('k, 'c, 'o, 'z) ProtobufCodecLite res" where
  "ProtobufCodecLite_new prototype tagArg messageCb rawCb errorCb =
     bindR (as_string tagArg) (\<lambda>tag. Inr \<lparr>pc_prototype = prototype, pc_tag = tag, pc_messageCallback = messageCb,
       pc_rawCb = rawCb, pc_errorCallback = errorCb, pc_kMinMessageLen = sp_size tagArg + kChecksumLen\<rparr>)"

section \<open>The typed codec\<close>

text \<open>\<open>MSG\<close> is the class the template is instantiated with, \<open>debug\<close> the build.\<close>

record ('k, 'c, 'o, 'z) ProtobufCodecLiteT =
  ct_messageCallback :: "'k \<Rightarrow> ('c, 'o) shared_ptr \<Rightarrow> Timestamp \<Rightarrow> 'z \<Rightarrow> 'z res"
  ct_codec :: "('k, 'c, 'o, 'z) ProtobufCodecLite"

definition onRpcMessage ::
  "bool \<Rightarrow> ('c \<Rightarrow> 'c \<Rightarrow> bool) \<Rightarrow> 'c \<Rightarrow> ('k \<Rightarrow> ('c, 'o) shared_ptr \<Rightarrow> Timestamp \<Rightarrow> 'z \<Rightarrow> 'z res) \<Rightarrow>
   'k \<Rightarrow> ('c, 'o) shared_ptr \<Rightarrow> Timestamp \<Rightarrow> 'z \<Rightarrow> 'z res" where
  "onRpcMessage debug derives MSG messageCallback conn message receiveTime z =
     bindR (down_pointer_cast debug derives MSG message) (\<lambda>m. messageCallback conn m receiveTime z)"

definition ProtobufCodecLiteT_new ::
  "bool \<Rightarrow> ('c \<Rightarrow> 'c \<Rightarrow> bool) \<Rightarrow> 'c \<Rightarrow> 'o \<Rightarrow> string \<Rightarrow> ('k \<Rightarrow> ('c, 'o) shared_ptr \<Rightarrow> Timestamp \<Rightarrow> 'z \<Rightarrow> 'z res) \<Rightarrow>
   ('k \<Rightarrow> StringPiece \<Rightarrow> Timestamp \<Rightarrow> 'z \<Rightarrow> (bool \<times> 'z) res) option \<Rightarrow> ('k \<Rightarrow> Timestamp \<Rightarrow> CodecError \<Rightarrow> 'z \<Rightarrow> 'z res) \<Rightarrow>
   ('k, 'c, 'o, 'z) ProtobufCodecLiteT res" where
  "ProtobufCodecLiteT_new debug derives MSG default_instance TAG messageCb rawCb errorCb =
     bindR (ProtobufCodecLite_new (Some (MSG, default_instance)) (StringPiece_cstr TAG)
              (onRpcMessage debug derives MSG messageCb) rawCb errorCb)
       (\<lambda>codec. Inr \<lparr>ct_messageCallback = messageCb, ct_codec = codec\<rparr>)"

text \<open>What the typed codec passes on to the generic one.\<close>

definition codec_tag :: "('k, 'c, 'o, 'z) ProtobufCodecLite \<Rightarrow> string" where
  "codec_tag c = pc_tag c"

definition codecT_tag :: "('k, 'c, 'o, 'z) ProtobufCodecLiteT \<Rightarrow> string" where
  "codecT_tag c = codec_tag (ct_codec c)"

text \<open>The generic codec's operations in the binary library.\<close>

record ('k, 'c, 'o, 'z) codec_code =
  cc_send :: "('k, 'c, 'o, 'z) ProtobufCodecLite \<Rightarrow> 'k \<Rightarrow> 'o \<Rightarrow> 'z \<Rightarrow> 'z res"
  cc_onMessage :: "('k, 'c, 'o, 'z) ProtobufCodecLite \<Rightarrow> 'k \<Rightarrow> Buffer \<Rightarrow> Timestamp \<Rightarrow> 'z \<Rightarrow> (Buffer \<times> 'z) res"
  cc_fillEmptyBuffer :: "('k, 'c, 'o, 'z) ProtobufCodecLite \<Rightarrow> Buffer \<Rightarrow> 'o \<Rightarrow> Buffer res"

definition codecT_send ::
  "('k, 'c, 'o, 'z) codec_code \<Rightarrow> ('k, 'c, 'o, 'z) ProtobufCodecLiteT \<Rightarrow> 'k \<Rightarrow> 'o \<Rightarrow> 'z \<Rightarrow> 'z res" where
  "codecT_send cc c conn message z = cc_send cc (ct_codec c) conn message z"

definition codecT_onMessage ::
  "('k, 'c, 'o, 'z) codec_code \<Rightarrow> ('k, 'c, 'o, 'z) ProtobufCodecLiteT \<Rightarrow> 'k \<Rightarrow> Buffer \<Rightarrow> Timestamp \<Rightarrow> 'z \<Rightarrow> (Buffer \<times> 'z) res" where
  "codecT_onMessage cc c conn buf receiveTime z = cc_onMessage cc (ct_codec c) conn buf receiveTime z"

definition codecT_fillEmptyBuffer ::
  "('k, 'c, 'o, 'z) codec_code \<Rightarrow> ('k, 'c, 'o, 'z) ProtobufCodecLiteT \<Rightarrow> Buffer \<Rightarrow> 'o \<Rightarrow> Buffer res" where
  "codecT_fillEmptyBuffer cc c buf message = cc_fillEmptyBuffer cc (ct_codec c) buf message"

text \<open>
  The typed codec is always built, with its tag up to the first NUL. When the generic codec hands
  out a message of the class it was given as prototype, or of one that derives from it, the
  user's callback gets that very pointer; a message of any other class never reaches it.
\<close>

lemma codecT_new:
  "\<exists>codec. ProtobufCodecLiteT_new debug derives MSG inst TAG cb rawCb errorCb = Inr \<lparr>ct_messageCallback = cb, ct_codec = codec\<rparr>
    \<and> codec_tag codec = cstr TAG \<and> pc_prototype codec = Some (MSG, inst) \<and> pc_kMinMessageLen codec = int (length (cstr TAG)) + 4
    \<and> pc_messageCallback codec = onRpcMessage debug derives MSG cb"
proof -
  have "take (length (cstr TAG)) (TAG @ [NUL]) = cstr TAG"
    unfolding cstr_def by (induction TAG) simp_all
  moreover have "int (length (cstr TAG)) \<le> int (length (TAG @ [NUL]))" using cstr_length [of TAG] by simp
  ultimately have "as_string (StringPiece_cstr TAG) = Inr (cstr TAG)"
    by (simp add: as_string_def sp_read_def StringPiece_cstr_def del: take_append)
  then show ?thesis
    by (simp add: ProtobufCodecLiteT_new_def ProtobufCodecLite_new_def StringPiece_cstr_def sp_size_def kChecksumLen_def
        codec_tag_def)
qed

lemma codecT_delivers:
  assumes "ProtobufCodecLiteT_new debug derives MSG inst TAG cb rawCb errorCb = Inr c"
    and "get_pointer message = Some (cl, obj)"
  shows "pc_messageCallback (ct_codec c) conn message t z =
    (if derives cl MSG then cb conn message t z else if debug then Inl AssertFailed else Inl UndefinedBehaviour)"
proof -
  from codecT_new [of debug derives MSG inst TAG cb rawCb errorCb] assms(1)
  have "pc_messageCallback (ct_codec c) = onRpcMessage debug derives MSG cb" by auto
  then show ?thesis by (simp add: onRpcMessage_def down_pointer_cast_cases(2) [OF assms(2)])
qed

end
