(* ===== verification/Spec2Isabelle.thy ===== *)
theory Spec2Isabelle
  imports Tests Traffic Sessions BlockingQueues Atomics LogMacros NetFlags Handles Sync Http RpcMessages GzipFiles Casts
begin

text \<open>
  A verification development of \<^verbatim>\<open>kit_rpc\<close>, a small RPC framework in C++ over muduo (the
  network), protobuf (messages and services) and ZooKeeper (the naming service). File names
  are relative to the repository's root; \<^verbatim>\<open>muduo/\<close> stands for \<^verbatim>\<open>include/muduo/\<close>.

  \<^bold>\<open>The program.\<close> A server fills a \<open>Provide\<close> with protobuf services (\<open>notifyService\<close>) and calls
  \<open>run\<close>, which registers every method as a ZooKeeper node holding the server's \<^verbatim>\<open>ip:port\<close>, and
  serves. A client's generated stub calls \<open>KitRpcChannel::CallMethod\<close>, which serializes a header
  and the arguments, looks the node up, connects, sends the frame (4 bytes of header length,
  header, arguments), and loops until the connection is down. The provider's \<open>onMessage\<close> takes
  all bytes of a read apart, dispatches each request and closes the connection after the answer.
  Both sides get their address and log settings from \<open>KitRpcApplication\<close>, the singleton that
  \<open>Init\<close> fills from the command line and a configuration file, and both log through a queue
  to a writer thread.

  \<^bold>\<open>Theories and sources.\<close>
  \<^item> \<open>Prelude\<close>: results (\<open>Inl\<close> a C++ exception, failed \<^verbatim>\<open>assert\<close> or undefined behaviour), the
    \<^verbatim>\<open>std::string\<close> operations with their out-of-range cases, \<^verbatim>\<open>snprintf\<close>, \<^verbatim>\<open>stoi\<close>, C strings.
  \<^item> \<open>UMap\<close>: \<^verbatim>\<open>std::unordered_map\<close>; \<open>Fifo\<close>: the contract of a blocking queue.
  \<^item> \<open>ConfigParse\<close>, \<open>Config\<close>: \<^verbatim>\<open>src/rpc_config_parse.cpp\<close>, \<^verbatim>\<open>src/rpc_config.cpp\<close> and their headers;
    \<open>Application\<close>: \<^verbatim>\<open>src/kit_rpc_application.cpp\<close>.
  \<^item> \<open>LogQueue\<close>, \<open>Logger\<close>: \<^verbatim>\<open>include/log/log_queue.h\<close>, \<^verbatim>\<open>include/log/logger.h\<close>, \<^verbatim>\<open>src/log/logger.cpp\<close>.
  \<^item> \<open>Zookeeper\<close>: \<^verbatim>\<open>src/zookeeper/zookeeper_cli.cpp\<close>, with what a healthy service does; \<open>Controller\<close>: \<^verbatim>\<open>src/rpc_controller.cpp\<close>.
  \<^item> \<open>Wire\<close>: \<^verbatim>\<open>api/proto/common/rpc_header.proto\<close> and the frame both sides build and read.
  \<^item> \<open>Provider\<close> with its lemmas \<open>ProviderLoop\<close>, \<open>ProviderReply\<close>, \<open>Registration\<close>: \<^verbatim>\<open>src/rpc_provider.cpp\<close>.
  \<^item> \<open>ClientChannel\<close> with \<open>ClientCall\<close>: \<^verbatim>\<open>src/rpc_channel.cpp\<close>.
  \<^item> \<open>UserService\<close>: the example \<^verbatim>\<open>example/callee/userservice.h\<close> on the provider.
  \<^item> \<open>EndToEnd\<close>: a call across both sides; \<open>Connections\<close>: the reads of one connection and the events of
    several, in any order, through the callbacks that \<open>run\<close> has set; \<open>Sessions\<close>: the naming service with
    sessions that end; \<open>Traffic\<close>: any number of calls at the same time. Its step relation is the environment (TCP's pieces,
    lost connections, the provider's threads); what a step computes are the callbacks \<open>on_connection\<close>, \<open>on_message\<close> and
    \<open>server_event\<close>, and one that does not return stalls its connection; \<open>Programs\<close>: \<^verbatim>\<open>example/callee/test_callee.cpp\<close> and \<^verbatim>\<open>example/caller/test_caller.cpp\<close>, from
    the command line to the answers; \<open>Tests\<close>: the test programs of \<^verbatim>\<open>tests/\<close> that use the
    library's own code.
  \<^item> \<open>Buffer\<close>, \<open>BufferProps\<close>: \<^verbatim>\<open>muduo/net/Buffer.h\<close>, \<^verbatim>\<open>Endian.h\<close>; \<open>BlockingQueues\<close>:
    \<^verbatim>\<open>muduo/base/BlockingQueue.h\<close>, \<^verbatim>\<open>BoundedBlockingQueue.h\<close>; \<open>Sync\<close>: \<^verbatim>\<open>Mutex.h\<close>, \<^verbatim>\<open>Singleton.h\<close>,
    \<^verbatim>\<open>ThreadLocal*.h\<close>, \<^verbatim>\<open>WeakCallback.h\<close>, \<^verbatim>\<open>Condition.h\<close>, \<^verbatim>\<open>CurrentThread.h\<close>; \<open>Atomics\<close>: \<^verbatim>\<open>Atomic.h\<close>; \<open>StringPieces\<close>: \<^verbatim>\<open>StringPiece.h\<close>;
    \<open>LogStreams\<close>, \<open>LogMacros\<close>: \<^verbatim>\<open>LogStream.h\<close>, \<^verbatim>\<open>Logging.h\<close>; \<open>GzipFiles\<close>: \<^verbatim>\<open>GzipFile.h\<close>; \<open>Casts\<close>: \<^verbatim>\<open>Types.h\<close>,
    \<^verbatim>\<open>muduo/net/Callbacks.h\<close>, \<^verbatim>\<open>protobuf/ProtobufCodecLite.h\<close>; \<open>Clock\<close>: \<^verbatim>\<open>Timestamp.h\<close>, \<^verbatim>\<open>Date.h\<close>; \<open>NetFlags\<close>: \<^verbatim>\<open>muduo/net/Channel.h\<close>,
    \<^verbatim>\<open>TcpConnection.h\<close>, \<^verbatim>\<open>EventLoop.h\<close>; \<open>Servers\<close>: \<^verbatim>\<open>TcpServer.h\<close>, \<^verbatim>\<open>TcpClient.h\<close>;
    \<open>Handles\<close>: the small classes (\<^verbatim>\<open>AsyncLogging.h\<close>, \<^verbatim>\<open>Thread.h\<close>, \<^verbatim>\<open>ThreadPool.h\<close>, \<^verbatim>\<open>InetAddress.h\<close>, \<^verbatim>\<open>RpcChannel.h\<close> and others); \<open>Http\<close>: \<^verbatim>\<open>muduo/net/http\<close>; \<open>RpcMessages\<close>:
    \<^verbatim>\<open>muduo/net/protorpc/rpc.pb.h\<close> and \<^verbatim>\<open>BufferStream.h\<close>.

  Operations carry the name of their class (\<open>Provide_onMessage\<close>), take the object as a record and
  return it updated; what is done to the outside (sends, shutdown, log calls) is returned as a
  list of events in order. Interleavings of threads are step relations with one step per access
  of the shared state: the log queue's monitor, the writer thread, \<open>ZkClient::start\<close> with its
  watcher, the bounded queue's monitor, the mutex; with one step per callback, the calls of \<open>Traffic\<close>.

  \<^bold>\<open>Contracts.\<close> \<open>first_wins\<close> is a map whose \<^verbatim>\<open>insert\<close> keeps what is there (interpreted on the hash map
  as \<open>um\<close> and on ZooKeeper's nodes under \<open>createNode\<close> as \<open>nd\<close>); \<open>naming_service\<close> is what a healthy
  ZooKeeper does with paths, data and ephemeral nodes (interpreted on a service in memory as \<open>mem\<close>,
  and as a predicate \<open>zk_laws\<close> the hypothesis of the properties); \<open>naming_sessions\<close> adds the sessions
  that own the ephemeral nodes (interpreted as \<open>sess\<close>, the predicate is \<open>session_laws\<close>); \<open>fifo\<close> and its extension
  \<open>bounded_fifo\<close> are blocking queues (\<open>lq\<close>, \<open>bq\<close>, \<open>bb\<close>); \<open>byte_stream\<close> is the buffer (\<open>buf\<close>);
  \<open>header_codec\<close> is a header serializer (\<open>proto\<close>, the protobuf wire format).

  \<^bold>\<open>What the lemmas show.\<close> The provider: a read of complete requests is answered request by request;
  the loop ends when no size wraps the position; what a short, cut, wrapping or
  pipelined message does. Registration and publication, in any iteration order of the hash
  maps. The client: what a call returns, its failures, an answer in pieces, when it never
  returns. Both together: \<open>rpc_end_to_end\<close>, \<open>call_outcome\<close> (a call returns exactly when the
  service completes it, and with what), and with the configuration file that both
  read \<open>example_programs_run\<close>. Several connections: each is answered its own requests in any
  order of the events (\<open>connections_answered\<close>), and one can end the provider for all
  (\<open>short_read_ends_provider\<close>). Several calls: each ends as it would alone (\<open>concurrent_calls_refine\<close>), also beside connections that
  are lost, whose calls return as if answered (\<open>lost_connections_outcome\<close>), the calls that a service completes return and the others wait for ever
  (\<open>completed_calls_return\<close>), and a read that cuts a request short makes waiting calls succeed without an
  answer (\<open>short_read_passes_as_success\<close>). Sessions: the end of a session undoes its registration
  (\<open>session_end_unregisters\<close>), and a restart within the old session's life loses the methods
  (\<open>restart_loses_method\<close>). Configuration: written files read back, comments and
  spaces included, the shipped \<^verbatim>\<open>default_conf.ini\<close> among them; what each line does, reloads. The
  logger: messages reach the files once and in order; the windows in which they do not. The
  muduo classes: the buffer is a byte stream with round-tripping integers, the queues lose no
  element and no wakeup, the mutex's holder is exact.

  \<^bold>\<open>Fuel.\<close> Only \<open>Provide_onMessage\<close> takes fuel, one unit per pass of its loop and one to leave it. The
  number of requests plus one is enough for complete requests, the number of bytes plus one
  for any bytes whose sizes fit (\<open>sizes_fit\<close>); for \<open>onMessage_wraps_forever\<close> no fuel is enough, since
  the code does not return. For any bytes at all, if one unit more than their number is not enough then none is
  (\<open>onMessage_fuel_decides\<close>), so a read without a result in \<open>Connections\<close> and \<open>Traffic\<close> is one that never returns. \<open>KitRpcChannel_CallMethod\<close> is \<open>None\<close> when the event loop is never left.

  \<^bold>\<open>Outside the model.\<close> Code that is not in the repository is an argument: the serializers and
  dispatch that \<^verbatim>\<open>protoc\<close> generates (\<open>codec_ok\<close> states that a header reads back), the ZooKeeper C
  library (\<open>zk_laws\<close> states what its calls do on a healthy service), the network after \<^verbatim>\<open>connect\<close>,
  \<^verbatim>\<open>getopt\<close>, the clock, which files open. Allocation is assumed to succeed, also for the sizes
  a message announces. A serialized response has fewer than \<^verbatim>\<open>2^31\<close> bytes, which protobuf ensures, so the \<^verbatim>\<open>int\<close>
  length of \<^verbatim>\<open>conn->send\<close> is exact. \<^verbatim>\<open>size_t\<close> is a natural number except where the code compares with \<^verbatim>\<open>npos\<close>.
  Floating-point arithmetic (timestamps as \<^verbatim>\<open>double\<close>; \<^verbatim>\<open>get<float>\<close> takes its conversion as an
  argument), \<^verbatim>\<open>tests/test_proto.cpp\<close> (generated code only), the stub JSON and YAML
  parsers' output, and the muduo classes whose headers only declare operations implemented in
  its binary libraries are left out.

  \<^bold>\<open>Not modelled.\<close> The rest of the headers under \<^verbatim>\<open>muduo/\<close> declares classes whose operations are in the
  binary libraries (event loops, acceptors, timers, thread pools, time zones, the RPC and HTTP servers), with an
  inline accessor or setter here and there; there is no code to translate. The services' own handlers are functions of
  their request, also when several connections call them at the same time.
\<close>

end
